(* ===== verification/Prelude.thy ===== *)
theory Prelude
  imports Main "HOL-Library.AList"
begin

text \<open>
  The vocabulary the component theories share.

  The library's methods change the runtime data of a statechart, call back into user code, may
  throw, may recurse without end, and hold raw pointers.  A method is therefore a function
  from a state to an \<open>outcome\<close>: it returns a value, it throws an exception (the state
  reached so far is kept, as the C++ code does not roll back), it does not return (the recursion
  bound was used up, which in C++ is a stack overflow), or it has undefined behaviour (an access
  through a dangling pointer).  \<open>mbind\<close> sequences such computations.

  On top of that the theory has: the loops of the source (\<open>for_each\<close>, \<open>for_until\<close>),
  a weakest-precondition calculus (\<open>wp\<close>), the order "defined at least as often"
  (\<open>le_prog\<close>) that fuel monotonicity is about, and lemmas on association lists and on common
  prefixes of lists.
\<close>

section \<open>Names of the model's types\<close>

type_synonym sid = nat \<comment> \<open>a \<open>State*\<close>: 0 is the statechart, i + 1 is \<open>m_ownedStates[i]\<close>\<close>
type_synonym tid = nat \<comment> \<open>a \<open>Transition*\<close>: the index in \<open>m_ownedTransitions\<close>\<close>
type_synonym eid = nat \<comment> \<open>an \<open>EventQueueEntry*\<close>\<close>

named_theorems mono_rules \<open>rules that a program construct is monotone in its virtual calls\<close>

section \<open>Outcomes\<close>

datatype exn =
    StatechartException string
  | InfiniteLoopException string
  | UserException nat

datatype ('a, 's) outcome =
    Ret 'a 's
  | Exn exn 's
  | NoReturn
  | Undef

type_synonym ('a, 's) prog = "'s \<Rightarrow> ('a, 's) outcome"

abbreviation mret :: "'a \<Rightarrow> ('a, 's) prog" where
  "mret a \<equiv> Ret a"

definition mbind :: "('a, 's) prog \<Rightarrow> ('a \<Rightarrow> ('b, 's) prog) \<Rightarrow> ('b, 's) prog" where
  "mbind m f = (\<lambda>s. case m s of
      Ret a s' \<Rightarrow> f a s'
    | Exn e s' \<Rightarrow> Exn e s'
    | NoReturn \<Rightarrow> NoReturn
    | Undef \<Rightarrow> Undef)"

definition mget :: "('s \<Rightarrow> 'a) \<Rightarrow> ('a, 's) prog" where
  "mget f = (\<lambda>s. Ret (f s) s)"

definition mmod :: "('s \<Rightarrow> 's) \<Rightarrow> (unit, 's) prog" where
  "mmod f = (\<lambda>s. Ret () (f s))"

abbreviation mthrow :: "exn \<Rightarrow> ('a, 's) prog" where
  "mthrow e \<equiv> Exn e"

definition mundef :: "('a, 's) prog" where
  "mundef = (\<lambda>s. Undef)"

definition mnoreturn :: "('a, 's) prog" where
  "mnoreturn = (\<lambda>s. NoReturn)"

text \<open>Access through a pointer: undefined unless the pointer is valid in the current state.\<close>

definition mvalid :: "('s \<Rightarrow> bool) \<Rightarrow> (unit, 's) prog" where
  "mvalid c = (\<lambda>s. if c s then Ret () s else Undef)"

lemma mbind_simps [simp]:
  "m s = Ret a s' \<Longrightarrow> mbind m f s = f a s'"
  "m s = Exn e s' \<Longrightarrow> mbind m f s = Exn e s'"
  "m s = NoReturn \<Longrightarrow> mbind m f s = NoReturn"
  "m s = Undef \<Longrightarrow> mbind m f s = Undef"
  by (simp_all add: mbind_def)

lemma mprim_simps [simp]:
  "mget g s = Ret (g s) s"
  "mmod h s = Ret () (h s)"
  "mundef s = Undef"
  "mnoreturn s = NoReturn"
  "mvalid c s = (if c s then Ret () s else Undef)"
  by (simp_all add: mget_def mmod_def mundef_def mnoreturn_def mvalid_def)

lemma mbind_Ret_iff:
  "mbind m f s = Ret b t \<longleftrightarrow> (\<exists>a s'. m s = Ret a s' \<and> f a s' = Ret b t)"
  by (auto simp: mbind_def split: outcome.splits)

lemma mbind_assoc: "mbind (mbind m f) g = mbind m (\<lambda>x. mbind (f x) g)"
  by (rule ext) (simp add: mbind_def split: outcome.split)

lemma mbind_mret [simp]: "mbind m mret = m"
  by (rule ext) (simp add: mbind_def split: outcome.split)

lemma mret_mbind [simp]: "mbind (mret a) f = f a"
  by (rule ext) simp

section \<open>Loops\<close>

text \<open>\<open>for (x : xs) body(x);\<close>\<close>

primrec for_each :: "'x list \<Rightarrow> ('x \<Rightarrow> (unit, 's) prog) \<Rightarrow> (unit, 's) prog" where
  "for_each [] body = mret ()"
| "for_each (x # xs) body = mbind (body x) (\<lambda>_. for_each xs body)"

text \<open>\<open>for (x : xs) if (body(x)) return true; return false;\<close>\<close>

primrec for_until :: "'x list \<Rightarrow> ('x \<Rightarrow> (bool, 's) prog) \<Rightarrow> (bool, 's) prog" where
  "for_until [] body = mret False"
| "for_until (x # xs) body =
     mbind (body x) (\<lambda>r. if r then mret True else for_until xs body)"

text \<open>An optional callback: \<open>if (action) action(...);\<close>\<close>

definition mcall :: "('p \<Rightarrow> (unit, 's) prog) option \<Rightarrow> 'p \<Rightarrow> (unit, 's) prog" where
  "mcall act p = (case act of None \<Rightarrow> mret () | Some a \<Rightarrow> a p)"

lemma mcall_simps [simp]:
  "mcall None p = mret ()"
  "mcall (Some a) p = a p"
  by (simp_all add: mcall_def)

lemma for_each_append:
  "for_each (xs @ ys) body = mbind (for_each xs body) (\<lambda>_. for_each ys body)"
  by (induction xs) (simp_all add: mbind_assoc)

section \<open>Weakest preconditions\<close>

text \<open>
  \<open>wp nr ub m Q E s\<close>: run in \<open>s\<close>, \<open>m\<close> ends in \<open>Q\<close> when it returns and in \<open>E\<close> when it throws.
  With \<open>nr = False\<close> it also returns or throws (the bound on nested calls is enough), with
  \<open>ub = False\<close> it has no undefined behaviour; \<open>True\<close> says nothing about that.
\<close>

definition wp ::
  "bool \<Rightarrow> bool \<Rightarrow> ('a, 's) prog \<Rightarrow> ('a \<Rightarrow> 's \<Rightarrow> bool) \<Rightarrow> (exn \<Rightarrow> 's \<Rightarrow> bool) \<Rightarrow> 's \<Rightarrow> bool"
where
  "wp nr ub m Q E s = (case m s of
      Ret a s' \<Rightarrow> Q a s' | Exn e s' \<Rightarrow> E e s' | NoReturn \<Rightarrow> nr | Undef \<Rightarrow> ub)"

lemma wp_bind [simp]: "wp nr ub (mbind m f) Q E s = wp nr ub m (\<lambda>a. wp nr ub (f a) Q E) E s"
  by (simp add: wp_def mbind_def split: outcome.split)

lemma wp_ret [simp]: "wp nr ub (mret a) Q E s = Q a s"
  by (simp add: wp_def)

text \<open>The same below an abstraction.\<close>

lemma wp_fun [simp]:
  "wp nr ub (mbind m f) Q E = wp nr ub m (\<lambda>a. wp nr ub (f a) Q E) E"
  "wp nr ub (mret a) Q E = Q a"
  by (simp_all add: fun_eq_iff)

lemma wp_get [simp]: "wp nr ub (mget f) Q E s = Q (f s) s"
  by (simp add: wp_def)

lemma wp_mod [simp]: "wp nr ub (mmod h) Q E s = Q () (h s)"
  by (simp add: wp_def)

lemma wp_throw [simp]: "wp nr ub (mthrow e) Q E s = E e s"
  by (simp add: wp_def)

lemma wp_valid [simp]: "wp nr ub (mvalid c) Q E s = (if c s then Q () s else ub)"
  by (simp add: wp_def)

lemma wp_stop [simp]: "wp nr ub mnoreturn Q E s = nr" "wp nr ub mundef Q E s = ub"
  by (simp_all add: wp_def)

lemma wp_if [simp]: "wp nr ub (if b then m else m') Q E s = (if b then wp nr ub m Q E s else wp nr ub m' Q E s)"
  by simp

lemma wp_mono:
  assumes "wp nr ub m Q E s" "\<And>a s'. Q a s' \<Longrightarrow> Q' a s'" "\<And>e s'. E e s' \<Longrightarrow> E' e s'"
  shows "wp nr ub m Q' E' s"
  using assms by (auto simp: wp_def split: outcome.splits)

lemma wp_cong: "m s = m' s \<Longrightarrow> wp nr ub m Q E s = wp nr ub m' Q E s"
  by (simp add: wp_def)

lemma wp_step: "m s = m' s' \<Longrightarrow> wp nr ub m' Q E s' \<Longrightarrow> wp nr ub m Q E s"
  by (simp add: wp_def)

lemma wp_Ret: "m s = Ret a s' \<Longrightarrow> wp nr ub m Q E s = Q a s'"
  by (simp add: wp_def)

lemma wp_for_each:
  assumes "I s" "\<And>x s. x \<in> set xs \<Longrightarrow> I s \<Longrightarrow> wp nr ub (body x) (\<lambda>_. I) E s"
  shows "wp nr ub (for_each xs body) (\<lambda>_. I) E s"
  using assms
proof (induction xs arbitrary: s)
  case (Cons x xs)
  have "wp nr ub (body x) (\<lambda>_. I) E s" using Cons.prems by simp
  then have "wp nr ub (body x) (\<lambda>_. wp nr ub (for_each xs body) (\<lambda>_. I) E) E s"
    by (rule wp_mono) (use Cons in simp_all)
  then show ?case by simp
qed simp

lemma wp_for_until:
  assumes "I s" "\<And>x s. x \<in> set xs \<Longrightarrow> I s \<Longrightarrow> wp nr ub (body x) (\<lambda>r. if r then T else I) E s"
  shows "wp nr ub (for_until xs body) (\<lambda>r. if r then T else I) E s"
  using assms
proof (induction xs arbitrary: s)
  case (Cons x xs)
  have "wp nr ub (body x) (\<lambda>r. if r then T else I) E s" using Cons.prems by simp
  then have "wp nr ub (body x)
      (\<lambda>r. wp nr ub (if r then mret True else for_until xs body) (\<lambda>r. if r then T else I) E) E s"
    by (rule wp_mono) (use Cons in \<open>simp_all split: if_split_asm\<close>)
  then show ?case by simp
qed simp

text \<open>A loop that stops at the first step with an effect; the other steps change nothing.\<close>

lemma wp_for_until_first:
  assumes "\<And>x. x \<in> set xs \<Longrightarrow> wp nr ub (body x) (\<lambda>b s'. if b then T s' else s' = s) E s"
  shows "wp nr ub (for_until xs body) (\<lambda>b s'. if b then T s' else s' = s) E s"
  using assms
proof (induction xs)
  case (Cons x xs)
  have "wp nr ub (body x) (\<lambda>b. wp nr ub (if b then mret True else for_until xs body)
      (\<lambda>b s'. if b then T s' else s' = s) E) E s"
    by (rule wp_mono[OF Cons.prems[of x]]) (use Cons in \<open>auto split: if_splits\<close>)
  then show ?case by simp
qed simp

lemma wp_conj_Ret: "wp nr ub m Q E s \<Longrightarrow> m s = Ret a s' \<Longrightarrow> Q a s'"
  by (simp add: wp_def)

lemma wp_conj_Exn: "wp nr ub m Q E s \<Longrightarrow> m s = Exn e s' \<Longrightarrow> E e s'"
  by (simp add: wp_def)

lemma wp_safe: "wp nr False m Q E s \<Longrightarrow> m s \<noteq> Undef"
  by (auto simp: wp_def)

lemma wp_returns: "wp False ub m Q E s \<Longrightarrow> m s \<noteq> NoReturn"
  by (auto simp: wp_def)

section \<open>Monotonicity in the virtual calls\<close>

text \<open>
  \<open>m'\<close> behaves like \<open>m\<close> wherever \<open>m\<close> returns, throws or is undefined; it may do
  anything where \<open>m\<close> does not return.
\<close>

definition le_out :: "('a, 's) outcome \<Rightarrow> ('a, 's) outcome \<Rightarrow> bool" where
  "le_out x y \<longleftrightarrow> x = NoReturn \<or> x = y"

definition le_prog :: "('a, 's) prog \<Rightarrow> ('a, 's) prog \<Rightarrow> bool" where
  "le_prog m m' \<longleftrightarrow> (\<forall>s. le_out (m s) (m' s))"

lemma le_progD: "le_prog m m' \<Longrightarrow> m s \<noteq> NoReturn \<Longrightarrow> m' s = m s"
  by (auto simp: le_prog_def le_out_def)

lemma le_prog_refl [mono_rules, simp]: "le_prog m m"
  by (simp add: le_prog_def le_out_def)

lemma le_prog_noreturn [simp]: "le_prog mnoreturn m"
  by (simp add: le_prog_def le_out_def)

lemma le_prog_trans: "le_prog a b \<Longrightarrow> le_prog b c \<Longrightarrow> le_prog a c"
  unfolding le_prog_def le_out_def by metis

lemma le_prog_bind [mono_rules]:
  assumes "le_prog m m'" and "\<And>a. le_prog (f a) (f' a)"
  shows "le_prog (mbind m f) (mbind m' f')"
  unfolding le_prog_def
proof
  fix s
  have "m s = NoReturn \<or> m s = m' s"
    using assms(1) by (simp add: le_prog_def le_out_def)
  then show "le_out (mbind m f s) (mbind m' f' s)"
  proof
    assume "m s = m' s"
    then show ?thesis
      using assms(2) by (cases "m' s") (simp_all add: le_prog_def le_out_def)
  qed (simp add: le_out_def)
qed

lemma le_prog_if [mono_rules]:
  "(b \<Longrightarrow> le_prog m m') \<Longrightarrow> (\<not> b \<Longrightarrow> le_prog n n') \<Longrightarrow>
   le_prog (if b then m else n) (if b then m' else n')"
  by simp

lemma le_prog_option [mono_rules]:
  "(x = None \<Longrightarrow> le_prog m m') \<Longrightarrow> (\<And>y. x = Some y \<Longrightarrow> le_prog (f y) (f' y)) \<Longrightarrow>
   le_prog (case x of None \<Rightarrow> m | Some y \<Rightarrow> f y) (case x of None \<Rightarrow> m' | Some y \<Rightarrow> f' y)"
  by (cases x) simp_all

lemma le_prog_for_each [mono_rules]:
  "(\<And>x. x \<in> set xs \<Longrightarrow> le_prog (b x) (b' x)) \<Longrightarrow> le_prog (for_each xs b) (for_each xs b')"
  by (induction xs) (auto intro!: mono_rules)

lemma le_prog_for_until [mono_rules]:
  "(\<And>x. x \<in> set xs \<Longrightarrow> le_prog (b x) (b' x)) \<Longrightarrow> le_prog (for_until xs b) (for_until xs b')"
  by (induction xs) (auto intro!: mono_rules)

section \<open>Lists\<close>

text \<open>The number of leading elements two lists have in common.\<close>

fun common_prefix :: "'a list \<Rightarrow> 'a list \<Rightarrow> nat" where
  "common_prefix (x # xs) (y # ys) = (if x = y then Suc (common_prefix xs ys) else 0)"
| "common_prefix xs ys = 0"

lemma common_prefix_bounds:
  "common_prefix xs ys \<le> length xs" "common_prefix xs ys \<le> length ys"
  by (induction xs ys rule: common_prefix.induct) auto

lemma take_common_prefix: "take (common_prefix xs ys) xs = take (common_prefix xs ys) ys"
  by (induction xs ys rule: common_prefix.induct) auto

lemma common_prefix_differs:
  "common_prefix xs ys < length xs \<Longrightarrow> common_prefix xs ys < length ys \<Longrightarrow>
   xs ! common_prefix xs ys \<noteq> ys ! common_prefix xs ys"
  by (induction xs ys rule: common_prefix.induct) auto

lemma common_prefix_nth:
  "i < common_prefix xs ys \<Longrightarrow> xs ! i = ys ! i"
  by (metis nth_take take_common_prefix)

section \<open>Numbers in messages\<close>

text \<open>\<open>std::to_string\<close> of an unsigned number: its decimal digits.\<close>

fun to_string :: "nat \<Rightarrow> string" where
  "to_string n =
     (if n < 10 then [char_of (48 + n)] else to_string (n div 10) @ [char_of (48 + n mod 10)])"

declare to_string.simps [simp del]

section \<open>Association lists\<close>

text \<open>
  The library's hash maps are association lists; the order of their entries is never used.
  \<open>map_of\<close> looks a key up, \<open>AList.update\<close> stores, \<open>AList.delete\<close> erases.
\<close>

lemma alist_laws [simp]:
  "map_of (AList.update k v al) k' = (if k' = k then Some v else map_of al k')"
  "map_of (AList.delete k al) k' = (if k' = k then None else map_of al k')"
  by (simp_all add: update_conv' delete_conv')

lemma distinct_update_keys [simp]:
  "distinct (map fst al) \<Longrightarrow> distinct (map fst (AList.update k v al))"
  by (rule distinct_update)

lemma distinct_delete_keys [simp]:
  "distinct (map fst al) \<Longrightarrow> distinct (map fst (AList.delete k al))"
  by (rule distinct_delete)

end
