(* ===== verification/Events.thy ===== *)
theory Events
  imports Prelude "HOL-Library.Word"
begin

text \<open>
  Events (\<open>Event.hpp\<close>, \<open>Event.cpp\<close>, \<open>TimeoutEvent.hpp\<close>, \<open>TimeoutEvent.cpp\<close>).
  An event is a value: the library only ever reads its identifier, its class and, for a timeout,
  its delay and its unique identifier.  Event classes of the client (subclasses of \<open>Event\<close>
  that override \<open>equals\<close>) are \<open>UserEvent\<close>s; their \<open>equals\<close> is a parameter
  of \<open>event_equals\<close>.
\<close>

section \<open>The event classes\<close>

text \<open>
  \<open>TimeoutEvent timeout high low\<close>: the delay in milliseconds (an \<open>int64_t\<close> that is only
  stored and added to a time point) and the two halves of the unique identifier, drawn at random
  by the constructor.  \<open>UserEvent id obj\<close>: an object of a class of the client.
\<close>

datatype event =
    Event string
  | TimeoutEvent int "64 word" "64 word"
  | UserEvent string nat

text \<open>\<open>Event::id\<close>: the identifier given to the base class's constructor.\<close>

fun event_id :: "event \<Rightarrow> string" where
  "event_id (Event i) = i"
| "event_id (TimeoutEvent _ _ _) = ''TimeoutEvent''"
| "event_id (UserEvent i _) = i"

text \<open>\<open>dynamic_cast<TimeoutEvent*>(event)\<close>\<close>

fun is_timeout :: "event \<Rightarrow> bool" where
  "is_timeout (TimeoutEvent _ _ _) = True"
| "is_timeout _ = False"

text \<open>
  \<open>TimeoutEvent::TimeoutEvent(p_timeout)\<close>; the two random numbers are what
  \<open>generateUuid\<close> drew from the standard library's generator.
\<close>

definition new_timeout_event :: "int \<Rightarrow> 64 word \<times> 64 word \<Rightarrow> event" where
  "new_timeout_event t uuid = TimeoutEvent t (fst uuid) (snd uuid)"

text \<open>\<open>TimeoutEvent::timeout\<close> and \<open>TimeoutEvent::setTimeout\<close>\<close>

fun event_timeout :: "event \<Rightarrow> int" where
  "event_timeout (TimeoutEvent t _ _) = t"
| "event_timeout _ = 0"

fun set_timeout :: "int \<Rightarrow> event \<Rightarrow> event" where
  "set_timeout t (TimeoutEvent _ h l) = TimeoutEvent t h l"
| "set_timeout t e = e"

section \<open>Matching\<close>

text \<open>\<open>Event::equals\<close>, the base class's: equal identifiers, whatever the class of the other.\<close>

definition base_equals :: "string \<Rightarrow> event option \<Rightarrow> bool" where
  "base_equals i ev = (case ev of None \<Rightarrow> False | Some e \<Rightarrow> i = event_id e)"

text \<open>\<open>TimeoutEvent::equals\<close>: the other is a timeout event with the same unique identifier.\<close>

definition timeout_equals :: "64 word \<Rightarrow> 64 word \<Rightarrow> event option \<Rightarrow> bool" where
  "timeout_equals h l ev = (case ev of
      Some (TimeoutEvent _ h' l') \<Rightarrow> h' = h \<and> l' = l
    | _ \<Rightarrow> False)"

text \<open>
  The virtual call \<open>trigger->equals(event, ...)\<close>.  \<open>user_eq\<close> is the client's override
  for the client's event classes.
\<close>

fun event_equals :: "(nat \<Rightarrow> event option \<Rightarrow> bool) \<Rightarrow> event \<Rightarrow> event option \<Rightarrow> bool" where
  "event_equals user_eq (Event i) ev = base_equals i ev"
| "event_equals user_eq (TimeoutEvent _ h l) ev = timeout_equals h l ev"
| "event_equals user_eq (UserEvent _ obj) ev = user_eq obj ev"

section \<open>Facts about matching\<close>

lemma base_equals_None [simp]: "\<not> base_equals i None"
  by (simp add: base_equals_def)

lemma timeout_equals_None [simp]: "\<not> timeout_equals h l None"
  by (simp add: timeout_equals_def)

lemma timeout_equals_iff:
  "timeout_equals h l (Some e) \<longleftrightarrow> (\<exists>t. e = TimeoutEvent t h l)"
  by (cases e) (auto simp: timeout_equals_def)

lemma set_timeout_uuid:
  "event_equals u (set_timeout t e) = event_equals u e"
  by (cases e) (simp_all add: fun_eq_iff)

text \<open>
  Timeout matching is an equivalence on timeout events: it is equality of the unique identifiers,
  so a dispatched timeout can only fire the transitions that carry that very event.
\<close>

lemma timeout_equals_equivalence:
  assumes "is_timeout a" "is_timeout b" "is_timeout c"
  shows "event_equals u a (Some a)"
    and "event_equals u a (Some b) \<Longrightarrow> event_equals u b (Some a)"
    and "event_equals u a (Some b) \<Longrightarrow> event_equals u b (Some c) \<Longrightarrow> event_equals u a (Some c)"
  using assms by (cases a; cases b; cases c; auto simp: timeout_equals_iff)+

text \<open>Across classes matching is not symmetric.\<close>

lemma equals_not_symmetric:
  "event_equals u (Event ''TimeoutEvent'') (Some (TimeoutEvent t h l))"
  "\<not> event_equals u (TimeoutEvent t h l) (Some (Event ''TimeoutEvent''))"
  by (simp_all add: base_equals_def timeout_equals_iff)

end
