(* ===== verification/Delay_Queue.thy ===== *)
theory Delay_Queue
  imports Prelude "HOL-Library.Multiset"
begin

text \<open>
  The time-ordered queue of \<open>DelayQueue.hpp\<close>.  The element type stays abstract; \<open>key\<close>
  is \<open>deadline()\<close> of an element.  Every method of the class holds the queue's mutex for its
  whole body, so each is one atomic function here; \<open>take\<close>, which releases the mutex while it
  waits, is a loop of atomic iterations (\<open>dq_take_iter\<close>) with whatever the other threads do
  to the queue in between.
\<close>

section \<open>The queue and its methods\<close>

record 'a delay_queue =
  m_items :: "'a list"
  m_stop :: bool

definition dq_empty :: "'a delay_queue" where
  "dq_empty = \<lparr>m_items = [], m_stop = False\<rparr>"

definition dq_is_empty :: "'a delay_queue \<Rightarrow> bool" where
  "dq_is_empty q = (m_items q = [])"

definition dq_size :: "'a delay_queue \<Rightarrow> nat" where
  "dq_size q = length (m_items q)"

text \<open>
  \<open>std::lower_bound(begin, end, deadline, cmp)\<close>: the binary search of the standard library,
  \<open>first\<close> the start and \<open>len\<close> the length of the range still to be searched.
\<close>

fun lower_bound :: "('a \<Rightarrow> int) \<Rightarrow> 'a list \<Rightarrow> int \<Rightarrow> nat \<Rightarrow> nat \<Rightarrow> nat" where
  "lower_bound key xs d first len =
     (if len = 0 then first
      else
        let half = len div 2; mid = first + half in
        if key (xs ! mid) < d then lower_bound key xs d (mid + 1) (len - half - 1)
        else lower_bound key xs d first half)"

declare lower_bound.simps [simp del]

text \<open>\<open>m_items.insert(it, value)\<close>: before the element at position \<open>i\<close>.\<close>

definition insert_at :: "nat \<Rightarrow> 'a \<Rightarrow> 'a list \<Rightarrow> 'a list" where
  "insert_at i x xs = take i xs @ x # drop i xs"

definition dq_add :: "('a \<Rightarrow> int) \<Rightarrow> 'a \<Rightarrow> 'a delay_queue \<Rightarrow> 'a delay_queue" where
  "dq_add key x q =
     (let i = lower_bound key (m_items q) (key x) 0 (length (m_items q))
      in q\<lparr>m_items := insert_at i x (m_items q)\<rparr>)"

text \<open>\<open>remove\<close> erases the first element equal to the argument, if there is one.\<close>

definition dq_remove :: "'a \<Rightarrow> 'a delay_queue \<Rightarrow> 'a delay_queue" where
  "dq_remove x q = q\<lparr>m_items := remove1 x (m_items q)\<rparr>"

definition dq_clear :: "'a delay_queue \<Rightarrow> 'a delay_queue" where
  "dq_clear q = q\<lparr>m_items := []\<rparr>"

definition dq_stop :: "'a delay_queue \<Rightarrow> 'a delay_queue" where
  "dq_stop q = q\<lparr>m_stop := True\<rparr>"

definition dq_resume :: "'a delay_queue \<Rightarrow> 'a delay_queue" where
  "dq_resume q = q\<lparr>m_stop := False\<rparr>"

text \<open>
  One iteration of the loop in \<open>take\<close>, at clock reading \<open>now\<close>: the queue was stopped, or
  it is empty and the thread waits for a notification, or the head is due and is returned, or
  the thread waits until the head's deadline.
\<close>

datatype 'a take_result =
    Stopped
  | WaitNotify
  | WaitUntil int
  | Taken 'a

fun dq_take_iter :: "('a \<Rightarrow> int) \<Rightarrow> int \<Rightarrow> 'a delay_queue \<Rightarrow> 'a take_result \<times> 'a delay_queue" where
  "dq_take_iter key now q =
     (if m_stop q then (Stopped, q)
      else case m_items q of
        [] \<Rightarrow> (WaitNotify, q)
      | x # rest \<Rightarrow>
          if key x \<le> now then (Taken x, q\<lparr>m_items := rest\<rparr>)
          else (WaitUntil (key x), q))"

text \<open>
  \<open>take\<close>: each element of the first argument is one wake-up, a clock reading and what the
  other threads did to the queue before it.  The result is \<open>None\<close> while the thread still
  waits, otherwise the returned optional element and the queue.
\<close>

fun dq_take ::
  "('a \<Rightarrow> int) \<Rightarrow> (int \<times> ('a delay_queue \<Rightarrow> 'a delay_queue)) list \<Rightarrow> 'a delay_queue \<Rightarrow>
   ('a option \<times> 'a delay_queue) option"
where
  "dq_take key [] q = None"
| "dq_take key ((now, env) # wakes) q =
     (case dq_take_iter key now (env q) of
        (Stopped, q') \<Rightarrow> Some (None, q')
      | (Taken x, q') \<Rightarrow> Some (Some x, q')
      | (_, q') \<Rightarrow> dq_take key wakes q')"

text \<open>The class's promise: the elements are kept sorted by deadline.\<close>

definition dq_sorted :: "('a \<Rightarrow> int) \<Rightarrow> 'a delay_queue \<Rightarrow> bool" where
  "dq_sorted key q \<longleftrightarrow> sorted (map key (m_items q))"

section \<open>The binary search\<close>

lemma lower_bound_range:
  "first \<le> lower_bound key xs d first len \<and> lower_bound key xs d first len \<le> first + len"
proof (induction key xs d first len rule: lower_bound.induct)
  case (1 key xs d first len)
  show ?case
  proof (cases "len = 0")
    case False
    then have "len div 2 < len" by simp
    with 1 False show ?thesis
      by (subst (1 2) lower_bound.simps) (fastforce simp: Let_def)
  qed (simp add: lower_bound.simps)
qed

lemma lower_bound_split:
  assumes "sorted (map key xs)" "first + len \<le> length xs"
    and "\<forall>i < first. key (xs ! i) < d"
    and "\<forall>i. first + len \<le> i \<and> i < length xs \<longrightarrow> d \<le> key (xs ! i)"
  defines "r \<equiv> lower_bound key xs d first len"
  shows "(\<forall>i < r. key (xs ! i) < d) \<and> (\<forall>i. r \<le> i \<and> i < length xs \<longrightarrow> d \<le> key (xs ! i))"
  using assms(1-4) unfolding r_def
proof (induction key xs d first len rule: lower_bound.induct)
  case (1 key xs d first len)
  have mono: "key (xs ! i) \<le> key (xs ! j)" if "i \<le> j" "j < length xs" for i j
    using sorted_nth_mono[OF "1.prems"(1), of i j] that by simp
  show ?case
  proof (cases "len = 0")
    case True
    with "1.prems" show ?thesis by (subst (1 2) lower_bound.simps) simp
  next
    case False
    define half where "half = len div 2"
    define mid where "mid = first + half"
    have len: "half < len" using False by (simp add: half_def)
    then have mid: "mid < length xs" using "1.prems"(2) by (simp add: mid_def)
    have unfold: "lower_bound key xs d first len =
        (if key (xs ! mid) < d then lower_bound key xs d (mid + 1) (len - half - 1)
         else lower_bound key xs d first half)"
      using False lower_bound.simps[of key xs d first len] by (simp add: Let_def half_def mid_def)
    show ?thesis
    proof (cases "key (xs ! mid) < d")
      case True
      have below: "\<forall>i < mid + 1. key (xs ! i) < d"
      proof (intro allI impI)
        fix i assume "i < mid + 1"
        then have "key (xs ! i) \<le> key (xs ! mid)" using mono[of i mid] mid by simp
        with True show "key (xs ! i) < d" by simp
      qed
      have rest: "mid + 1 + (len - half - 1) = first + len"
        using len by (simp add: mid_def)
      have eq: "lower_bound key xs d first len = lower_bound key xs d (mid + 1) (len - half - 1)"
        using unfold True by (simp only: if_True)
      show ?thesis
        unfolding eq
        by (rule "1.IH"(1)[OF False half_def mid_def True "1.prems"(1)])
          (use "1.prems"(2,4) below rest in \<open>simp_all only: rest\<close>)
    next
      case above: False
      have "\<forall>i. first + half \<le> i \<and> i < length xs \<longrightarrow> d \<le> key (xs ! i)"
        using mono[of mid] above by (force simp: mid_def)
      moreover have eq: "lower_bound key xs d first len = lower_bound key xs d first half"
        using unfold above by (simp only: if_False)
      moreover have "first + half \<le> length xs"
        using "1.prems"(2) len by simp
      ultimately show ?thesis
        unfolding eq
        by (intro "1.IH"(2)[OF False half_def mid_def above "1.prems"(1)] "1.prems"(3))
    qed
  qed
qed

text \<open>On a sorted queue the binary search finds the end of the elements before the deadline.\<close>

lemma lower_bound_takeWhile:
  assumes "sorted (map key xs)"
  shows "lower_bound key xs d 0 (length xs) = length (takeWhile (\<lambda>x. key x < d) xs)"
    (is "?r = _")
proof -
  have split: "(\<forall>i < ?r. key (xs ! i) < d) \<and>
      (\<forall>i. ?r \<le> i \<and> i < length xs \<longrightarrow> d \<le> key (xs ! i))"
    by (rule lower_bound_split) (use assms in simp_all)
  have le: "?r \<le> length xs"
    using lower_bound_range[of 0 key xs d "length xs"] by simp
  have "takeWhile (\<lambda>x. key x < d) xs = take ?r xs"
    by (rule takeWhile_eq_take_P_nth) (use split le in \<open>auto simp: not_less\<close>)
  with le show ?thesis by simp
qed

text \<open>So \<open>add\<close> splits the queue at the first element that is not before the new one.\<close>

lemma dq_add_items:
  assumes "dq_sorted key q"
  shows "m_items (dq_add key x q) =
    takeWhile (\<lambda>y. key y < key x) (m_items q) @ x # dropWhile (\<lambda>y. key y < key x) (m_items q)"
  using lower_bound_takeWhile[of key "m_items q" "key x"] assms
  by (simp add: dq_add_def dq_sorted_def insert_at_def Let_def
      takeWhile_eq_take [symmetric] dropWhile_eq_drop [symmetric])

section \<open>The queue keeps its promise\<close>

lemma sorted_insert_split:
  assumes "sorted (map key xs)" and "key x = d"
  shows "sorted (map key (takeWhile (\<lambda>y. key y < d) xs @ x # dropWhile (\<lambda>y. key y < d) xs))"
  using assms
proof (induction xs)
  case (Cons y ys)
  then show ?case
    by (auto dest: set_takeWhileD set_dropWhileD)
qed simp

lemma dq_sorted_empty [simp]: "dq_sorted key dq_empty"
  by (simp add: dq_sorted_def dq_empty_def)

lemma dq_sorted_add: "dq_sorted key q \<Longrightarrow> dq_sorted key (dq_add key x q)"
  using sorted_insert_split[of key "m_items q" x "key x"] by (simp add: dq_sorted_def dq_add_items)

lemma mset_dq_add: "mset (m_items (dq_add key x q)) = add_mset x (mset (m_items q))"
proof -
  have "mset (insert_at i x xs) = add_mset x (mset xs)" for i xs
    unfolding insert_at_def by (metis append_take_drop_id mset.simps(2) mset_append union_mset_add_mset_right)
  then show ?thesis by (simp add: dq_add_def Let_def)
qed

lemma sorted_remove1_map: "sorted (map key xs) \<Longrightarrow> sorted (map key (remove1 x xs))"
proof (induction xs)
  case (Cons y ys)
  then show ?case using set_remove1_subset[of x ys] by auto
qed simp

lemma dq_sorted_remove: "dq_sorted key q \<Longrightarrow> dq_sorted key (dq_remove x q)"
  by (simp add: dq_sorted_def dq_remove_def sorted_remove1_map)

lemma mset_dq_remove: "mset (m_items (dq_remove x q)) = mset (m_items q) - {#x#}"
  by (simp add: dq_remove_def)

section \<open>As insertion sort\<close>

lemma insort_split:
  "insort_key key x xs = takeWhile (\<lambda>y. key y < key x) xs @ x # dropWhile (\<lambda>y. key y < key x) xs"
  by (induction xs) (auto simp: not_le)

text \<open>On a sorted queue the binary search inserts where a linear one does.\<close>

lemma dq_add_insort: "dq_sorted key q \<Longrightarrow> m_items (dq_add key x q) = insort_key key x (m_items q)"
  by (simp add: dq_add_items insort_split)

lemma dq_adds_sorted: "dq_sorted key q \<Longrightarrow> dq_sorted key (fold (dq_add key) xs q)"
  by (induction xs arbitrary: q) (simp_all add: dq_sorted_add)

lemma dq_adds_insort:
  "dq_sorted key q \<Longrightarrow> m_items (fold (dq_add key) xs q) = foldr (insort_key key) (rev xs) (m_items q)"
  by (induction xs arbitrary: q) (simp_all add: dq_sorted_add dq_add_insort)

lemma dq_remove_add:
  assumes "dq_sorted key q" "x \<notin> set (m_items q)"
  shows "dq_remove x (dq_add key x q) = q"
proof -
  have "x \<notin> set (takeWhile (\<lambda>y. key y < key x) (m_items q))" using assms(2) by (auto dest: set_takeWhileD)
  then have "m_items (dq_remove x (dq_add key x q)) = m_items q"
    by (simp add: dq_remove_def dq_add_items[OF assms(1)] remove1_append)
  moreover have "m_stop (dq_remove x (dq_add key x q)) = m_stop q"
    by (simp add: dq_remove_def dq_add_def Let_def)
  ultimately show ?thesis by simp
qed

section \<open>Taking\<close>

text \<open>
  What \<open>take\<close> promises of each element it returns: it was the first one to become due, and the queue
  was not stopped.
\<close>

definition take_now :: "('a \<Rightarrow> int) \<Rightarrow> int \<Rightarrow> 'a delay_queue \<Rightarrow> ('a \<times> 'a delay_queue) option" where
  "take_now key now q = (case dq_take_iter key now q of (Taken x, q') \<Rightarrow> Some (x, q') | _ \<Rightarrow> None)"

text \<open>Taking at one reading of the clock, as long as something is due.\<close>

fun drain :: "(int \<Rightarrow> 'q \<Rightarrow> ('a \<times> 'q) option) \<Rightarrow> nat \<Rightarrow> int \<Rightarrow> 'q \<Rightarrow> 'a list \<times> 'q" where
  "drain pick 0 now q = ([], q)"
| "drain pick (Suc n) now q = (case pick now q of
      None \<Rightarrow> ([], q)
    | Some (x, q') \<Rightarrow> (let (xs, q'') = drain pick n now q' in (x # xs, q'')))"

text \<open>The interface of a queue of things that become due, as its users need it.\<close>

lemma filter_mset_none: "\<forall>y \<in># M. \<not> P y \<Longrightarrow> filter_mset P M = {#}"
  and filter_mset_all: "\<forall>y \<in># M. P y \<Longrightarrow> filter_mset P M = M"
  by (induction M) auto

locale timed_queue =
  fixes items :: "'q \<Rightarrow> 'a multiset" and good :: "'q \<Rightarrow> bool" and key :: "'a \<Rightarrow> int"
    and put :: "'a \<Rightarrow> 'q \<Rightarrow> 'q" and drop_item :: "'a \<Rightarrow> 'q \<Rightarrow> 'q"
    and pick :: "int \<Rightarrow> 'q \<Rightarrow> ('a \<times> 'q) option"
  assumes put: "good q \<Longrightarrow> good (put x q) \<and> items (put x q) = add_mset x (items q)"
    and drop_item: "good q \<Longrightarrow> good (drop_item x q) \<and> items (drop_item x q) = items q - {#x#}"
    and pick_Some: "good q \<Longrightarrow> pick now q = Some (x, q') \<Longrightarrow>
      good q' \<and> items q = add_mset x (items q') \<and> key x \<le> now \<and> (\<forall>y \<in># items q. key x \<le> key y)"
    and pick_None: "good q \<Longrightarrow> pick now q = None \<Longrightarrow> \<forall>y \<in># items q. now < key y"
begin

lemma drain_spec:
  "good q \<Longrightarrow> size (items q) \<le> n \<Longrightarrow> drain pick n now q = (xs, q') \<Longrightarrow>
   good q' \<and> sorted (map key xs) \<and> mset xs = filter_mset (\<lambda>y. key y \<le> now) (items q) \<and>
   items q' = filter_mset (\<lambda>y. now < key y) (items q)"
proof (induction n arbitrary: q xs q')
  case (Suc n)
  show ?case
  proof (cases "pick now q")
    case None
    then have "\<forall>y \<in># items q. now < key y" by (rule pick_None[OF Suc.prems(1)])
    then show ?thesis
      using Suc.prems None by (simp add: filter_mset_none filter_mset_all not_le)
  next
    case (Some p)
    then obtain x q1 where p: "pick now q = Some (x, q1)" by (cases p) simp
    note x = pick_Some[OF Suc.prems(1) p]
    obtain ys where ys: "drain pick n now q1 = (ys, q')" "xs = x # ys"
      using Suc.prems(3) p by (auto split: prod.splits)
    have "size (items q1) \<le> n" using Suc.prems(2) x by simp
    note IH = Suc.IH[OF _ this ys(1)]
    have "set_mset (mset ys) = {y. y \<in># items q1 \<and> key y \<le> now}"
      using IH x by simp
    then have "\<forall>y \<in> set ys. key x \<le> key y" using x by auto
    then show ?thesis using IH x ys(2) by auto
  qed
qed auto

end

interpretation delay_queue: timed_queue "\<lambda>q. mset (m_items q)" "\<lambda>q. dq_sorted key q \<and> \<not> m_stop q" key
  "dq_add key" dq_remove "take_now key" for key
proof
  fix q :: "'a delay_queue" and x
  assume good: "dq_sorted key q \<and> \<not> m_stop q"
  then show "(dq_sorted key (dq_add key x q) \<and> \<not> m_stop (dq_add key x q)) \<and>
      mset (m_items (dq_add key x q)) = add_mset x (mset (m_items q))"
    using mset_dq_add[of key x q] by (auto simp: dq_sorted_add) (simp add: dq_add_def Let_def)
  show "(dq_sorted key (dq_remove x q) \<and> \<not> m_stop (dq_remove x q)) \<and>
      mset (m_items (dq_remove x q)) = mset (m_items q) - {#x#}"
    using good by (auto simp: dq_sorted_remove mset_dq_remove) (simp add: dq_remove_def)
  show "\<forall>y \<in># mset (m_items q). now < key y" if "take_now key now q = None" for now
    using good that by (cases "m_items q") (auto simp: take_now_def dq_sorted_def not_le split: if_splits)
  show "(dq_sorted key q' \<and> \<not> m_stop q') \<and> mset (m_items q) = add_mset y (mset (m_items q')) \<and> key y \<le> now \<and>
      (\<forall>z \<in># mset (m_items q). key y \<le> key z)" if "take_now key now q = Some (y, q')" for now y q'
    using good that by (cases "m_items q") (auto simp: take_now_def dq_sorted_def not_le split: if_splits)
qed

section \<open>Waiting\<close>

text \<open>A wake-up that finds the queue stopped, or its head due, ends \<open>take\<close>.\<close>

lemma dq_take_ends:
  assumes "\<And>q. m_stop (env q) \<or> (\<exists>x xs. m_items (env q) = x # xs \<and> key x \<le> now)"
  shows "\<exists>res. dq_take key (wakes @ (now, env) # later) q = Some res"
proof (induction wakes arbitrary: q)
  case Nil
  then show ?case using assms[of q] by (auto split: list.splits)
next
  case (Cons w wakes)
  then show ?case by (cases w) (auto split: prod.split take_result.split)
qed

lemma dq_take_result:
  assumes "dq_take key wakes q = Some (Some x, q')"
  shows "\<exists>now env q1. (now, env) \<in> set wakes \<and> take_now key now (env q1) = Some (x, q')"
  using assms
proof (induction wakes arbitrary: q)
  case (Cons w wakes)
  obtain now env where w: "w = (now, env)" by (cases w)
  obtain res q1 where it: "dq_take_iter key now (env q) = (res, q1)" by (cases "dq_take_iter key now (env q)")
  show ?case
  proof (cases "res = Taken x \<and> q1 = q'")
    case True
    then have "take_now key now (env q) = Some (x, q')" using it by (simp add: take_now_def)
    then show ?thesis using w by auto
  next
    case False
    then have "dq_take key wakes q1 = Some (Some x, q')"
      using Cons.prems w it by (cases res) (auto simp del: dq_take_iter.simps)
    then show ?thesis using Cons.IH by fastforce
  qed
qed simp

end
