(* ===== verification/Runtime.thy ===== *)
theory Runtime
  imports Events Delay_Queue
begin

text \<open>
  The state the library's methods work on: the runtime data of the states
  (\<open>StateRuntimedata.hpp\<close>), the \<open>Metadata\<close> object that holds them, the queue entries
  (\<open>EventQueueEntry.hpp\<close>), and the part of \<open>Statechart\<close> that changes after the chart
  was built: the timeout queue, the pending entries, the tasks of the worker thread.

  One \<open>Metadata\<close> object is in focus (\<open>rt_md\<close>); \<open>md_id\<close> says which one.  Everything
  outside the library, such as the objects the client's callbacks write to, is the type
  parameter \<open>'e\<close>.  Pointers are kept as identities, so that an access through a pointer to
  a freed object is visible in the model: a \<open>StateRuntimedata\<close> has its address
  \<open>rd_addr\<close>, an entry its number in the order of construction, a \<open>Parameter\<close> a
  \<open>pref\<close>.
\<close>

section \<open>Parameters\<close>

text \<open>
  A \<open>Parameter&\<close>: an object of the client, or one the library made on its own stack
  (\<open>Parameter empty;\<close> in \<open>Statechart::start\<close>, \<open>dispatch\<close> and
  \<open>EventQueueEntry::run\<close>) or on the heap (\<open>make_shared\<close>).
\<close>

datatype pref =
    CallerParam nat
  | LocalParam nat
  | SharedParam nat

section \<open>Runtime data of a state\<close>

text \<open>\<open>struct StateRuntimedata\<close>\<close>

record runtimedata =
  rd_addr :: nat
  currentTime :: int
  rd_active :: bool
  currentState :: "sid option"
  stateset :: "sid list"
  timeoutEvents :: "eid list"

text \<open>A new object: the default member initialisers.\<close>

definition new_runtimedata :: "nat \<Rightarrow> runtimedata" where
  "new_runtimedata a = \<lparr>rd_addr = a, currentTime = 0, rd_active = False, currentState = None,
     stateset = [], timeoutEvents = []\<rparr>"

section \<open>Metadata\<close>

text \<open>
  \<open>class Metadata\<close>.  Observers see only the state's pointer, so they act on the outside
  world.  \<open>md_next\<close> numbers the allocations of runtime data.
\<close>

record 'e metadata =
  md_id :: nat
  md_statechart :: "sid option"
  activeStates :: "(sid \<times> runtimedata) list"
  md_next :: nat
  activateObservers :: "(sid \<Rightarrow> 'e \<Rightarrow> 'e) list"
  deactivateObservers :: "(sid \<Rightarrow> 'e \<Rightarrow> 'e) list"

definition new_metadata :: "nat \<Rightarrow> 'e metadata" where
  "new_metadata i = \<lparr>md_id = i, md_statechart = None, activeStates = [], md_next = 0,
     activateObservers = [], deactivateObservers = []\<rparr>"

section \<open>Queue entries and the statechart's queues\<close>

text \<open>
  \<open>class EventQueueEntry\<close>.  \<open>e_param\<close> is \<open>None\<close> for a null \<open>shared_ptr\<close>;
  \<open>e_id\<close> comes from the 64-bit counter.
\<close>

record entry =
  e_state :: sid
  e_data :: nat
  e_event :: "event option"
  e_param :: "pref option"
  relativeTimeoutMs :: int
  e_deadline :: int
  e_id :: "64 word"
  e_invalid :: bool

text \<open>
  \<open>entries\<close> is the heap of all entries constructed so far, oldest first; the entry \<open>e\<close>
  is at position \<open>e\<close>.  An entry is alive while a \<open>shared_ptr\<close> to it is left: in
  \<open>m_pendingEntries\<close>, in \<open>m_timeoutQueue\<close>, in a task of the thread pool, or in a local
  variable of a thread (\<open>held\<close>).  \<open>locals\<close> are the library's own parameters that are
  alive, \<open>next_param\<close> numbers them.  \<open>clock\<close> is what \<open>steady_clock::now()\<close> returns,
  in milliseconds.
\<close>

record service =
  clock :: int
  entries :: "entry list"
  idCounter :: "64 word"
  pendingEntries :: "eid list"
  timeoutQueue :: "eid delay_queue"
  tasks :: "eid list"
  pool_shutdown :: bool
  running :: bool
  held :: "eid list"
  locals :: "pref list"
  next_param :: nat

definition new_service :: "int \<Rightarrow> service" where
  "new_service now = \<lparr>clock = now, entries = [], idCounter = 1, pendingEntries = [],
     timeoutQueue = dq_empty, tasks = [], pool_shutdown = False, running = True, held = [],
     locals = [], next_param = 0\<rparr>"

definition entry_alive :: "service \<Rightarrow> eid \<Rightarrow> bool" where
  "entry_alive sv e \<longleftrightarrow>
     e \<in> set (pendingEntries sv) \<or> e \<in> set (m_items (timeoutQueue sv)) \<or>
     e \<in> set (tasks sv) \<or> e \<in> set (held sv)"

text \<open>
  Parameters of the client are the client's business.  A parameter on the library's stack is alive
  while its block runs; one made by \<open>make_shared\<close> lives as long as an entry of
  \<open>dispatchAsynchron\<close> (whose state is the statechart) that owns it.
\<close>

definition param_alive :: "service \<Rightarrow> pref \<Rightarrow> bool" where
  "param_alive sv p =
     (case p of
        CallerParam _ \<Rightarrow> True
      | LocalParam _ \<Rightarrow> p \<in> set (locals sv)
      | SharedParam _ \<Rightarrow>
          list_ex (\<lambda>e. entry_alive sv e \<and> e_state (entries sv ! e) = 0 \<and> e_param (entries sv ! e) = Some p)
            [0..<length (entries sv)])"

definition deadline :: "service \<Rightarrow> eid \<Rightarrow> int" where
  "deadline sv e = e_deadline (entries sv ! e)"

section \<open>The whole state\<close>

record 'e rt =
  rt_md :: "'e metadata"
  rt_env :: 'e
  rt_sv :: service

definition new_rt :: "'e \<Rightarrow> int \<Rightarrow> 'e rt" where
  "new_rt env now = \<lparr>rt_md = new_metadata 0, rt_env = env, rt_sv = new_service now\<rparr>"

definition upd_sv :: "(service \<Rightarrow> service) \<Rightarrow> 'e rt \<Rightarrow> 'e rt" where
  "upd_sv f r = r\<lparr>rt_sv := f (rt_sv r)\<rparr>"

definition upd_md :: "('e metadata \<Rightarrow> 'e metadata) \<Rightarrow> 'e rt \<Rightarrow> 'e rt" where
  "upd_md f r = r\<lparr>rt_md := f (rt_md r)\<rparr>"

text \<open>The client's callbacks.\<close>

type_synonym 'e action = "pref \<Rightarrow> (unit, 'e rt) prog"
type_synonym 'e guard = "pref \<Rightarrow> 'e rt \<Rightarrow> bool"

section \<open>Reading and writing the runtime data\<close>

text \<open>\<open>Metadata::getData\<close>\<close>

definition getData :: "'e rt \<Rightarrow> sid \<Rightarrow> runtimedata option" where
  "getData r s = map_of (activeStates (rt_md r)) s"

text \<open>\<open>Metadata::isActive(State*)\<close>\<close>

definition isActive :: "'e rt \<Rightarrow> sid \<Rightarrow> bool" where
  "isActive r s = (case getData r s of None \<Rightarrow> False | Some d \<Rightarrow> rd_active d)"

definition putData :: "sid \<Rightarrow> runtimedata \<Rightarrow> 'e rt \<Rightarrow> 'e rt" where
  "putData s d = upd_md (\<lambda>m. m\<lparr>activeStates := AList.update s d (activeStates m)\<rparr>)"

definition eraseData :: "sid \<Rightarrow> 'e rt \<Rightarrow> 'e rt" where
  "eraseData s = upd_md (\<lambda>m. m\<lparr>activeStates := AList.delete s (activeStates m)\<rparr>)"

text \<open>A write through a pointer into the runtime data of a state, if there is any.\<close>

definition updData :: "sid \<Rightarrow> (runtimedata \<Rightarrow> runtimedata) \<Rightarrow> 'e rt \<Rightarrow> 'e rt" where
  "updData s f r = (case getData r s of None \<Rightarrow> r | Some d \<Rightarrow> putData s (f d) r)"

text \<open>
  \<open>Metadata::createRuntimedata\<close>: the existing object, or a new one.
\<close>

definition createRuntimedata :: "sid \<Rightarrow> 'e rt \<Rightarrow> 'e rt" where
  "createRuntimedata s r =
     (case getData r s of
        Some _ \<Rightarrow> r
      | None \<Rightarrow> upd_md (\<lambda>m. m\<lparr>md_next := Suc (md_next m)\<rparr>)
                  (putData s (new_runtimedata (md_next (rt_md r))) r))"

text \<open>The runtime data at address \<open>a\<close> is still that of the state.\<close>

definition data_valid :: "sid \<Rightarrow> nat \<Rightarrow> 'e rt \<Rightarrow> bool" where
  "data_valid s a r = (case getData r s of None \<Rightarrow> False | Some d \<Rightarrow> rd_addr d = a)"

section \<open>The laws of the runtime-data store\<close>

lemma upd_md_simps [simp]:
  "rt_md (upd_md f r) = f (rt_md r)" "rt_env (upd_md f r) = rt_env r" "rt_sv (upd_md f r) = rt_sv r"
  by (simp_all add: upd_md_def)

lemma upd_sv_simps [simp]:
  "rt_md (upd_sv g r) = rt_md r" "rt_env (upd_sv g r) = rt_env r" "rt_sv (upd_sv g r) = g (rt_sv r)"
  by (simp_all add: upd_sv_def)

lemma putData_frame [simp]:
  "rt_env (putData s d r) = rt_env r" "rt_sv (putData s d r) = rt_sv r"
  by (simp_all add: putData_def)

lemma eraseData_frame [simp]:
  "rt_env (eraseData s r) = rt_env r" "rt_sv (eraseData s r) = rt_sv r"
  by (simp_all add: eraseData_def)

lemma updData_frame [simp]:
  "rt_env (updData s f r) = rt_env r" "rt_sv (updData s f r) = rt_sv r"
  by (simp_all add: updData_def split: option.split)

lemma createRuntimedata_frame [simp]:
  "rt_env (createRuntimedata s r) = rt_env r" "rt_sv (createRuntimedata s r) = rt_sv r"
  by (simp_all add: createRuntimedata_def split: option.split)

lemma getData_upd_sv [simp]: "getData (upd_sv g r) s = getData r s"
  by (simp add: getData_def)

lemma isActive_upd_sv [simp]: "isActive (upd_sv g r) s = isActive r s"
  by (simp add: isActive_def)

lemma getData_env [simp]: "getData (r\<lparr>rt_env := x\<rparr>) s = getData r s"
  by (simp add: getData_def)

lemma isActive_env [simp]: "isActive (r\<lparr>rt_env := x\<rparr>) s = isActive r s"
  by (simp add: isActive_def)

lemma getData_put [simp]:
  "getData (putData s d r) t = (if t = s then Some d else getData r t)"
  by (simp add: getData_def putData_def)

lemma getData_erase [simp]:
  "getData (eraseData s r) t = (if t = s then None else getData r t)"
  by (simp add: getData_def eraseData_def)

lemma getData_updData [simp]:
  "getData (updData s f r) t = (if t = s then map_option f (getData r s) else getData r t)"
  by (simp add: updData_def split: option.split)

lemma getData_create [simp]:
  "getData (createRuntimedata s r) t =
     (if t = s then Some (case getData r s of Some d \<Rightarrow> d
        | None \<Rightarrow> new_runtimedata (md_next (rt_md r)))
      else getData r t)"
proof (cases "getData r s")
  case None
  then show ?thesis
    by (simp add: createRuntimedata_def) (simp add: getData_def putData_def)
qed (simp add: createRuntimedata_def)

lemma isActive_iff: "isActive r s \<longleftrightarrow> (\<exists>d. getData r s = Some d \<and> rd_active d)"
  by (simp add: isActive_def split: option.split)

lemma md_fields_put [simp]:
  "md_id (rt_md (putData s d r)) = md_id (rt_md r)"
  "md_next (rt_md (putData s d r)) = md_next (rt_md r)"
  "md_statechart (rt_md (putData s d r)) = md_statechart (rt_md r)"
  "activateObservers (rt_md (putData s d r)) = activateObservers (rt_md r)"
  "deactivateObservers (rt_md (putData s d r)) = deactivateObservers (rt_md r)"
  by (simp_all add: putData_def)

lemma md_fields_erase [simp]:
  "md_id (rt_md (eraseData s r)) = md_id (rt_md r)"
  "md_next (rt_md (eraseData s r)) = md_next (rt_md r)"
  "md_statechart (rt_md (eraseData s r)) = md_statechart (rt_md r)"
  "activateObservers (rt_md (eraseData s r)) = activateObservers (rt_md r)"
  "deactivateObservers (rt_md (eraseData s r)) = deactivateObservers (rt_md r)"
  by (simp_all add: eraseData_def)

lemma md_fields_upd [simp]:
  "md_id (rt_md (updData s f r)) = md_id (rt_md r)"
  "md_next (rt_md (updData s f r)) = md_next (rt_md r)"
  "md_statechart (rt_md (updData s f r)) = md_statechart (rt_md r)"
  "activateObservers (rt_md (updData s f r)) = activateObservers (rt_md r)"
  "deactivateObservers (rt_md (updData s f r)) = deactivateObservers (rt_md r)"
  by (simp_all add: updData_def split: option.split)

lemma md_fields_create [simp]:
  "md_id (rt_md (createRuntimedata s r)) = md_id (rt_md r)"
  "md_statechart (rt_md (createRuntimedata s r)) = md_statechart (rt_md r)"
  "activateObservers (rt_md (createRuntimedata s r)) = activateObservers (rt_md r)"
  "deactivateObservers (rt_md (createRuntimedata s r)) = deactivateObservers (rt_md r)"
  by (simp_all add: createRuntimedata_def split: option.split)

lemma md_next_create:
  "md_next (rt_md (createRuntimedata s r)) =
     (if getData r s = None then Suc (md_next (rt_md r)) else md_next (rt_md r))"
  by (simp add: createRuntimedata_def split: option.split)

lemmas store_defs = getData_def isActive_def putData_def eraseData_def updData_def
  createRuntimedata_def upd_md_def upd_sv_def data_valid_def

end
