(* ===== verification/Chart.thy ===== *)
theory Chart
  imports Runtime
begin

text \<open>
  The static structure of a statechart and the operations that build it: the state classes
  (\<open>State\<close>, \<open>FinalState\<close>, \<open>PseudoState\<close>, \<open>Condition\<close>, \<open>HierarchicalState\<close>,
  \<open>ConcurrentState\<close>), \<open>Transition\<close>, \<open>InternalTransition\<close> and the factory methods of
  \<open>Statechart\<close>.  The arenas are lists: a \<open>State*\<close> is an index into the states (index 0 is
  the statechart, which is a state itself), a \<open>Transition*\<close> an index into the transitions.
  The pointers the objects hold to each other are these indices.
\<close>

section \<open>Objects\<close>

text \<open>\<open>enum class PseudoStateType\<close>\<close>

datatype pseudo_type = Start | Junction | Fork | Join | History | DeepHistory

text \<open>
  The class of a state object, which is what \<open>dynamic_cast\<close> looks at.  \<open>Condition\<close> is a
  \<open>PseudoState\<close> of type \<open>Junction\<close> that overrides nothing, so it has no case of its own.
\<close>

datatype kind =
    Simple
  | Final
  | Pseudo pseudo_type
  | Hierarchical
  | Concurrent
  | Chart

text \<open>\<open>dynamic_cast<PseudoState*>\<close> and \<open>dynamic_cast<Context*>\<close>\<close>

fun is_pseudo :: "kind \<Rightarrow> bool" where
  "is_pseudo (Pseudo _) = True"
| "is_pseudo _ = False"

fun is_context :: "kind \<Rightarrow> bool" where
  "is_context Hierarchical = True"
| "is_context Concurrent = True"
| "is_context Chart = True"
| "is_context _ = False"

text \<open>The two pseudo-states with a memory.\<close>

fun is_history :: "kind \<Rightarrow> bool" where
  "is_history (Pseudo History) = True"
| "is_history (Pseudo DeepHistory) = True"
| "is_history _ = False"

text \<open>
  A state object with the members of all its base classes: those of \<open>State\<close>, then
  \<open>Context::m_startState\<close>, \<open>HierarchicalState::m_history\<close>,
  \<open>ConcurrentState::m_regions\<close> and \<open>PseudoState::m_incoming\<close>, which stay empty in objects
  of the other classes.
\<close>

record 'e state_obj =
  st_kind :: kind
  st_name :: string
  st_context :: "sid option"
  st_statechart :: "sid option"
  entryAction :: "'e action option"
  doAction :: "'e action option"
  exitAction :: "'e action option"
  transitions :: "tid list"
  startState :: "sid option"
  history :: "sid option"
  regions :: "sid list"
  incoming :: "tid list"

text \<open>
  \<open>class Transition\<close>; \<open>tr_internal\<close> marks objects of the class \<open>InternalTransition\<close>.
  An empty \<open>std::function\<close> is \<open>None\<close>.
\<close>

record 'e trans =
  tr_internal :: bool
  tr_event :: "event option"
  tr_guard :: "'e guard option"
  tr_action :: "'e action option"
  tr_deactivate :: "sid list"
  tr_activate :: "sid list"

text \<open>
  The part of \<open>class Statechart\<close> that only the building operations change.  \<open>user_equals\<close> is
  the \<open>equals\<close> of the client's event classes.
\<close>

record 'e chart =
  ownedStates :: "'e state_obj list"
  ownedTransitions :: "'e trans list"
  ownedEvents :: "event list"
  stateNames :: "(string \<times> sid) list"
  loopThreshold :: nat
  user_equals :: "nat \<Rightarrow> event option \<Rightarrow> pref \<Rightarrow> 'e rt \<Rightarrow> bool"

abbreviation obj :: "'e chart \<Rightarrow> sid \<Rightarrow> 'e state_obj" where
  "obj ch s \<equiv> ownedStates ch ! s"

abbreviation trans :: "'e chart \<Rightarrow> tid \<Rightarrow> 'e trans" where
  "trans ch t \<equiv> ownedTransitions ch ! t"

abbreviation kind_of :: "'e chart \<Rightarrow> sid \<Rightarrow> kind" where
  "kind_of ch s \<equiv> st_kind (obj ch s)"

abbreviation parent_of :: "'e chart \<Rightarrow> sid \<Rightarrow> sid option" where
  "parent_of ch s \<equiv> st_context (obj ch s)"

abbreviation n_states :: "'e chart \<Rightarrow> nat" where
  "n_states ch \<equiv> length (ownedStates ch)"

definition upd_obj :: "sid \<Rightarrow> ('e state_obj \<Rightarrow> 'e state_obj) \<Rightarrow> 'e chart \<Rightarrow> 'e chart" where
  "upd_obj s f ch = ch\<lparr>ownedStates := (ownedStates ch)[s := f (obj ch s)]\<rparr>"

section \<open>The constructors of the states\<close>

text \<open>\<open>State::State\<close>, with the class of the object under construction; \<open>Context\<close> adds nothing.\<close>

definition new_state ::
  "kind \<Rightarrow> string \<Rightarrow> sid option \<Rightarrow> sid option \<Rightarrow> 'e action option \<Rightarrow> 'e action option \<Rightarrow>
   'e action option \<Rightarrow> 'e state_obj"
where
  "new_state k nm parent chart entry doA exit =
     \<lparr>st_kind = k, st_name = nm, st_context = parent, st_statechart = chart,
      entryAction = entry, doAction = doA, exitAction = exit, transitions = [],
      startState = None, history = None, regions = [], incoming = []\<rparr>"

text \<open>\<open>Statechart::Statechart\<close>: the chart is its own root.\<close>

definition new_chart ::
  "string \<Rightarrow> (nat \<Rightarrow> event option \<Rightarrow> pref \<Rightarrow> 'e rt \<Rightarrow> bool) \<Rightarrow> 'e chart"
where
  "new_chart nm ueq =
     \<lparr>ownedStates = [new_state Chart nm None (Some 0) None None None],
      ownedTransitions = [], ownedEvents = [], stateNames = [], loopThreshold = 1000,
      user_equals = ueq\<rparr>"

text \<open>The object is allocated; its pointer is the next index.\<close>

definition push_state :: "'e state_obj \<Rightarrow> 'e chart \<Rightarrow> 'e chart" where
  "push_state ob ch = ch\<lparr>ownedStates := ownedStates ch @ [ob]\<rparr>"

text \<open>\<open>ConcurrentState::addRegion\<close>\<close>

definition addRegion :: "sid \<Rightarrow> sid option \<Rightarrow> 'e chart \<Rightarrow> 'e chart" where
  "addRegion c region ch =
     (case region of
        None \<Rightarrow> ch
      | Some h \<Rightarrow> upd_obj c (\<lambda>ob. ob\<lparr>regions := regions ob @ [h]\<rparr>) ch)"

text \<open>\<open>HierarchicalState::HierarchicalState\<close>: register as a region of a concurrent parent.\<close>

definition construct_hierarchical ::
  "string \<Rightarrow> sid option \<Rightarrow> 'e action option \<Rightarrow> 'e action option \<Rightarrow> 'e action option \<Rightarrow>
   'e chart \<Rightarrow> 'e chart"
where
  "construct_hierarchical nm parent entry doA exit ch =
     (let this = n_states ch;
          ch1 = push_state (new_state Hierarchical nm parent (Some 0) entry doA exit) ch
      in case parent of
           None \<Rightarrow> ch1
         | Some p \<Rightarrow> if kind_of ch p = Concurrent then addRegion p (Some this) ch1 else ch1)"

text \<open>\<open>PseudoState::PseudoState\<close>: start and history states register with their parent.\<close>

definition construct_pseudo ::
  "string \<Rightarrow> sid option \<Rightarrow> pseudo_type \<Rightarrow> 'e chart \<Rightarrow> exn + 'e chart"
where
  "construct_pseudo nm parent ty ch =
     (let this = n_states ch;
          ch1 = push_state (new_state (Pseudo ty) nm parent (Some 0) None None None) ch
      in case parent of
           None \<Rightarrow> Inl (StatechartException ''PseudoState requires a non-null parent context'')
         | Some p \<Rightarrow>
             if ty = Start then
               (if startState (obj ch p) = None
                then Inr (upd_obj p (\<lambda>ob. ob\<lparr>startState := Some this\<rparr>) ch1)
                else Inl (StatechartException ''Parent has already a start state!''))
             else if ty = History \<or> ty = DeepHistory then
               (if kind_of ch p = Hierarchical then
                  (if history (obj ch p) = None
                   then Inr (upd_obj p (\<lambda>ob. ob\<lparr>history := Some this\<rparr>) ch1)
                   else Inl (StatechartException ''Parent has already a history state!''))
                else Inl (StatechartException ''Parent is not hierarchical state!''))
             else Inr ch1)"

section \<open>Transitions\<close>

text \<open>
  The upward walk of \<open>calculateStateSet\<close>: from a state to the outermost state below the
  statechart, each state put in front of the list.  The first argument bounds the number of
  steps; the number of states is enough, since every parent was created before its children
  (lemma \<open>walk_up_enough\<close> in theory \<open>Structure\<close>).
\<close>

primrec walk_up :: "nat \<Rightarrow> 'e chart \<Rightarrow> sid option \<Rightarrow> sid list \<Rightarrow> sid list" where
  "walk_up 0 ch s acc = acc"
| "walk_up (Suc n) ch s acc =
     (case s of
        None \<Rightarrow> acc
      | Some x \<Rightarrow>
          walk_up n ch
            (case parent_of ch x of
               None \<Rightarrow> None
             | Some c \<Rightarrow> if kind_of ch c = Chart then None else Some c)
            (x # acc))"

definition path_to :: "'e chart \<Rightarrow> sid option \<Rightarrow> sid list" where
  "path_to ch s = walk_up (n_states ch) ch s []"

text \<open>\<open>for (lca = 0; lca < minSize; ++lca) if (activate[lca] != deactivate[lca]) break;\<close>\<close>

function lca_loop :: "nat \<Rightarrow> nat \<Rightarrow> sid list \<Rightarrow> sid list \<Rightarrow> nat" where
  "lca_loop i minSize act deact =
     (if i < minSize then
        (if act ! i \<noteq> deact ! i then i else lca_loop (i + 1) minSize act deact)
      else i)"
  by pat_completeness auto
termination
  by (relation "measure (\<lambda>(i, m, _, _). m - i)") auto

declare lca_loop.simps [simp del]

text \<open>\<open>Transition::calculateStateSet\<close>: the states to deactivate and the states to activate.\<close>

definition calculateStateSet ::
  "'e chart \<Rightarrow> sid option \<Rightarrow> sid option \<Rightarrow> sid list \<times> sid list"
where
  "calculateStateSet ch source target =
     (let deact = path_to ch source;
          act = path_to ch target;
          minSize = (if length act < length deact then length act else length deact);
          lca = (if source \<noteq> target then lca_loop 0 minSize act deact
                 else if minSize = 0 then 0 else minSize - 1)
      in (rev (drop lca deact), drop lca act))"

text \<open>\<open>State::addTransition\<close>: a guarded transition goes to the front, any other to the back.\<close>

definition addTransition :: "sid \<Rightarrow> tid option \<Rightarrow> 'e chart \<Rightarrow> 'e chart" where
  "addTransition s tr ch =
     (case tr of
        None \<Rightarrow> ch
      | Some t \<Rightarrow>
          if tr_guard (trans ch t) \<noteq> None
          then upd_obj s (\<lambda>ob. ob\<lparr>transitions := t # transitions ob\<rparr>) ch
          else upd_obj s (\<lambda>ob. ob\<lparr>transitions := transitions ob @ [t]\<rparr>) ch)"

text \<open>\<open>PseudoState::addIncomingTransition\<close>\<close>

definition addIncomingTransition :: "sid \<Rightarrow> tid option \<Rightarrow> 'e chart \<Rightarrow> 'e chart" where
  "addIncomingTransition s tr ch =
     (case tr of
        None \<Rightarrow> ch
      | Some t \<Rightarrow> upd_obj s (\<lambda>ob. ob\<lparr>incoming := incoming ob @ [t]\<rparr>) ch)"

text \<open>
  \<open>Statechart::createTransition\<close> with the constructors of \<open>Transition\<close> and
  \<open>Transition::init\<close>.  The eight constructors differ only in which of event, guard and action
  they set.  The result is the chart and the pointer to the new transition.
\<close>

definition createTransition ::
  "sid option \<Rightarrow> sid option \<Rightarrow> event option \<Rightarrow> 'e guard option \<Rightarrow> 'e action option \<Rightarrow>
   'e chart \<Rightarrow> 'e chart \<times> tid"
where
  "createTransition source target ev guard act ch =
     (let this = length (ownedTransitions ch);
          sets = calculateStateSet ch source target;
          ch1 = ch\<lparr>ownedTransitions := ownedTransitions ch @
                   [\<lparr>tr_internal = False, tr_event = ev, tr_guard = guard, tr_action = act,
                     tr_deactivate = fst sets, tr_activate = snd sets\<rparr>]\<rparr>;
          ch2 = (case source of None \<Rightarrow> ch1 | Some s \<Rightarrow> addTransition s (Some this) ch1);
          ch3 = (case target of
                   None \<Rightarrow> ch2
                 | Some e \<Rightarrow> if kind_of ch e = Pseudo Join
                             then addIncomingTransition e (Some this) ch2 else ch2)
      in (ch3, this))"

text \<open>
  \<open>Statechart::createInternalTransition\<close> with the constructors of \<open>InternalTransition\<close>: the
  base class's constructor from the state to itself, then both lists are cleared.
\<close>

definition createInternalTransition ::
  "sid option \<Rightarrow> event option \<Rightarrow> 'e guard option \<Rightarrow> 'e action option \<Rightarrow> 'e chart \<Rightarrow> 'e chart \<times> tid"
where
  "createInternalTransition s ev guard act ch =
     (case createTransition s s ev guard act ch of (ch1, t) \<Rightarrow>
       (ch1\<lparr>ownedTransitions := (ownedTransitions ch1)
           [t := (trans ch1 t)\<lparr>tr_internal := True, tr_deactivate := [], tr_activate := []\<rparr>]\<rparr>, t))"

text \<open>\<open>Statechart::createEvent\<close>: the chart owns the event.\<close>

definition createEvent :: "event \<Rightarrow> 'e chart \<Rightarrow> 'e chart \<times> event" where
  "createEvent ev ch = (ch\<lparr>ownedEvents := ownedEvents ch @ [ev]\<rparr>, ev)"

text \<open>\<open>Condition::Condition\<close>: a junction with a guarded and a default transition.\<close>

definition construct_condition ::
  "string \<Rightarrow> sid option \<Rightarrow> 'e guard option \<Rightarrow> sid option \<Rightarrow> sid option \<Rightarrow> 'e chart \<Rightarrow> exn + 'e chart"
where
  "construct_condition nm parent guard whenTrue otherwise ch =
     (case construct_pseudo nm parent Junction ch of
        Inl e \<Rightarrow> Inl e
      | Inr ch1 \<Rightarrow>
          (let this = n_states ch;
               ch2 = fst (createTransition (Some this) whenTrue None guard None ch1)
           in Inr (fst (createTransition (Some this) otherwise None None None ch2))))"

section \<open>The factory\<close>

text \<open>What \<open>create<T>(name, parent, args...)\<close> is instantiated with.\<close>

datatype 'e ctor =
    CState "'e action option" "'e action option" "'e action option"
  | CFinal
  | CPseudo pseudo_type
  | CCondition "'e guard option" "sid option" "sid option"
  | CHierarchical "'e action option" "'e action option" "'e action option"
  | CConcurrent "'e action option" "'e action option" "'e action option"

fun construct :: "'e ctor \<Rightarrow> string \<Rightarrow> sid option \<Rightarrow> 'e chart \<Rightarrow> exn + 'e chart" where
  "construct (CState en d ex) nm parent ch =
     Inr (push_state (new_state Simple nm parent (Some 0) en d ex) ch)"
| "construct CFinal nm parent ch =
     Inr (push_state (new_state Final nm parent (Some 0) None None None) ch)"
| "construct (CPseudo ty) nm parent ch = construct_pseudo nm parent ty ch"
| "construct (CCondition g t e) nm parent ch = construct_condition nm parent g t e ch"
| "construct (CHierarchical en d ex) nm parent ch =
     Inr (construct_hierarchical nm parent en d ex ch)"
| "construct (CConcurrent en d ex) nm parent ch =
     Inr (push_state (new_state Concurrent nm parent (Some 0) en d ex) ch)"

text \<open>\<open>Statechart::create\<close>\<close>

definition create ::
  "string \<Rightarrow> sid option \<Rightarrow> 'e ctor \<Rightarrow> 'e chart \<Rightarrow> exn + ('e chart \<times> sid)"
where
  "create nm parent c ch =
     (if nm = [] then Inl (StatechartException ''Parameter name cannot be null'')
      else if parent = None then Inl (StatechartException ''Parameter parent cannot be null'')
      else if map_of (stateNames ch) nm \<noteq> None then
        Inl (StatechartException
          (''State name <'' @ nm @ ''> already used! Please define a unique name.''))
      else case construct c nm parent ch of
          Inl e \<Rightarrow> Inl e
        | Inr ch1 \<Rightarrow>
            Inr (ch1\<lparr>stateNames := AList.update nm (n_states ch) (stateNames ch1)\<rparr>, n_states ch))"

text \<open>\<open>Statechart::getStateByName\<close>\<close>

definition getStateByName :: "'e chart \<Rightarrow> string \<Rightarrow> exn + sid" where
  "getStateByName ch nm =
     (case map_of (stateNames ch) nm of
        None \<Rightarrow> Inl (StatechartException (''Could not find state <'' @ nm @ ''>.''))
      | Some s \<Rightarrow> Inr s)"

text \<open>The setters of \<open>State\<close> and \<open>Statechart::setInfiniteLoopThreshold\<close>.\<close>

definition setEntryAction :: "sid \<Rightarrow> 'e action option \<Rightarrow> 'e chart \<Rightarrow> 'e chart" where
  "setEntryAction s a = upd_obj s (\<lambda>ob. ob\<lparr>entryAction := a\<rparr>)"

definition setDoAction :: "sid \<Rightarrow> 'e action option \<Rightarrow> 'e chart \<Rightarrow> 'e chart" where
  "setDoAction s a = upd_obj s (\<lambda>ob. ob\<lparr>doAction := a\<rparr>)"

definition setExitAction :: "sid \<Rightarrow> 'e action option \<Rightarrow> 'e chart \<Rightarrow> 'e chart" where
  "setExitAction s a = upd_obj s (\<lambda>ob. ob\<lparr>exitAction := a\<rparr>)"

definition setName :: "sid \<Rightarrow> string \<Rightarrow> 'e chart \<Rightarrow> 'e chart" where
  "setName s nm = upd_obj s (\<lambda>ob. ob\<lparr>st_name := nm\<rparr>)"

definition setInfiniteLoopThreshold :: "nat \<Rightarrow> 'e chart \<Rightarrow> 'e chart" where
  "setInfiniteLoopThreshold n ch = ch\<lparr>loopThreshold := (if n = 0 then 1 else n)\<rparr>"

end
