(* ===== verification/Metadata.thy ===== *)
theory Metadata
  imports Chart
begin

text \<open>
  The operations of \<open>class Metadata\<close> (\<open>Metadata.cpp\<close>) and the timer part of
  \<open>class Statechart\<close> (\<open>enqueueTimeout\<close>, \<open>cancelTimeout\<close> in \<open>Statechart.cpp\<close>, and the
  constructor and \<open>markInvalid\<close> of \<open>EventQueueEntry\<close>): what the methods of the states call.
\<close>

section \<open>Observers\<close>

definition addActivateObserver :: "(sid \<Rightarrow> 'e \<Rightarrow> 'e) option \<Rightarrow> 'e rt \<Rightarrow> 'e rt" where
  "addActivateObserver ob r =
     (case ob of None \<Rightarrow> r
      | Some f \<Rightarrow> upd_md (\<lambda>m. m\<lparr>activateObservers := activateObservers m @ [f]\<rparr>) r)"

definition addDeactivateObserver :: "(sid \<Rightarrow> 'e \<Rightarrow> 'e) option \<Rightarrow> 'e rt \<Rightarrow> 'e rt" where
  "addDeactivateObserver ob r =
     (case ob of None \<Rightarrow> r
      | Some f \<Rightarrow> upd_md (\<lambda>m. m\<lparr>deactivateObservers := deactivateObservers m @ [f]\<rparr>) r)"

definition notifyActivate :: "sid \<Rightarrow> 'e rt \<Rightarrow> 'e rt" where
  "notifyActivate s r =
     r\<lparr>rt_env := fold (\<lambda>f. f s) (activateObservers (rt_md r)) (rt_env r)\<rparr>"

definition notifyDeactivate :: "sid \<Rightarrow> 'e rt \<Rightarrow> 'e rt" where
  "notifyDeactivate s r =
     r\<lparr>rt_env := fold (\<lambda>f. f s) (deactivateObservers (rt_md r)) (rt_env r)\<rparr>"

section \<open>Activation and deactivation of the runtime data\<close>

text \<open>
  \<open>Metadata::activate\<close>: the chart is remembered, the state gets runtime data (a new object
  unless it has some), becomes active now with no substate, becomes the current state of its
  parent if that has runtime data, and the observers are told.
\<close>

definition activateData :: "'e chart \<Rightarrow> sid \<Rightarrow> 'e rt \<Rightarrow> 'e rt" where
  "activateData ch s r =
     (let r1 = (if kind_of ch s = Chart then upd_md (\<lambda>m. m\<lparr>md_statechart := Some s\<rparr>) r else r);
          r2 = createRuntimedata s r1;
          r3 = updData s (\<lambda>d. d\<lparr>rd_active := True, currentTime := clock (rt_sv r2),
                                currentState := None\<rparr>) r2;
          r4 = (case parent_of ch s of
                  None \<Rightarrow> r3
                | Some p \<Rightarrow> updData p (\<lambda>d. d\<lparr>currentState := Some s\<rparr>) r3)
      in notifyActivate s r4)"

text \<open>
  \<open>Metadata::deactivate\<close>: a history state keeps its runtime data and is only marked inactive;
  the data of any other state is freed and the observers are told.
\<close>

definition deactivateData :: "'e chart \<Rightarrow> sid \<Rightarrow> 'e rt \<Rightarrow> 'e rt" where
  "deactivateData ch s r =
     (case getData r s of
        None \<Rightarrow> r
      | Some d \<Rightarrow>
          if is_history (kind_of ch s) then updData s (\<lambda>d. d\<lparr>rd_active := False\<rparr>) r
          else notifyDeactivate s (eraseData s r))"

text \<open>\<open>Metadata::reset\<close>\<close>

definition resetData :: "'e rt \<Rightarrow> 'e rt" where
  "resetData = upd_md (\<lambda>m. m\<lparr>activeStates := [], md_statechart := None\<rparr>)"

section \<open>Queries\<close>

text \<open>\<open>Metadata::getActiveStates\<close>: the states that have runtime data.\<close>

definition getActiveStates :: "'e rt \<Rightarrow> sid set" where
  "getActiveStates r = set (map fst (activeStates (rt_md r)))"

text \<open>\<open>Metadata::isRunning\<close>\<close>

definition isRunning :: "'e chart \<Rightarrow> 'e rt \<Rightarrow> bool" where
  "isRunning ch r =
     fold (\<lambda>(s, d) run.
        if kind_of ch s = Chart then run
        else if is_pseudo (kind_of ch s) then run
        else run \<and> kind_of ch s \<noteq> Final) (activeStates (rt_md r)) True"

text \<open>\<open>Metadata::isActive(const std::string&)\<close>\<close>

definition isActiveName :: "'e chart \<Rightarrow> string \<Rightarrow> 'e rt \<Rightarrow> exn + bool" where
  "isActiveName ch nm r =
     (case md_statechart (rt_md r) of
        None \<Rightarrow> Inl (StatechartException ''Cannot resolve state name without an active Statechart'')
      | Some _ \<Rightarrow> (case getStateByName ch nm of
            Inl e \<Rightarrow> Inl e
          | Inr s \<Rightarrow> Inr (isActive r s)))"

section \<open>Timer entries\<close>

text \<open>
  \<open>EventQueueEntry::EventQueueEntry\<close>, allocated by \<open>make_shared\<close>: the next number, the
  deadline relative to now, valid.
\<close>

definition new_entry ::
  "sid \<Rightarrow> nat \<Rightarrow> event option \<Rightarrow> pref option \<Rightarrow> int \<Rightarrow> service \<Rightarrow> eid \<times> service"
where
  "new_entry s md ev p ms sv =
     (length (entries sv),
      sv\<lparr>entries := entries sv @
           [\<lparr>e_state = s, e_data = md, e_event = ev, e_param = p, relativeTimeoutMs = ms,
             e_deadline = clock sv + ms, e_id = idCounter sv, e_invalid = False\<rparr>],
         idCounter := idCounter sv + 1\<rparr>)"

text \<open>\<open>EventQueueEntry::markInvalid\<close> and \<open>EventQueueEntry::invalid\<close>\<close>

definition mark_invalid :: "eid \<Rightarrow> service \<Rightarrow> service" where
  "mark_invalid e sv = sv\<lparr>entries := (entries sv)[e := (entries sv ! e)\<lparr>e_invalid := True\<rparr>]\<rparr>"

definition invalid :: "service \<Rightarrow> eid \<Rightarrow> bool" where
  "invalid sv e = e_invalid (entries sv ! e)"

text \<open>
  \<open>Statechart::enqueueTimeout\<close>: nothing once the chart is shut down, otherwise a new entry that
  is kept alive in \<open>m_pendingEntries\<close> and queued by its deadline.
\<close>

definition enqueueTimeout ::
  "sid \<Rightarrow> nat \<Rightarrow> event \<Rightarrow> pref \<Rightarrow> int \<Rightarrow> service \<Rightarrow> eid option \<times> service"
where
  "enqueueTimeout s md ev p ms sv =
     (if \<not> running sv then (None, sv)
      else case new_entry s md (Some ev) (Some p) ms sv of (e, sv1) \<Rightarrow>
        (let sv2 = sv1\<lparr>pendingEntries := pendingEntries sv1 @ [e]\<rparr>
         in (Some e, sv2\<lparr>timeoutQueue := dq_add (deadline sv2) e (timeoutQueue sv2)\<rparr>)))"

text \<open>
  \<open>Statechart::cancelTimeout\<close>: mark the entry, which dereferences the pointer, then drop it from
  the timeout queue and from the pending entries if it is still pending.
\<close>

definition cancelTimeout :: "eid option \<Rightarrow> (unit, 'e rt) prog" where
  "cancelTimeout e =
     (case e of
        None \<Rightarrow> mret ()
      | Some e \<Rightarrow>
          mbind (mvalid (\<lambda>r. entry_alive (rt_sv r) e)) (\<lambda>_.
          mbind (mmod (upd_sv (mark_invalid e))) (\<lambda>_.
          mmod (upd_sv (\<lambda>sv.
            if e \<in> set (pendingEntries sv)
            then sv\<lparr>timeoutQueue := dq_remove e (timeoutQueue sv),
                    pendingEntries := remove1 e (pendingEntries sv)\<rparr>
            else sv)))))"

end
