(* ===== verification/States.thy ===== *)
theory States
  imports Metadata
begin

text \<open>
  The behaviour of the states and transitions: \<open>State.cpp\<close>, \<open>Transition.cpp\<close>,
  \<open>InternalTransition.cpp\<close>, \<open>PseudoState.cpp\<close>, \<open>HierarchicalState.cpp\<close>,
  \<open>ConcurrentState.cpp\<close> and \<open>Statechart::dispatch\<close>.

  Each method is a definition of its own, named after its class.  The virtual calls a method makes
  on other states (\<open>activate\<close>, \<open>deactivate\<close>, \<open>dispatch\<close>, \<open>lookup\<close>) go through a table
  \<open>V\<close>; \<open>vcalls n\<close> is the table in which calls nest at most \<open>n\<close> deep.  A deeper nesting is
  the outcome \<open>NoReturn\<close>.
\<close>

section \<open>The virtual method table\<close>

record 'e vtable =
  v_activate :: "sid \<Rightarrow> pref \<Rightarrow> (bool, 'e rt) prog"
  v_deactivate :: "sid \<Rightarrow> pref \<Rightarrow> (unit, 'e rt) prog"
  v_dispatch :: "sid \<Rightarrow> event option \<Rightarrow> pref \<Rightarrow> (bool, 'e rt) prog"
  v_lookup :: "sid \<Rightarrow> pref \<Rightarrow> (bool, 'e rt) prog"

section \<open>State\<close>

text \<open>
  The body of the loop over the transitions in \<open>State::activate\<close>: a timeout transition is
  scheduled and its entry is remembered in the state's runtime data.
\<close>

definition schedule_timeout :: "'e chart \<Rightarrow> sid \<Rightarrow> pref \<Rightarrow> tid \<Rightarrow> (unit, 'e rt) prog" where
  "schedule_timeout ch s p t =
     (case tr_event (trans ch t) of
        None \<Rightarrow> mret ()
      | Some ev \<Rightarrow>
          if \<not> is_timeout ev then mret ()
          else
            mbind (mget (\<lambda>r. enqueueTimeout s (md_id (rt_md r)) ev p (event_timeout ev) (rt_sv r)))
              (\<lambda>(entry, sv').
            mbind (mmod (upd_sv (\<lambda>_. sv'))) (\<lambda>_.
            case entry of
              None \<Rightarrow> mret ()
            | Some e \<Rightarrow>
                mmod (updData s (\<lambda>d. d\<lparr>timeoutEvents := timeoutEvents d @ [e]\<rparr>)))))"

text \<open>\<open>State::activate\<close>\<close>

definition State_activate :: "'e chart \<Rightarrow> sid \<Rightarrow> pref \<Rightarrow> (bool, 'e rt) prog" where
  "State_activate ch s p =
     mbind (mget (\<lambda>r. isActive r s)) (\<lambda>active.
     if active then mret False
     else
       mbind (mmod (activateData ch s)) (\<lambda>_.
       mbind (if st_statechart (obj ch s) \<noteq> None
              then for_each (transitions (obj ch s)) (schedule_timeout ch s p)
              else mret ()) (\<lambda>_.
       mbind (mcall (entryAction (obj ch s)) p) (\<lambda>_.
       mbind (mcall (doAction (obj ch s)) p) (\<lambda>_.
       mret True)))))"

text \<open>
  \<open>State::deactivate\<close>.  The pointers in \<open>timeoutEvents\<close> are dereferenced by
  \<open>markInvalid\<close> and once more by \<open>cancelTimeout\<close>.
\<close>

definition State_deactivate :: "'e chart \<Rightarrow> sid \<Rightarrow> pref \<Rightarrow> (unit, 'e rt) prog" where
  "State_deactivate ch s p =
     mbind (mget (\<lambda>r. isActive r s)) (\<lambda>active.
     if \<not> active then mret ()
     else
       mbind (mget (\<lambda>r. getData r s)) (\<lambda>data.
       mbind (case data of
                None \<Rightarrow> mret ()
              | Some d \<Rightarrow>
                  if st_statechart (obj ch s) = None then mret ()
                  else for_each (timeoutEvents d) (\<lambda>e.
                    mbind (mvalid (\<lambda>r. entry_alive (rt_sv r) e)) (\<lambda>_.
                    mbind (mmod (upd_sv (mark_invalid e))) (\<lambda>_.
                    cancelTimeout (Some e))))) (\<lambda>_.
       mbind (mmod (deactivateData ch s)) (\<lambda>_.
       mcall (exitAction (obj ch s)) p))))"

section \<open>Transition and InternalTransition\<close>

text \<open>\<open>m_event->equals(p_event, p_data, p_param)\<close>\<close>

definition trigger_equals :: "'e chart \<Rightarrow> event \<Rightarrow> event option \<Rightarrow> pref \<Rightarrow> 'e rt \<Rightarrow> bool" where
  "trigger_equals ch trigger ev p r =
     event_equals (\<lambda>u ev'. user_equals ch u ev' p r) trigger ev"

text \<open>\<open>m_guard && !m_guard(p_data, p_param)\<close> fails, that is: no guard, or the guard accepts.\<close>

definition guard_accepts :: "'e trans \<Rightarrow> pref \<Rightarrow> 'e rt \<Rightarrow> bool" where
  "guard_accepts t p r = (case tr_guard t of None \<Rightarrow> True | Some g \<Rightarrow> g p r)"

text \<open>\<open>Transition::allowed\<close> and its override \<open>InternalTransition::allowed\<close>\<close>

definition Transition_allowed :: "'e chart \<Rightarrow> 'e vtable \<Rightarrow> 'e trans \<Rightarrow> pref \<Rightarrow> (bool, 'e rt) prog" where
  "Transition_allowed ch V t p =
     mbind (mget (guard_accepts t p)) (\<lambda>g.
     if \<not> g then mret False
     else if tr_activate t = [] then mret True
     else if is_pseudo (kind_of ch (last (tr_activate t)))
       then v_lookup V (last (tr_activate t)) p
     else mret True)"

definition InternalTransition_allowed :: "'e trans \<Rightarrow> pref \<Rightarrow> (bool, 'e rt) prog" where
  "InternalTransition_allowed t p =
     mbind (mget (guard_accepts t p)) (\<lambda>g. if \<not> g then mret False else mret True)"

definition allowed :: "'e chart \<Rightarrow> 'e vtable \<Rightarrow> tid \<Rightarrow> pref \<Rightarrow> (bool, 'e rt) prog" where
  "allowed ch V t p =
     (if tr_internal (trans ch t) then InternalTransition_allowed (trans ch t) p
      else Transition_allowed ch V (trans ch t) p)"

text \<open>
  The implicit activation of a region, in \<open>Transition::execute\<close> and in
  \<open>PseudoState::activate\<close>: the region is registered with its concurrent state.
\<close>

definition register_region :: "sid \<Rightarrow> sid \<Rightarrow> 'e rt \<Rightarrow> 'e rt" where
  "register_region conc region r =
     updData conc (\<lambda>d. if region \<in> set (stateset d) then d
                       else d\<lparr>stateset := stateset d @ [region]\<rparr>)
       (createRuntimedata conc r)"

text \<open>The loop of \<open>Transition::execute\<close> over the activate list.\<close>

fun activate_list :: "'e chart \<Rightarrow> 'e vtable \<Rightarrow> pref \<Rightarrow> sid list \<Rightarrow> (unit, 'e rt) prog" where
  "activate_list ch V p [] = mret ()"
| "activate_list ch V p [s] = mbind (v_activate V s p) (\<lambda>_. mret ())"
| "activate_list ch V p (s # region # rest) =
     mbind (if kind_of ch s = Concurrent then mmod (register_region s region) else mret ()) (\<lambda>_.
     mbind (v_activate V s p) (\<lambda>_.
     activate_list ch V p (region # rest)))"

text \<open>The two tests of the trigger at the start of \<open>execute\<close>.\<close>

definition triggered :: "'e chart \<Rightarrow> 'e trans \<Rightarrow> event option \<Rightarrow> pref \<Rightarrow> 'e rt \<Rightarrow> bool" where
  "triggered ch t ev p r =
     (case tr_event t of
        None \<Rightarrow> True
      | Some trigger \<Rightarrow> trigger_equals ch trigger ev p r \<and> ev \<noteq> None)"

text \<open>\<open>Transition::execute\<close>\<close>

definition Transition_execute ::
  "'e chart \<Rightarrow> 'e vtable \<Rightarrow> 'e trans \<Rightarrow> event option \<Rightarrow> pref \<Rightarrow> (bool, 'e rt) prog"
where
  "Transition_execute ch V t ev p =
     mbind (mget (triggered ch t ev p)) (\<lambda>trig.
     if \<not> trig then mret False
     else
       mbind (Transition_allowed ch V t p) (\<lambda>ok.
       if \<not> ok then mret False
       else
         mbind (for_each (tr_deactivate t) (\<lambda>s. v_deactivate V s p)) (\<lambda>_.
         mbind (mcall (tr_action t) p) (\<lambda>_.
         mbind (activate_list ch V p (tr_activate t)) (\<lambda>_.
         mret True)))))"

text \<open>\<open>InternalTransition::execute\<close>\<close>

definition InternalTransition_execute ::
  "'e chart \<Rightarrow> 'e trans \<Rightarrow> event option \<Rightarrow> pref \<Rightarrow> (bool, 'e rt) prog"
where
  "InternalTransition_execute ch t ev p =
     mbind (mget (triggered ch t ev p)) (\<lambda>trig.
     if \<not> trig then mret False
     else
       mbind (InternalTransition_allowed t p) (\<lambda>ok.
       if \<not> ok then mret False
       else
         mbind (mcall (tr_action t) p) (\<lambda>_.
         mret True)))"

definition execute ::
  "'e chart \<Rightarrow> 'e vtable \<Rightarrow> tid \<Rightarrow> event option \<Rightarrow> pref \<Rightarrow> (bool, 'e rt) prog"
where
  "execute ch V t ev p =
     (if tr_internal (trans ch t) then InternalTransition_execute ch (trans ch t) ev p
      else Transition_execute ch V (trans ch t) ev p)"

text \<open>\<open>State::dispatch\<close>: the first outgoing transition that fires.\<close>

definition State_dispatch ::
  "'e chart \<Rightarrow> 'e vtable \<Rightarrow> sid \<Rightarrow> event option \<Rightarrow> pref \<Rightarrow> (bool, 'e rt) prog"
where
  "State_dispatch ch V s ev p = for_until (transitions (obj ch s)) (\<lambda>t. execute ch V t ev p)"

section \<open>PseudoState\<close>

text \<open>One incoming transition of a join in \<open>PseudoState::lookup\<close>: its source must be active.\<close>

definition join_ready :: "'e chart \<Rightarrow> pref \<Rightarrow> 'e rt \<Rightarrow> tid \<Rightarrow> bool" where
  "join_ready ch p r t =
     (if tr_deactivate (trans ch t) = [] then False
      else if \<not> isActive r (hd (tr_deactivate (trans ch t))) then False
      else guard_accepts (trans ch t) p r)"

text \<open>\<open>PseudoState::lookup\<close>\<close>

definition PseudoState_lookup :: "'e chart \<Rightarrow> 'e vtable \<Rightarrow> sid \<Rightarrow> pref \<Rightarrow> (bool, 'e rt) prog" where
  "PseudoState_lookup ch V s p =
     mbind (mget (\<lambda>r. kind_of ch s = Pseudo Join \<and>
                      \<not> list_all (join_ready ch p r) (incoming (obj ch s)))) (\<lambda>blocked.
     if blocked then mret False
     else for_until (transitions (obj ch s)) (\<lambda>t. allowed ch V t p))"

text \<open>The loop over the pairs of neighbours in an activate list, for a fork.\<close>

fun register_regions :: "'e chart \<Rightarrow> sid list \<Rightarrow> 'e rt \<Rightarrow> 'e rt" where
  "register_regions ch (s # region # rest) r =
     register_regions ch (region # rest)
       (if kind_of ch s = Concurrent then register_region s region r else r)"
| "register_regions ch _ r = r"

text \<open>
  \<open>PseudoState::activate\<close>.  The pointer \<open>d\<close> is taken before the entry action and used after
  it; the restored states are those of \<open>d->stateset\<close>, which must not change while the loop
  runs over it.
\<close>

definition PseudoState_activate :: "'e chart \<Rightarrow> 'e vtable \<Rightarrow> sid \<Rightarrow> pref \<Rightarrow> (bool, 'e rt) prog" where
  "PseudoState_activate ch V s p =
     mbind (mmod (activateData ch s)) (\<lambda>_.
     mbind (mget (\<lambda>r. getData r s)) (\<lambda>data.
     mbind (mcall (entryAction (obj ch s)) p) (\<lambda>_.
     mbind
       (if is_history (kind_of ch s) then
          (case data of
             None \<Rightarrow> mret ()
           | Some d0 \<Rightarrow>
               mbind (mvalid (data_valid s (rd_addr d0))) (\<lambda>_.
               mbind (mget (\<lambda>r. case getData r s of None \<Rightarrow> [] | Some d \<Rightarrow> stateset d)) (\<lambda>sts.
               for_each sts (\<lambda>x.
                 mbind (v_activate V x p) (\<lambda>_.
                 mvalid (\<lambda>r. case getData r s of
                     None \<Rightarrow> False
                   | Some d \<Rightarrow> rd_addr d = rd_addr d0 \<and> stateset d = sts))))))
        else if kind_of ch s = Pseudo Fork then
          for_each (transitions (obj ch s)) (\<lambda>t.
            mmod (\<lambda>r. if guard_accepts (trans ch t) p r
                      then register_regions ch (tr_activate (trans ch t)) r else r))
        else mret ())
     (\<lambda>_. mret True))))"

text \<open>\<open>PseudoState::dispatch\<close>\<close>

definition PseudoState_dispatch ::
  "'e chart \<Rightarrow> 'e vtable \<Rightarrow> sid \<Rightarrow> event option \<Rightarrow> pref \<Rightarrow> (bool, 'e rt) prog"
where
  "PseudoState_dispatch ch V s ev p =
     (if is_history (kind_of ch s) then
        mbind (mget (\<lambda>r. case parent_of ch s of
                     None \<Rightarrow> None
                   | Some c \<Rightarrow> (case getData r c of None \<Rightarrow> None | Some d \<Rightarrow> currentState d)))
          (\<lambda>cur. case cur of
             None \<Rightarrow> State_dispatch ch V s ev p
           | Some x \<Rightarrow> if x \<noteq> s then v_dispatch V x ev p else State_dispatch ch V s ev p)
      else if kind_of ch s = Pseudo Fork then
        mbind (for_each (transitions (obj ch s)) (\<lambda>t.
                 mbind (execute ch V t ev p) (\<lambda>_. mret ()))) (\<lambda>_.
        mret True)
      else State_dispatch ch V s ev p)"

text \<open>
  \<open>calculateHistoryChain\<close>: the state, and for a deep history the chain of current substates of
  hierarchical states below it.  The first argument bounds the depth.
\<close>

primrec calculateHistoryChain ::
  "nat \<Rightarrow> 'e chart \<Rightarrow> sid list \<Rightarrow> sid option \<Rightarrow> 'e rt \<Rightarrow> pseudo_type \<Rightarrow> sid list"
where
  "calculateHistoryChain 0 ch hist s r ty = hist"
| "calculateHistoryChain (Suc n) ch hist s r ty =
     (case s of
        None \<Rightarrow> hist
      | Some x \<Rightarrow>
          if ty = History then hist @ [x]
          else if kind_of ch x = Hierarchical then
            (case (case getData r x of None \<Rightarrow> None | Some d \<Rightarrow> currentState d) of
               None \<Rightarrow> hist @ [x]
             | Some sub \<Rightarrow> calculateHistoryChain n ch (hist @ [x]) (Some sub) r ty)
          else hist @ [x])"

text \<open>\<open>PseudoState::storeHistory\<close>\<close>

definition storeHistory :: "'e chart \<Rightarrow> sid \<Rightarrow> 'e rt \<Rightarrow> 'e rt" where
  "storeHistory ch s r =
     (case (getData r s, parent_of ch s) of
        (Some d, Some c) \<Rightarrow>
          (let r1 = updData s (\<lambda>d. d\<lparr>stateset := []\<rparr>) r;
               current = (case getData r1 c of None \<Rightarrow> None | Some pd \<Rightarrow> currentState pd);
               ty = (case kind_of ch s of Pseudo ty \<Rightarrow> ty | _ \<Rightarrow> Start);
               chain = calculateHistoryChain (n_states ch) ch [] current r1 ty
           in updData s (\<lambda>d. d\<lparr>stateset := chain\<rparr>) r1)
      | _ \<Rightarrow> r)"

section \<open>HierarchicalState\<close>

text \<open>
  \<open>HierarchicalState::deactivate\<close>.  The cached pointer \<open>statedata\<close> is written to after the
  substate was deactivated.
\<close>

definition HierarchicalState_deactivate ::
  "'e chart \<Rightarrow> 'e vtable \<Rightarrow> sid \<Rightarrow> pref \<Rightarrow> (unit, 'e rt) prog"
where
  "HierarchicalState_deactivate ch V s p =
     mbind (mget (\<lambda>r. isActive r s)) (\<lambda>active.
     if \<not> active then mret ()
     else
       mbind (mget (\<lambda>r. getData r s)) (\<lambda>data.
       case data of
         None \<Rightarrow> State_deactivate ch s p
       | Some d \<Rightarrow>
           mbind (case history (obj ch s) of
                    None \<Rightarrow> mret ()
                  | Some h \<Rightarrow>
                      if currentState d \<noteq> startState (obj ch s) \<and> currentState d \<noteq> Some h \<and>
                         (case currentState d of None \<Rightarrow> True | Some c \<Rightarrow> kind_of ch c \<noteq> Final)
                      then mmod (storeHistory ch h) else mret ()) (\<lambda>_.
           mbind (case currentState d of
                    None \<Rightarrow> mret ()
                  | Some c \<Rightarrow> v_deactivate V c p) (\<lambda>_.
           mbind (mvalid (data_valid s (rd_addr d))) (\<lambda>_.
           mbind (mmod (updData s (\<lambda>d. d\<lparr>currentState := None\<rparr>))) (\<lambda>_.
           State_deactivate ch s p))))))"

text \<open>The current substate, \<open>statedata->currentState\<close>, if there is runtime data.\<close>

definition current_of :: "'e rt \<Rightarrow> sid \<Rightarrow> sid option" where
  "current_of r s = (case getData r s of None \<Rightarrow> None | Some d \<Rightarrow> currentState d)"

text \<open>
  The loop over the transitions at the end of \<open>HierarchicalState::dispatch\<close>: without a final
  substate only transitions with a trigger count; with one, a transition without a trigger is
  first tried as a completion transition.
\<close>

definition hierarchical_transition ::
  "'e chart \<Rightarrow> 'e vtable \<Rightarrow> bool \<Rightarrow> event option \<Rightarrow> pref \<Rightarrow> tid \<Rightarrow> (bool, 'e rt) prog"
where
  "hierarchical_transition ch V currentIsFinal ev p t =
     (if \<not> currentIsFinal \<and> tr_event (trans ch t) = None then mret False
      else
        mbind (if currentIsFinal \<and> tr_event (trans ch t) = None
               then execute ch V t None p else mret False) (\<lambda>done.
        if done then mret True else execute ch V t ev p))"

text \<open>
  The first entry into a hierarchical state, in \<open>HierarchicalState::dispatch\<close>: the start state
  becomes the current one and is activated.  \<open>statedata\<close> is fetched in between and used again
  after the activation.
\<close>

definition enter_start ::
  "'e chart \<Rightarrow> 'e vtable \<Rightarrow> sid \<Rightarrow> sid \<Rightarrow> pref \<Rightarrow> (unit, 'e rt) prog"
where
  "enter_start ch V s st p =
     mbind (mmod (activateData ch st)) (\<lambda>_.
     mbind (mget (\<lambda>r. getData r s)) (\<lambda>statedata.
     case statedata of
       None \<Rightarrow> mret ()
     | Some d \<Rightarrow>
         (case currentState d of
            None \<Rightarrow> mret ()
          | Some c \<Rightarrow>
              mbind (v_activate V c p) (\<lambda>_.
              mvalid (data_valid s (rd_addr d))))))"

text \<open>\<open>HierarchicalState::dispatch\<close>\<close>

definition HierarchicalState_dispatch ::
  "'e chart \<Rightarrow> 'e vtable \<Rightarrow> sid \<Rightarrow> event option \<Rightarrow> pref \<Rightarrow> (bool, 'e rt) prog"
where
  "HierarchicalState_dispatch ch V s ev p =
     mbind (mget (\<lambda>r. isActive r s)) (\<lambda>active.
     if \<not> active then mret False
     else
       mbind (mget (\<lambda>r. getData r s)) (\<lambda>statedata.
       mbind
         (case (statedata, startState (obj ch s)) of
            (Some d, Some st) \<Rightarrow>
              if currentState d \<noteq> None then mret () else enter_start ch V s st p
          | _ \<Rightarrow> mret ()) (\<lambda>_.
       mbind (mget (\<lambda>r. current_of r s)) (\<lambda>cur.
       mbind (case cur of
                None \<Rightarrow> mret False
              | Some c \<Rightarrow> v_dispatch V c ev p) (\<lambda>handled.
       mbind (mget (\<lambda>r. (isActive r s, current_of r s))) (\<lambda>(still, current).
       if \<not> still then mret handled
       else
         (let currentIsFinal = (case current of None \<Rightarrow> False | Some c \<Rightarrow> kind_of ch c = Final)
          in if handled \<and> \<not> currentIsFinal then mret handled
             else for_until (transitions (obj ch s))
                    (hierarchical_transition ch V currentIsFinal ev p))))))))"

section \<open>ConcurrentState\<close>

text \<open>
  \<open>ConcurrentState::activate\<close>.  The pointer \<open>statedata\<close> is taken once and read before each
  region is activated.
\<close>

definition ConcurrentState_activate ::
  "'e chart \<Rightarrow> 'e vtable \<Rightarrow> sid \<Rightarrow> pref \<Rightarrow> (bool, 'e rt) prog"
where
  "ConcurrentState_activate ch V s p =
     mbind (State_activate ch s p) (\<lambda>activated.
     if \<not> activated then mret False
     else
       mbind (mget (\<lambda>r. getData r s)) (\<lambda>data.
       case data of
         None \<Rightarrow> mret True
       | Some d0 \<Rightarrow>
           mbind (for_each (regions (obj ch s)) (\<lambda>h.
             mbind (mvalid (data_valid s (rd_addr d0))) (\<lambda>_.
             mbind (mget (\<lambda>r. case getData r s of None \<Rightarrow> False | Some d \<Rightarrow> h \<in> set (stateset d)))
               (\<lambda>alreadyTargeted.
             if alreadyTargeted then mret ()
             else
               mbind (v_activate V h p) (\<lambda>entered.
               if entered then mbind (v_dispatch V h None p) (\<lambda>_. mret ()) else mret ()))))) (\<lambda>_.
           mret True)))"

text \<open>\<open>ConcurrentState::deactivate\<close>\<close>

definition ConcurrentState_deactivate ::
  "'e chart \<Rightarrow> 'e vtable \<Rightarrow> sid \<Rightarrow> pref \<Rightarrow> (unit, 'e rt) prog"
where
  "ConcurrentState_deactivate ch V s p =
     mbind (mmod (updData s (\<lambda>d. d\<lparr>stateset := []\<rparr>))) (\<lambda>_.
     mbind (for_each (regions (obj ch s)) (\<lambda>h. v_deactivate V h p)) (\<lambda>_.
     State_deactivate ch s p))"

text \<open>\<open>ConcurrentState::finished\<close>: every region has reached a final state.\<close>

definition finished :: "'e chart \<Rightarrow> sid \<Rightarrow> 'e rt \<Rightarrow> bool" where
  "finished ch s r =
     list_all (\<lambda>h. case getData r h of
         None \<Rightarrow> False
       | Some d \<Rightarrow> (case currentState d of None \<Rightarrow> False | Some c \<Rightarrow> kind_of ch c = Final))
       (regions (obj ch s))"

text \<open>
  The two loops of \<open>ConcurrentState::dispatch\<close>; both stop once the state is no longer active.
\<close>

primrec dispatch_regions ::
  "'e vtable \<Rightarrow> sid \<Rightarrow> event option \<Rightarrow> pref \<Rightarrow> bool \<Rightarrow> sid list \<Rightarrow> (bool, 'e rt) prog"
where
  "dispatch_regions V s ev p dispatched [] = mret dispatched"
| "dispatch_regions V s ev p dispatched (h # hs) =
     mbind (mget (\<lambda>r. isActive r s)) (\<lambda>active.
     if \<not> active then mret dispatched
     else
       mbind (v_dispatch V h ev p) (\<lambda>d.
       dispatch_regions V s ev p (if d then True else dispatched) hs))"

primrec concurrent_transitions ::
  "'e chart \<Rightarrow> 'e vtable \<Rightarrow> sid \<Rightarrow> event option \<Rightarrow> pref \<Rightarrow> tid list \<Rightarrow> (bool, 'e rt) prog"
where
  "concurrent_transitions ch V s ev p [] = mret False"
| "concurrent_transitions ch V s ev p (t # ts) =
     mbind (mget (\<lambda>r. (isActive r s, finished ch s r))) (\<lambda>(active, fin).
     if \<not> active then mret False
     else if tr_event (trans ch t) = None \<and> \<not> fin then concurrent_transitions ch V s ev p ts
     else
       mbind (execute ch V t ev p) (\<lambda>fired.
       if fired then mret True else concurrent_transitions ch V s ev p ts))"

text \<open>\<open>ConcurrentState::dispatch\<close>\<close>

definition ConcurrentState_dispatch ::
  "'e chart \<Rightarrow> 'e vtable \<Rightarrow> sid \<Rightarrow> event option \<Rightarrow> pref \<Rightarrow> (bool, 'e rt) prog"
where
  "ConcurrentState_dispatch ch V s ev p =
     mbind (dispatch_regions V s ev p False (regions (obj ch s))) (\<lambda>dispatched.
     if dispatched then mret True
     else concurrent_transitions ch V s ev p (transitions (obj ch s)))"

section \<open>Statechart::dispatch\<close>

text \<open>
  The loop that feeds \<open>nullptr\<close> to the current state until no transition fires, or until
  \<open>steps\<close> reaches the threshold.
\<close>

definition infinite_loop_text :: "'e chart \<Rightarrow> sid \<Rightarrow> string" where
  "infinite_loop_text ch s =
     ''Statechart <'' @ st_name (obj ch s) @ ''>: more than '' @ to_string (loopThreshold ch) @
     '' consecutive trigger-less transitions; the model very likely contains a cycle of '' @
     ''unguarded transitions. Use setInfiniteLoopThreshold() to raise the limit if this is '' @
     ''intentional.''"

function completion_loop :: "'e chart \<Rightarrow> 'e vtable \<Rightarrow> sid \<Rightarrow> pref \<Rightarrow> nat \<Rightarrow> (unit, 'e rt) prog" where
  "completion_loop ch V s p steps =
     mbind (mget (\<lambda>r. current_of r s)) (\<lambda>cur.
     case cur of
       None \<Rightarrow> mret ()
     | Some c \<Rightarrow>
         mbind (v_dispatch V c None p) (\<lambda>fired.
         if \<not> fired then mret ()
         else if steps + 1 \<ge> loopThreshold ch
           then mthrow (InfiniteLoopException (infinite_loop_text ch s))
         else completion_loop ch V s p (steps + 1)))"
  by pat_completeness auto
termination
  by (relation "measure (\<lambda>(ch, V, s, p, steps). loopThreshold ch - steps)") auto

declare completion_loop.simps [simp del]

text \<open>\<open>Statechart::dispatch\<close>, which overrides \<open>State::dispatch\<close>; the mutex is held throughout.\<close>

definition Statechart_dispatch ::
  "'e chart \<Rightarrow> 'e vtable \<Rightarrow> sid \<Rightarrow> event option \<Rightarrow> pref \<Rightarrow> (bool, 'e rt) prog"
where
  "Statechart_dispatch ch V s ev p =
     mbind (mget (\<lambda>r. getData r s)) (\<lambda>selfData.
     case selfData of
       None \<Rightarrow> mret False
     | Some d \<Rightarrow>
         mbind (case currentState d of
                  None \<Rightarrow> mret False
                | Some c \<Rightarrow> v_dispatch V c ev p) (\<lambda>rc.
         mbind (completion_loop ch V s p 0) (\<lambda>_.
         mret rc)))"

section \<open>The knot\<close>

text \<open>Which override a virtual call reaches, by the class of the object.\<close>

definition call_activate :: "'e chart \<Rightarrow> 'e vtable \<Rightarrow> sid \<Rightarrow> pref \<Rightarrow> (bool, 'e rt) prog" where
  "call_activate ch V s p =
     (case kind_of ch s of
        Pseudo _ \<Rightarrow> PseudoState_activate ch V s p
      | Concurrent \<Rightarrow> ConcurrentState_activate ch V s p
      | _ \<Rightarrow> State_activate ch s p)"

definition call_deactivate :: "'e chart \<Rightarrow> 'e vtable \<Rightarrow> sid \<Rightarrow> pref \<Rightarrow> (unit, 'e rt) prog" where
  "call_deactivate ch V s p =
     (case kind_of ch s of
        Hierarchical \<Rightarrow> HierarchicalState_deactivate ch V s p
      | Concurrent \<Rightarrow> ConcurrentState_deactivate ch V s p
      | _ \<Rightarrow> State_deactivate ch s p)"

definition call_dispatch ::
  "'e chart \<Rightarrow> 'e vtable \<Rightarrow> sid \<Rightarrow> event option \<Rightarrow> pref \<Rightarrow> (bool, 'e rt) prog"
where
  "call_dispatch ch V s ev p =
     (case kind_of ch s of
        Pseudo _ \<Rightarrow> PseudoState_dispatch ch V s ev p
      | Hierarchical \<Rightarrow> HierarchicalState_dispatch ch V s ev p
      | Concurrent \<Rightarrow> ConcurrentState_dispatch ch V s ev p
      | Chart \<Rightarrow> Statechart_dispatch ch V s ev p
      | _ \<Rightarrow> State_dispatch ch V s ev p)"

text \<open>One more level of calls on top of a table.\<close>

definition vstep :: "'e chart \<Rightarrow> 'e vtable \<Rightarrow> 'e vtable" where
  "vstep ch V =
     \<lparr>v_activate = call_activate ch V,
      v_deactivate = call_deactivate ch V,
      v_dispatch = call_dispatch ch V,
      v_lookup = PseudoState_lookup ch V\<rparr>"

primrec vcalls :: "nat \<Rightarrow> 'e chart \<Rightarrow> 'e vtable" where
  "vcalls 0 ch =
     \<lparr>v_activate = (\<lambda>_ _. mnoreturn), v_deactivate = (\<lambda>_ _. mnoreturn),
      v_dispatch = (\<lambda>_ _ _. mnoreturn), v_lookup = (\<lambda>_ _. mnoreturn)\<rparr>"
| "vcalls (Suc n) ch = vstep ch (vcalls n ch)"

text \<open>The methods with a bound on the depth of nested virtual calls.\<close>

definition activate :: "nat \<Rightarrow> 'e chart \<Rightarrow> sid \<Rightarrow> pref \<Rightarrow> (bool, 'e rt) prog" where
  "activate n ch = v_activate (vcalls n ch)"

definition deactivate :: "nat \<Rightarrow> 'e chart \<Rightarrow> sid \<Rightarrow> pref \<Rightarrow> (unit, 'e rt) prog" where
  "deactivate n ch = v_deactivate (vcalls n ch)"

definition dispatch :: "nat \<Rightarrow> 'e chart \<Rightarrow> sid \<Rightarrow> event option \<Rightarrow> pref \<Rightarrow> (bool, 'e rt) prog" where
  "dispatch n ch = v_dispatch (vcalls n ch)"

definition lookup :: "nat \<Rightarrow> 'e chart \<Rightarrow> sid \<Rightarrow> pref \<Rightarrow> (bool, 'e rt) prog" where
  "lookup n ch = v_lookup (vcalls n ch)"

end
