(* ===== verification/Statechart.thy ===== *)
theory Statechart
  imports States
begin

text \<open>
  The synchronous interface of \<open>class Statechart\<close> (\<open>Statechart.cpp\<close>): \<open>start\<close>,
  \<open>dispatch\<close> and \<open>restoreState\<close>, with and without a parameter of the caller.  The
  statechart itself is state 0.  As in theory \<open>States\<close> the first argument bounds the depth of
  nested virtual calls.
\<close>

section \<open>Parameters made by the library\<close>

text \<open>
  \<open>Parameter empty;\<close> on the stack: alive while the body runs, destroyed when it returns or
  throws.
\<close>

definition drop_local :: "pref \<Rightarrow> service \<Rightarrow> service" where
  "drop_local p sv = sv\<lparr>locals := remove1 p (locals sv)\<rparr>"

definition with_local :: "(pref \<Rightarrow> ('a, 'e rt) prog) \<Rightarrow> ('a, 'e rt) prog" where
  "with_local body r =
     (let p = LocalParam (next_param (rt_sv r));
          r1 = upd_sv (\<lambda>sv. sv\<lparr>locals := p # locals sv, next_param := Suc (next_param sv)\<rparr>) r
      in case body p r1 of
           Ret a r2 \<Rightarrow> Ret a (upd_sv (drop_local p) r2)
         | Exn e r2 \<Rightarrow> Exn e (upd_sv (drop_local p) r2)
         | NoReturn \<Rightarrow> NoReturn
         | Undef \<Rightarrow> Undef)"

section \<open>start\<close>

text \<open>The part \<open>start\<close> and \<open>startAsynchron\<close> share.\<close>

definition init_data :: "'e chart \<Rightarrow> 'e rt \<Rightarrow> 'e rt" where
  "init_data ch r =
     (let r1 = activateData ch 0 (resetData r)
      in case startState (obj ch 0) of None \<Rightarrow> r1 | Some st \<Rightarrow> activateData ch st r1)"

text \<open>\<open>Statechart::start(Metadata&, Parameter&)\<close> and \<open>Statechart::start(Metadata&)\<close>\<close>

definition start_with :: "nat \<Rightarrow> 'e chart \<Rightarrow> pref \<Rightarrow> (bool, 'e rt) prog" where
  "start_with n ch p = mbind (mmod (init_data ch)) (\<lambda>_. dispatch n ch 0 None p)"

definition start :: "nat \<Rightarrow> 'e chart \<Rightarrow> (bool, 'e rt) prog" where
  "start n ch = with_local (start_with n ch)"

section \<open>dispatch\<close>

text \<open>\<open>Statechart::dispatch(Metadata&, Event*)\<close>; the three-argument one is \<open>dispatch n ch 0\<close>.\<close>

definition dispatch_event :: "nat \<Rightarrow> 'e chart \<Rightarrow> event option \<Rightarrow> (bool, 'e rt) prog" where
  "dispatch_event n ch ev = with_local (dispatch n ch 0 ev)"

section \<open>restoreState\<close>

text \<open>The walk from a state up to the statechart, outermost first.\<close>

primrec context_path :: "nat \<Rightarrow> 'e chart \<Rightarrow> sid option \<Rightarrow> sid list \<Rightarrow> sid list" where
  "context_path 0 ch s acc = acc"
| "context_path (Suc n) ch s acc =
     (case s of None \<Rightarrow> acc | Some x \<Rightarrow> context_path n ch (parent_of ch x) (x # acc))"

text \<open>\<open>Statechart::restoreState\<close>\<close>

definition restoreState :: "nat \<Rightarrow> 'e chart \<Rightarrow> sid option \<Rightarrow> pref \<Rightarrow> (bool, 'e rt) prog" where
  "restoreState n ch s p =
     mbind (mget (\<lambda>r. isActive r 0)) (\<lambda>active.
     if active then mret False
     else
       mbind (mmod resetData) (\<lambda>_.
       mbind (for_each (context_path (n_states ch) ch s []) (\<lambda>x.
                mbind (activate n ch x p) (\<lambda>_. mret ()))) (\<lambda>_.
       mret True)))"

end
