(* ===== verification/Structure.thy ===== *)
theory Structure
  imports Chart
begin

text \<open>
  What the building operations guarantee: the well-formedness of every chart they build, the order
  of a state's transitions, the name table, and the least common ancestor that
  \<open>Transition::calculateStateSet\<close> computes.
\<close>

section \<open>Well-formed charts\<close>

text \<open>
  The parent of every state is a context that was created before it, only the root is a
  \<open>Statechart\<close>.
\<close>

definition wf_tree :: "'e chart \<Rightarrow> bool" where
  "wf_tree ch \<longleftrightarrow>
     0 < n_states ch \<and> kind_of ch 0 = Chart \<and> parent_of ch 0 = None \<and>
     (\<forall>s < n_states ch. st_statechart (obj ch s) = Some 0) \<and>
     (\<forall>s < n_states ch. 0 < s \<longrightarrow> kind_of ch s \<noteq> Chart \<and>
        (\<exists>p < s. parent_of ch s = Some p \<and> is_context (kind_of ch p)))"

text \<open>The slots of the composite states point to children of the right class.\<close>

definition wf_slots :: "'e chart \<Rightarrow> bool" where
  "wf_slots ch \<longleftrightarrow>
     (\<forall>s < n_states ch.
        (\<forall>x. startState (obj ch s) = Some x \<longleftrightarrow>
           x < n_states ch \<and> kind_of ch x = Pseudo Start \<and> parent_of ch x = Some s) \<and>
        (\<forall>x. history (obj ch s) = Some x \<longleftrightarrow>
           x < n_states ch \<and> is_history (kind_of ch x) \<and> parent_of ch x = Some s) \<and>
        (\<forall>h. h \<in> set (regions (obj ch s)) \<longleftrightarrow>
           h < n_states ch \<and> kind_of ch h = Hierarchical \<and> parent_of ch h = Some s \<and>
           kind_of ch s = Concurrent) \<and>
        (history (obj ch s) \<noteq> None \<longrightarrow> kind_of ch s = Hierarchical) \<and>
        distinct (regions (obj ch s)))"

text \<open>
  The transition pointers of the states are valid.  A transition's lists are those
  \<open>calculateStateSet\<close> gives for some pair of states (or empty, for an internal one), and a
  state's own transitions start in that state.
\<close>

definition ptr_ok :: "'e chart \<Rightarrow> sid option \<Rightarrow> bool" where
  "ptr_ok ch x \<longleftrightarrow> (\<forall>s. x = Some s \<longrightarrow> s < n_states ch)"

definition lists_ok :: "'e chart \<Rightarrow> (sid option \<Rightarrow> bool) \<Rightarrow> 'e trans \<Rightarrow> bool" where
  "lists_ok ch from t \<longleftrightarrow>
     (if tr_internal t then tr_deactivate t = [] \<and> tr_activate t = []
      else \<exists>a b. from a \<and> ptr_ok ch a \<and> ptr_ok ch b \<and>
             (tr_deactivate t, tr_activate t) = calculateStateSet ch a b)"

definition wf_transitions :: "'e chart \<Rightarrow> bool" where
  "wf_transitions ch \<longleftrightarrow>
     (\<forall>s < n_states ch.
        (\<forall>t \<in> set (incoming (obj ch s)). t < length (ownedTransitions ch)) \<and>
        (\<forall>t \<in> set (transitions (obj ch s)).
           t < length (ownedTransitions ch) \<and> lists_ok ch (\<lambda>a. a = Some s) (trans ch t))) \<and>
     (\<forall>t \<in> set (ownedTransitions ch). lists_ok ch (\<lambda>_. True) t)"

definition wf_names :: "'e chart \<Rightarrow> bool" where
  "wf_names ch \<longleftrightarrow>
     distinct (map fst (stateNames ch)) \<and> (\<forall>s \<in> ran (map_of (stateNames ch)). 0 < s \<and> s < n_states ch) \<and>
     inj_on (map_of (stateNames ch)) (dom (map_of (stateNames ch))) \<and>
     (\<forall>s < n_states ch. 0 < s \<longrightarrow> (\<exists>nm. map_of (stateNames ch) nm = Some s))"

definition wf_core :: "'e chart \<Rightarrow> bool" where
  "wf_core ch \<longleftrightarrow> wf_tree ch \<and> wf_slots ch \<and> wf_transitions ch \<and> 0 < loopThreshold ch"

definition wf_chart :: "'e chart \<Rightarrow> bool" where
  "wf_chart ch \<longleftrightarrow> wf_core ch \<and> wf_names ch"

lemma wf_parent:
  assumes "wf_tree ch" "s < n_states ch" "parent_of ch s = Some p"
  shows "p < s" "is_context (kind_of ch p)" "0 < s"
proof -
  have "s \<noteq> 0" using assms by (auto simp: wf_tree_def)
  then show "0 < s" by simp
  then obtain q where "q < s" "parent_of ch s = Some q" "is_context (kind_of ch q)"
    using assms(1,2) unfolding wf_tree_def by blast
  with assms(3) show "p < s" "is_context (kind_of ch p)" by auto
qed

lemma wf_parent_ex:
  assumes "wf_tree ch" "s < n_states ch" "0 < s"
  obtains p where "parent_of ch s = Some p" "p < s" "is_context (kind_of ch p)"
  using assms unfolding wf_tree_def by blast

lemma wf_kind_Chart:
  "wf_tree ch \<Longrightarrow> s < n_states ch \<Longrightarrow> kind_of ch s = Chart \<longleftrightarrow> s = 0"
  unfolding wf_tree_def by (cases "s = 0") auto

section \<open>The path from the root to a state\<close>

text \<open>The specification of the upward walk: the ancestors below the statechart, outermost first.\<close>

inductive ancestry :: "'e chart \<Rightarrow> sid \<Rightarrow> sid list \<Rightarrow> bool" for ch where
  root: "parent_of ch s = None \<Longrightarrow> ancestry ch s [s]"
| top: "parent_of ch s = Some c \<Longrightarrow> kind_of ch c = Chart \<Longrightarrow> ancestry ch s [s]"
| below: "parent_of ch s = Some c \<Longrightarrow> kind_of ch c \<noteq> Chart \<Longrightarrow> ancestry ch c cs \<Longrightarrow>
    ancestry ch s (cs @ [s])"

inductive_cases ancestryE: "ancestry ch s cs"

lemma ancestry_last: "ancestry ch s cs \<Longrightarrow> cs \<noteq> [] \<and> last cs = s"
  by (induction rule: ancestry.induct) auto

lemma ancestry_unique: "ancestry ch s cs \<Longrightarrow> ancestry ch s cs' \<Longrightarrow> cs = cs'"
proof (induction arbitrary: cs' rule: ancestry.induct)
  case (below s c cs)
  from below.prems below.hyps obtain ds where "cs' = ds @ [s]" "ancestry ch c ds"
    by (auto elim: ancestryE)
  with below.IH show ?case by simp
qed (auto elim: ancestryE)

text \<open>Consecutive elements are parent and child.\<close>

definition parent_chain :: "'e chart \<Rightarrow> sid list \<Rightarrow> bool" where
  "parent_chain ch cs \<longleftrightarrow> (\<forall>i. Suc i < length cs \<longrightarrow> parent_of ch (cs ! Suc i) = Some (cs ! i))"

lemma parent_chain_simps [simp]:
  "parent_chain ch []" "parent_chain ch [x]"
  by (simp_all add: parent_chain_def)

lemma parent_chain_Cons:
  "parent_chain ch (x # y # cs) \<longleftrightarrow> parent_of ch y = Some x \<and> parent_chain ch (y # cs)"
  unfolding parent_chain_def
  by (auto simp: less_Suc_eq_0_disj nth_Cons split: nat.splits)

lemma parent_chain_snoc:
  "cs \<noteq> [] \<Longrightarrow> parent_chain ch cs \<Longrightarrow> parent_of ch x = Some (last cs) \<Longrightarrow> parent_chain ch (cs @ [x])"
  by (induction cs rule: induct_list012) (auto simp: parent_chain_Cons)

lemma parent_chain_drop: "parent_chain ch cs \<Longrightarrow> parent_chain ch (drop k cs)"
  unfolding parent_chain_def by simp

lemma ancestry_chain: "ancestry ch s cs \<Longrightarrow> parent_chain ch cs"
  by (induction rule: ancestry.induct) (auto dest: ancestry_last intro: parent_chain_snoc)

text \<open>In a well-formed chart the walk stops within as many steps as the state's number.\<close>

lemma walk_up_ancestry:
  assumes "wf_tree ch" "s < n_states ch"
  shows "s < n \<Longrightarrow> \<exists>cs. ancestry ch s cs \<and> set cs \<subseteq> {..s} \<and> sorted_wrt (<) cs \<and>
           walk_up n ch (Some s) acc = cs @ acc"
  using assms(2)
proof (induction s arbitrary: n acc rule: less_induct)
  case (less s)
  obtain m where n: "n = Suc m" using less.prems by (cases n) auto
  show ?case
  proof (cases "parent_of ch s")
    case None
    then show ?thesis using n by (cases m) (auto intro!: ancestry.root)
  next
    case (Some c)
    have c: "c < s" using wf_parent[OF assms(1) less.prems(2) Some] by simp
    show ?thesis
    proof (cases "kind_of ch c = Chart")
      case True
      with Some n show ?thesis by (cases m) (auto intro!: ancestry.top)
    next
      case False
      obtain cs where cs: "ancestry ch c cs" "set cs \<subseteq> {..c}" "sorted_wrt (<) cs"
          "walk_up m ch (Some c) (s # acc) = cs @ s # acc"
        using less.IH[OF c, of m "s # acc"] c less.prems n by auto
      then have "ancestry ch s (cs @ [s])" "set (cs @ [s]) \<subseteq> {..s}" "sorted_wrt (<) (cs @ [s])"
        using Some False c by (auto intro: ancestry.below simp: sorted_wrt_append)
      moreover have "walk_up n ch (Some s) acc = (cs @ [s]) @ acc"
        using cs(4) Some False n by simp
      ultimately show ?thesis by blast
    qed
  qed
qed

lemma path_to_ancestry:
  assumes "wf_tree ch" "s < n_states ch"
  shows "ancestry ch s (path_to ch (Some s))"
    and "set (path_to ch (Some s)) \<subseteq> {..s}"
    and "sorted_wrt (<) (path_to ch (Some s))"
  using walk_up_ancestry[OF assms assms(2), of "[]"] by (auto simp: path_to_def)

lemma path_to_None [simp]: "path_to ch None = []"
  unfolding path_to_def by (cases "n_states ch") simp_all

text \<open>More steps than there are states change nothing.\<close>

lemma walk_up_enough:
  assumes "wf_tree ch" "s < n_states ch" "n_states ch \<le> n"
  shows "walk_up n ch (Some s) [] = path_to ch (Some s)"
proof -
  obtain cs where "ancestry ch s cs" "walk_up n ch (Some s) [] = cs @ []"
    using walk_up_ancestry[OF assms(1,2), of n "[]"] assms(2,3) by auto
  then show ?thesis
    using ancestry_unique path_to_ancestry(1)[OF assms(1,2)] by fastforce
qed

lemma path_to_last:
  assumes "wf_tree ch" "s < n_states ch"
  shows "path_to ch (Some s) \<noteq> []" "last (path_to ch (Some s)) = s"
  using ancestry_last[OF path_to_ancestry(1)[OF assms]] by auto

lemma path_to_distinct:
  assumes "wf_tree ch" "s < n_states ch"
  shows "distinct (path_to ch (Some s))"
  using path_to_ancestry(3)[OF assms] by (simp add: strict_sorted_iff)

section \<open>The least common ancestor\<close>

text \<open>The loop of \<open>calculateStateSet\<close> finds the length of the common prefix of the two paths.\<close>

lemma lca_loop_rules:
  "i < m \<Longrightarrow> a ! i \<noteq> d ! i \<Longrightarrow> lca_loop i m a d = i"
  "i < m \<Longrightarrow> a ! i = d ! i \<Longrightarrow> lca_loop i m a d = lca_loop (Suc i) m a d"
  "\<not> i < m \<Longrightarrow> lca_loop i m a d = i"
  by (subst lca_loop.simps; simp)+

lemma lca_loop_prefix:
  assumes "k = common_prefix a d" "m = min (length a) (length d)" "i \<le> k"
  shows "lca_loop i m a d = k"
  using assms(3)
proof (induction "k - i" arbitrary: i)
  case 0
  then have "i = k" by simp
  then show ?case
    using common_prefix_bounds[of a d] common_prefix_differs[of a d] assms(1,2)
    by (cases "k < m") (auto simp: lca_loop_rules)
next
  case (Suc j)
  then have "i < k" by simp
  moreover have "k \<le> m" using common_prefix_bounds[of a d] assms(1,2) by simp
  ultimately have "lca_loop i m a d = lca_loop (Suc i) m a d"
    using common_prefix_nth[of i a d] assms(1) by (simp add: lca_loop_rules)
  with Suc.hyps(1)[of "Suc i"] Suc.hyps(2) \<open>i < k\<close> show ?case by simp
qed

lemma calculateStateSet_paths:
  assumes "source \<noteq> target"
  shows "calculateStateSet ch source target =
    (let k = common_prefix (path_to ch target) (path_to ch source)
     in (rev (drop k (path_to ch source)), drop k (path_to ch target)))"
proof -
  have "(if x < y then x else y) = min x y" for x y :: nat by simp
  then show ?thesis
    using assms by (simp add: calculateStateSet_def Let_def lca_loop_prefix)
qed

lemma calculateStateSet_self:
  assumes "wf_tree ch" "s < n_states ch"
  shows "calculateStateSet ch (Some s) (Some s) = ([s], [s])"
proof -
  let ?p = "path_to ch (Some s)"
  have "?p \<noteq> []" "last ?p = s" using path_to_last[OF assms] by auto
  then have "drop (length ?p - 1) ?p = [s]"
    by (metis append_butlast_last_id append_eq_conv_conj length_butlast)
  then show ?thesis
    using \<open>?p \<noteq> []\<close> by (simp add: calculateStateSet_def Let_def)
qed


text \<open>Every element of a path has the path up to it as its own.\<close>

lemma ancestry_take:
  "ancestry ch s cs \<Longrightarrow> i < length cs \<Longrightarrow> ancestry ch (cs ! i) (take (Suc i) cs)"
proof (induction rule: ancestry.induct)
  case (below s c cs)
  show ?case
  proof (cases "i < length cs")
    case True
    with below.IH show ?thesis by (simp add: nth_append)
  next
    case False
    then have "i = length cs" using below.prems by simp
    then show ?thesis using below.hyps by (auto intro: ancestry.below)
  qed
qed (auto intro: ancestry.root ancestry.top)

lemma paths_agree:
  assumes "ancestry ch s cs" "ancestry ch t ds" "i < length cs" "j < length ds" "cs ! i = ds ! j"
  shows "i = j" "take (Suc i) cs = take (Suc i) ds"
proof -
  have "take (Suc i) cs = take (Suc j) ds"
    using ancestry_take[OF assms(1,3)] ancestry_take[OF assms(2,4)] assms(5) ancestry_unique
    by metis
  moreover from this have "Suc i = Suc j"
    using assms(3,4) by (metis Suc_leI length_take min.absorb2)
  ultimately show "i = j" "take (Suc i) cs = take (Suc i) ds" by simp_all
qed

lemma path_tails_disjoint:
  assumes "ancestry ch s cs" "ancestry ch t ds"
  defines "k \<equiv> common_prefix ds cs"
  shows "set (drop k cs) \<inter> set (drop k ds) = {}"
proof (rule ccontr)
  assume "\<not> ?thesis"
  then obtain x where "x \<in> set (drop k cs)" "x \<in> set (drop k ds)" by blast
  then obtain i j where "i < length cs - k" "drop k cs ! i = x" "j < length ds - k" "drop k ds ! j = x"
    by (metis in_set_conv_nth length_drop)
  then have ij: "k + i < length cs" "k + j < length ds" "cs ! (k + i) = ds ! (k + j)"
    by simp_all
  then have "take (Suc (k + i)) cs = take (Suc (k + i)) ds" "i = j"
    using paths_agree[OF assms(1,2) ij(1,2,3)] by simp_all
  then have "cs ! k = ds ! k"
    by (metis nth_take less_Suc_eq_le le_add1)
  moreover have "k < length ds" "k < length cs" using ij by simp_all
  ultimately show False
    using common_prefix_differs[of ds cs] unfolding k_def by simp
qed

lemma path_tail_empty_iff:
  assumes "wf_tree ch" "s < n_states ch" "t < n_states ch"
  defines "k \<equiv> common_prefix (path_to ch (Some t)) (path_to ch (Some s))"
  shows "drop k (path_to ch (Some t)) = [] \<longleftrightarrow> t \<in> set (path_to ch (Some s))"
    and "drop k (path_to ch (Some s)) = [] \<longleftrightarrow> s \<in> set (path_to ch (Some t))"
proof -
  let ?ds = "path_to ch (Some t)" and ?cs = "path_to ch (Some s)"
  note as = path_to_ancestry(1)[OF assms(1,2)] and at = path_to_ancestry(1)[OF assms(1,3)]
  note disj = path_tails_disjoint[OF as at, folded k_def]
  have same: "take k ?ds = take k ?cs" unfolding k_def by (rule take_common_prefix)
  have aux: "drop k x = [] \<longleftrightarrow> last x \<in> set y"
    if "x \<noteq> []" "set (drop k x) \<inter> set (drop k y) = {}" "take k x = take k y"
      "distinct x" for x y :: "sid list"
  proof
    assume "drop k x = []"
    then have "x = take k y" using that(3) by simp
    then show "last x \<in> set y" using that(1) by (metis in_set_takeD last_in_set)
  next
    assume l: "last x \<in> set y"
    show "drop k x = []"
    proof (rule ccontr)
      assume ne: "drop k x \<noteq> []"
      then have "last x \<in> set (drop k x)" by (metis last_drop last_in_set drop_eq_Nil leI)
      moreover from this l that(2) have "last x \<in> set (take k y)"
        by (metis Un_iff append_take_drop_id disjoint_iff set_append)
      ultimately show False using that(3,4) by (metis set_take_disj_set_drop_if_distinct disjoint_iff order_refl)
    qed
  qed
  show "drop k ?ds = [] \<longleftrightarrow> t \<in> set ?cs"
    using aux[of ?ds ?cs] disj same path_to_last[OF assms(1,3)] path_to_distinct[OF assms(1,3)]
    by (simp add: Int_commute)
  show "drop k ?cs = [] \<longleftrightarrow> s \<in> set ?ds"
    using aux[of ?cs ?ds] disj same path_to_last[OF assms(1,2)] path_to_distinct[OF assms(1,2)]
    by simp
qed

section \<open>Building keeps the tree and the lists of old transitions\<close>

text \<open>\<open>ch'\<close> extends the state tree of \<open>ch\<close>.\<close>

definition tree_ext :: "'e chart \<Rightarrow> 'e chart \<Rightarrow> bool" where
  "tree_ext ch ch' \<longleftrightarrow> n_states ch \<le> n_states ch' \<and>
     (\<forall>s < n_states ch. kind_of ch' s = kind_of ch s \<and> parent_of ch' s = parent_of ch s \<and>
        st_statechart (obj ch' s) = st_statechart (obj ch s))"

lemma tree_ext_refl [simp]: "tree_ext ch ch"
  by (simp add: tree_ext_def)

lemma tree_ext_trans: "tree_ext a b \<Longrightarrow> tree_ext b c \<Longrightarrow> tree_ext a c"
  by (auto simp: tree_ext_def)

lemma tree_ext_ancestry:
  assumes "tree_ext ch ch'" "wf_tree ch" "ancestry ch s cs" "s < n_states ch"
  shows "ancestry ch' s cs"
  using assms(3,4)
proof (induction rule: ancestry.induct)
  case (root s)
  then show ?case using assms(1) by (auto simp: tree_ext_def intro: ancestry.root)
next
  case (top s c)
  then have "c < n_states ch" using wf_parent[OF assms(2)] by fastforce
  then show ?case using top assms(1) by (auto simp: tree_ext_def intro: ancestry.top)
next
  case (below s c cs)
  then have "c < n_states ch" using wf_parent[OF assms(2)] by fastforce
  then show ?case using below assms(1) by (auto simp: tree_ext_def intro: ancestry.below)
qed

lemma tree_ext_path:
  assumes "tree_ext ch ch'" "wf_tree ch" "wf_tree ch'" "s < n_states ch"
  shows "path_to ch' (Some s) = path_to ch (Some s)"
proof -
  have "s < n_states ch'" using assms(1,4) by (simp add: tree_ext_def)
  then show ?thesis
    using ancestry_unique tree_ext_ancestry[OF assms(1,2) path_to_ancestry(1)[OF assms(2,4)] assms(4)]
      path_to_ancestry(1)[OF assms(3)] by blast
qed

lemma tree_ext_calculate:
  assumes "tree_ext ch ch'" "wf_tree ch" "wf_tree ch'"
    and "\<forall>x. a = Some x \<longrightarrow> x < n_states ch" "\<forall>x. b = Some x \<longrightarrow> x < n_states ch"
  shows "calculateStateSet ch' a b = calculateStateSet ch a b"
proof -
  have "path_to ch' z = path_to ch z" if "\<forall>x. z = Some x \<longrightarrow> x < n_states ch" for z
    using that tree_ext_path[OF assms(1-3)] by (cases z) auto
  then show ?thesis using assms(4,5) by (simp add: calculateStateSet_def)
qed

end
