(* ===== verification/Effects.thy ===== *)
theory Effects
  imports Statechart Structure
begin

text \<open>
  What the elementary operations do to the runtime data: the effect of \<open>Metadata::activate\<close> and
  \<open>Metadata::deactivate\<close> on the map from states to runtime data, and \<open>State::activate\<close> and
  \<open>State::deactivate\<close> as one functional step (timers included) followed by the callbacks.
\<close>

section \<open>Activation and deactivation of the data\<close>

definition old_or_new :: "sid \<Rightarrow> 'e rt \<Rightarrow> runtimedata" where
  "old_or_new s r = (case getData r s of Some d \<Rightarrow> d | None \<Rightarrow> new_runtimedata (md_next (rt_md r)))"

lemma getData_upd_md_statechart [simp]:
  "getData (upd_md (\<lambda>m. m\<lparr>md_statechart := c\<rparr>) r) x = getData r x"
  by (simp add: getData_def)

lemma getData_upd_md_next [simp]:
  "getData (upd_md (\<lambda>m. m\<lparr>md_next := c\<rparr>) r) x = getData r x"
  by (simp add: getData_def)

lemma getData_notify [simp]:
  "getData (notifyActivate s r) x = getData r x" "getData (notifyDeactivate s r) x = getData r x"
  by (simp_all add: notifyActivate_def notifyDeactivate_def)

lemma rt_sv_notify [simp]:
  "rt_sv (notifyActivate s r) = rt_sv r" "rt_sv (notifyDeactivate s r) = rt_sv r"
  "rt_md (notifyActivate s r) = rt_md r" "rt_md (notifyDeactivate s r) = rt_md r"
  by (simp_all add: notifyActivate_def notifyDeactivate_def)

lemma rt_sv_data [simp]:
  "rt_sv (activateData ch s r) = rt_sv r" "rt_sv (deactivateData ch s r) = rt_sv r"
  by (auto simp: activateData_def deactivateData_def Let_def split: option.split)

lemma getData_activateData:
  assumes "parent_of ch s \<noteq> Some s"
  shows "getData (activateData ch s r) x =
    (if x = s then Some ((old_or_new s r)\<lparr>rd_active := True, currentTime := clock (rt_sv r),
                                           currentState := None\<rparr>)
     else if parent_of ch s = Some x then map_option (\<lambda>d. d\<lparr>currentState := Some s\<rparr>) (getData r x)
     else getData r x)"
  using assms
  by (auto simp: activateData_def Let_def old_or_new_def split: option.split)

lemma getData_deactivateData:
  "getData (deactivateData ch s r) x =
    (if x = s then
       if is_history (kind_of ch s) then map_option (\<lambda>d. d\<lparr>rd_active := False\<rparr>) (getData r s) else None
     else getData r x)"
  by (auto simp: deactivateData_def split: option.split)

lemma md_id_data [simp]:
  "md_id (rt_md (activateData ch s r)) = md_id (rt_md r)"
  "md_id (rt_md (deactivateData ch s r)) = md_id (rt_md r)"
  by (auto simp: activateData_def deactivateData_def Let_def split: option.split)

section \<open>Timers\<close>

text \<open>The entry of a timer and its pointer in the pending list, gone.\<close>

definition cancel_entry :: "eid \<Rightarrow> service \<Rightarrow> service" where
  "cancel_entry e sv =
     (let sv1 = mark_invalid e sv
      in sv1\<lparr>timeoutQueue := dq_remove e (timeoutQueue sv1),
             pendingEntries := remove1 e (pendingEntries sv1)\<rparr>)"

text \<open>The entries exist, are kept alive by the pending list, and belong to the state.\<close>

definition timers_of :: "service \<Rightarrow> sid \<Rightarrow> eid list \<Rightarrow> bool" where
  "timers_of sv s es \<longleftrightarrow> distinct es \<and>
     (\<forall>e \<in> set es. e \<in> set (pendingEntries sv) \<and> e < length (entries sv) \<and> e_state (entries sv ! e) = s)"

lemma mark_invalid_simps [simp]:
  "pendingEntries (mark_invalid e sv) = pendingEntries sv"
  "timeoutQueue (mark_invalid e sv) = timeoutQueue sv"
  "tasks (mark_invalid e sv) = tasks sv" "held (mark_invalid e sv) = held sv"
  "length (entries (mark_invalid e sv)) = length (entries sv)"
  "running (mark_invalid e sv) = running sv" "clock (mark_invalid e sv) = clock sv"
  "idCounter (mark_invalid e sv) = idCounter sv" "locals (mark_invalid e sv) = locals sv"
  "pool_shutdown (mark_invalid e sv) = pool_shutdown sv"
  by (simp_all add: mark_invalid_def)

lemma mark_invalid_twice [simp]: "mark_invalid e (mark_invalid e sv) = mark_invalid e sv"
  by (cases "e < length (entries sv)") (simp_all add: mark_invalid_def list_update_beyond)

lemma e_state_mark_invalid [simp]: "e_state (entries (mark_invalid e sv) ! x) = e_state (entries sv ! x)"
  by (cases "e < length (entries sv)") (auto simp: mark_invalid_def nth_list_update list_update_beyond)

lemma cancel_entry_simps [simp]:
  "pendingEntries (cancel_entry e sv) = remove1 e (pendingEntries sv)"
  "length (entries (cancel_entry e sv)) = length (entries sv)"
  "e_state (entries (cancel_entry e sv) ! x) = e_state (entries sv ! x)"
  "running (cancel_entry e sv) = running sv" "clock (cancel_entry e sv) = clock sv"
  "tasks (cancel_entry e sv) = tasks sv" "held (cancel_entry e sv) = held sv"
  "timeoutQueue (cancel_entry e sv) = dq_remove e (timeoutQueue sv)"
  "idCounter (cancel_entry e sv) = idCounter sv" "locals (cancel_entry e sv) = locals sv"
  "pool_shutdown (cancel_entry e sv) = pool_shutdown sv"
  by (simp_all add: cancel_entry_def Let_def)

lemma timers_of_cancel:
  assumes "timers_of sv s es" "e \<notin> set es"
  shows "timers_of (cancel_entry e sv) s es"
proof -
  have "x \<noteq> e" if "x \<in> set es" for x using assms(2) that by blast
  then show ?thesis using assms(1) unfolding timers_of_def by simp
qed

definition cancel_all :: "eid list \<Rightarrow> service \<Rightarrow> service" where
  "cancel_all es = fold cancel_entry es"

lemma cancel_all_simps [simp]:
  "cancel_all [] sv = sv" "cancel_all (e # es) sv = cancel_all es (cancel_entry e sv)"
  by (simp_all add: cancel_all_def)

lemma cancel_all_frame [simp]:
  "length (entries (cancel_all es sv)) = length (entries sv)"
  "e_state (entries (cancel_all es sv) ! x) = e_state (entries sv ! x)"
  "running (cancel_all es sv) = running sv" "clock (cancel_all es sv) = clock sv"
  "tasks (cancel_all es sv) = tasks sv" "held (cancel_all es sv) = held sv"
  "idCounter (cancel_all es sv) = idCounter sv" "locals (cancel_all es sv) = locals sv"
  "pool_shutdown (cancel_all es sv) = pool_shutdown sv"
  by (induction es arbitrary: sv) simp_all

lemma timers_of_cancel_all:
  "timers_of sv s es \<Longrightarrow> set es \<inter> set ds = {} \<Longrightarrow> timers_of (cancel_all ds sv) s es"
  by (induction ds arbitrary: sv) (auto intro: timers_of_cancel)

text \<open>The loop of \<open>State::deactivate\<close> over live timers.\<close>

lemma cancel_loop:
  assumes "timers_of (rt_sv r) s es"
  shows "for_each es (\<lambda>e.
      mbind (mvalid (\<lambda>r. entry_alive (rt_sv r) e)) (\<lambda>_.
      mbind (mmod (upd_sv (mark_invalid e))) (\<lambda>_.
      cancelTimeout (Some e)))) r = Ret () (upd_sv (cancel_all es) r)"
  using assms
proof (induction es arbitrary: r)
  case Nil
  then show ?case by (simp add: upd_sv_def)
next
  case (Cons e es)
  have e: "e \<in> set (pendingEntries (rt_sv r))" using Cons.prems by (simp add: timers_of_def)
  have "timers_of (rt_sv (upd_sv (cancel_entry e) r)) s es"
    using Cons.prems timers_of_cancel[of "rt_sv r" s es e] by (simp add: timers_of_def)
  note IH = Cons.IH[OF this]
  have "cancelTimeout (Some e) (upd_sv (mark_invalid e) r) = Ret () (upd_sv (cancel_entry e) r)"
    using e by (simp add: cancelTimeout_def mbind_def entry_alive_def upd_sv_def cancel_entry_def Let_def)
  then show ?case using e IH by (simp add: mbind_def entry_alive_def upd_sv_def comp_def)
qed

text \<open>One timeout transition in \<open>State::activate\<close>.\<close>

definition arm_timer :: "'e chart \<Rightarrow> sid \<Rightarrow> pref \<Rightarrow> tid \<Rightarrow> 'e rt \<Rightarrow> 'e rt" where
  "arm_timer ch s p t r =
     (case tr_event (trans ch t) of
        Some ev \<Rightarrow>
          if is_timeout ev \<and> running (rt_sv r) then
            updData s (\<lambda>d. d\<lparr>timeoutEvents := timeoutEvents d @ [length (entries (rt_sv r))]\<rparr>)
              (upd_sv (\<lambda>sv. snd (enqueueTimeout s (md_id (rt_md r)) ev p (event_timeout ev) sv)) r)
          else r
      | None \<Rightarrow> r)"

lemma enqueueTimeout_running:
  "running sv \<Longrightarrow> fst (enqueueTimeout s md ev p ms sv) = Some (length (entries sv))"
  "\<not> running sv \<Longrightarrow> enqueueTimeout s md ev p ms sv = (None, sv)"
  by (simp_all add: enqueueTimeout_def new_entry_def Let_def)

lemma schedule_timeout_step: "schedule_timeout ch s p t r = Ret () (arm_timer ch s p t r)"
proof (cases "tr_event (trans ch t)")
  case (Some ev)
  let ?q = "enqueueTimeout s (md_id (rt_md r)) ev p (event_timeout ev) (rt_sv r)"
  obtain e sv where q: "?q = (e, sv)" by fastforce
  show ?thesis
  proof (cases "running (rt_sv r)")
    case True
    then have e: "e = Some (length (entries (rt_sv r)))"
      using enqueueTimeout_running(1)[of "rt_sv r" s "md_id (rt_md r)" ev p "event_timeout ev"] q by simp
    have sv: "upd_sv (\<lambda>sv. snd (enqueueTimeout s (md_id (rt_md r)) ev p (event_timeout ev) sv)) r =
        upd_sv (\<lambda>_. sv) r"
      using q by (simp add: upd_sv_def)
    show ?thesis
      using Some q e True by (simp add: schedule_timeout_def arm_timer_def mbind_def sv)
  next
    case False
    then have "e = None" "sv = rt_sv r" using q by (simp_all add: enqueueTimeout_running)
    moreover have "upd_sv (\<lambda>_. rt_sv r) r = r" by (simp add: upd_sv_def)
    ultimately show ?thesis
      using Some q False by (simp add: schedule_timeout_def arm_timer_def mbind_def)
  qed
qed (simp add: schedule_timeout_def arm_timer_def)

definition arm_timers :: "'e chart \<Rightarrow> sid \<Rightarrow> pref \<Rightarrow> 'e rt \<Rightarrow> 'e rt" where
  "arm_timers ch s p r =
     (if st_statechart (obj ch s) = None then r else fold (arm_timer ch s p) (transitions (obj ch s)) r)"

lemma schedule_loop: "for_each ts (schedule_timeout ch s p) r = Ret () (fold (arm_timer ch s p) ts r)"
  by (induction ts arbitrary: r) (simp_all add: mbind_def schedule_timeout_step)

section \<open>State::activate and State::deactivate\<close>

lemma State_activate_step:
  "State_activate ch s p r =
     (if isActive r s then Ret False r
      else mbind (mcall (entryAction (obj ch s)) p) (\<lambda>_.
           mbind (mcall (doAction (obj ch s)) p) (\<lambda>_. mret True))
             (arm_timers ch s p (activateData ch s r)))"
  by (simp add: State_activate_def mbind_def schedule_loop arm_timers_def)

lemma State_deactivate_step:
  assumes "\<And>d. getData r s = Some d \<Longrightarrow> timers_of (rt_sv r) s (timeoutEvents d)"
    and "st_statechart (obj ch s) \<noteq> None"
  shows "State_deactivate ch s p r =
     (case getData r s of
        None \<Rightarrow> Ret () r
      | Some d \<Rightarrow>
          if rd_active d then
            mcall (exitAction (obj ch s)) p
              (deactivateData ch s (upd_sv (cancel_all (timeoutEvents d)) r))
          else Ret () r)"
proof (cases "getData r s")
  case None
  then show ?thesis by (simp add: State_deactivate_def mbind_def isActive_def)
next
  case (Some d)
  obtain c where "st_statechart (obj ch s) = Some c" using assms(2) by blast
  then show ?thesis
    using cancel_loop[OF assms(1)[OF Some]] Some
    by (simp add: State_deactivate_def mbind_def isActive_def split: outcome.split)
qed

section \<open>The effect on the data\<close>

lemma getData_arm_timer:
  "getData (arm_timer ch s p t r) x =
     (if x = s then map_option (\<lambda>d. d\<lparr>timeoutEvents := timeoutEvents d @
        (if (\<exists>ev. tr_event (trans ch t) = Some ev \<and> is_timeout ev) \<and> running (rt_sv r)
         then [length (entries (rt_sv r))] else [])\<rparr>) (getData r s)
      else getData r x)"
  by (cases "getData r s") (auto simp: arm_timer_def split: option.split)

text \<open>Only the list of timers of the state itself changes.\<close>

definition but_timers :: "runtimedata option \<Rightarrow> runtimedata option" where
  "but_timers = map_option (\<lambda>d. d\<lparr>timeoutEvents := []\<rparr>)"

lemma getData_arm_timers:
  "x \<noteq> s \<Longrightarrow> getData (arm_timers ch s p r) x = getData r x"
  "but_timers (getData (arm_timers ch s p r) x) = but_timers (getData r x)"
proof -
  have "(x \<noteq> s \<longrightarrow> getData (fold (arm_timer ch s p) ts r) x = getData r x) \<and>
      but_timers (getData (fold (arm_timer ch s p) ts r) x) = but_timers (getData r x)" for ts
    by (induction ts arbitrary: r)
      (auto simp: getData_arm_timer but_timers_def option.map_comp comp_def)
  then show "x \<noteq> s \<Longrightarrow> getData (arm_timers ch s p r) x = getData r x"
    "but_timers (getData (arm_timers ch s p r) x) = but_timers (getData r x)"
    by (auto simp: arm_timers_def)
qed

end
