(* ===== verification/Building.thy ===== *)
theory Building
  imports Structure
begin

text \<open>
  Every chart a client can build is well-formed: the building operations of theory \<open>Chart\<close> as
  the rules of an inductive predicate, and the preservation of \<open>wf_chart\<close> by each.  The
  premises say what the C++ types say: a pointer argument points to a state of this chart, a parent
  is a \<open>Context\<close>.
\<close>

fun ctor_ok :: "'e chart \<Rightarrow> 'e ctor \<Rightarrow> bool" where
  "ctor_ok ch (CCondition _ t e) = (ptr_ok ch t \<and> ptr_ok ch e)"
| "ctor_ok ch _ = True"

inductive built :: "'e chart \<Rightarrow> bool" where
  new: "built (new_chart nm ueq)"
| create: "built ch \<Longrightarrow> p < n_states ch \<Longrightarrow> is_context (kind_of ch p) \<Longrightarrow> ctor_ok ch c \<Longrightarrow>
    create nm (Some p) c ch = Inr (ch', s) \<Longrightarrow> built ch'"
| transition: "built ch \<Longrightarrow> ptr_ok ch a \<Longrightarrow> ptr_ok ch b \<Longrightarrow>
    built (fst (createTransition a b ev g act ch))"
| internal: "built ch \<Longrightarrow> ptr_ok ch a \<Longrightarrow> built (fst (createInternalTransition a ev g act ch))"
| event: "built ch \<Longrightarrow> built (fst (createEvent ev ch))"
| entry_action: "built ch \<Longrightarrow> s < n_states ch \<Longrightarrow> built (setEntryAction s act ch)"
| do_action: "built ch \<Longrightarrow> s < n_states ch \<Longrightarrow> built (setDoAction s act ch)"
| exit_action: "built ch \<Longrightarrow> s < n_states ch \<Longrightarrow> built (setExitAction s act ch)"
| name: "built ch \<Longrightarrow> s < n_states ch \<Longrightarrow> built (setName s nm ch)"
| threshold: "built ch \<Longrightarrow> built (setInfiniteLoopThreshold n ch)"

section \<open>Frames of the elementary updates\<close>

lemma upd_obj_simps [simp]:
  "n_states (upd_obj s f ch) = n_states ch"
  "ownedTransitions (upd_obj s f ch) = ownedTransitions ch"
  "stateNames (upd_obj s f ch) = stateNames ch"
  "loopThreshold (upd_obj s f ch) = loopThreshold ch"
  by (simp_all add: upd_obj_def)

lemma obj_upd_obj:
  "obj (upd_obj s f ch) x = (if x = s \<and> s < n_states ch then f (obj ch s) else obj ch x)"
  by (cases "s < n_states ch") (auto simp: upd_obj_def nth_list_update list_update_beyond)

lemma push_state_simps [simp]:
  "n_states (push_state ob ch) = Suc (n_states ch)"
  "ownedTransitions (push_state ob ch) = ownedTransitions ch"
  "stateNames (push_state ob ch) = stateNames ch"
  "loopThreshold (push_state ob ch) = loopThreshold ch"
  by (simp_all add: push_state_def)

lemma obj_push_state:
  "x \<le> n_states ch \<Longrightarrow> obj (push_state ob ch) x = (if x = n_states ch then ob else obj ch x)"
  by (auto simp: push_state_def nth_append)

text \<open>The fields of a state that only its construction and that of its children set.\<close>

definition same_shape :: "'e state_obj \<Rightarrow> 'e state_obj \<Rightarrow> bool" where
  "same_shape a b \<longleftrightarrow> st_kind a = st_kind b \<and> st_context a = st_context b \<and>
     st_statechart a = st_statechart b \<and> startState a = startState b \<and> history a = history b \<and>
     regions a = regions b"

definition shape_ext :: "'e chart \<Rightarrow> 'e chart \<Rightarrow> bool" where
  "shape_ext ch ch' \<longleftrightarrow> n_states ch' = n_states ch \<and>
     (\<forall>s < n_states ch. same_shape (obj ch' s) (obj ch s)) \<and> stateNames ch' = stateNames ch"

lemma shape_ext_refl [simp]: "shape_ext ch ch"
  by (simp add: shape_ext_def same_shape_def)

lemma shape_ext_trans: "shape_ext a b \<Longrightarrow> shape_ext b c \<Longrightarrow> shape_ext a c"
  by (auto simp: shape_ext_def same_shape_def)

lemma shape_ext_upd_obj:
  "(\<And>ob. same_shape (f ob) ob) \<Longrightarrow> shape_ext ch (upd_obj s f ch)"
  by (auto simp: shape_ext_def obj_upd_obj) (auto simp: same_shape_def)

lemma shape_ext_tree: "shape_ext ch ch' \<Longrightarrow> tree_ext ch ch'"
  by (simp add: shape_ext_def tree_ext_def same_shape_def)

lemma shape_extD:
  assumes "shape_ext ch ch'"
  shows "n_states ch' = n_states ch" "stateNames ch' = stateNames ch"
    and "s < n_states ch \<Longrightarrow> kind_of ch' s = kind_of ch s"
    and "s < n_states ch \<Longrightarrow> parent_of ch' s = parent_of ch s"
    and "s < n_states ch \<Longrightarrow> st_statechart (obj ch' s) = st_statechart (obj ch s)"
    and "s < n_states ch \<Longrightarrow> startState (obj ch' s) = startState (obj ch s)"
    and "s < n_states ch \<Longrightarrow> history (obj ch' s) = history (obj ch s)"
    and "s < n_states ch \<Longrightarrow> regions (obj ch' s) = regions (obj ch s)"
  using assms by (simp_all add: shape_ext_def same_shape_def)

lemma shape_ext_wf_tree:
  assumes ext: "shape_ext ch ch'" and wf: "wf_tree ch"
  shows "wf_tree ch'"
proof -
  have "\<exists>p < s. parent_of ch' s = Some p \<and> is_context (kind_of ch' p)"
    if s: "s < n_states ch" "0 < s" for s
  proof -
    obtain p where "parent_of ch s = Some p" "p < s" "is_context (kind_of ch p)"
      by (rule wf_parent_ex[OF wf s])
    then show ?thesis using s ext by (auto simp: shape_extD)
  qed
  moreover have "0 < n_states ch" using wf by (simp add: wf_tree_def)
  ultimately show ?thesis
    using wf unfolding wf_tree_def by (simp add: shape_extD[OF ext])
qed

lemma shape_ext_wf_slots:
  assumes ext: "shape_ext ch ch'" and wf: "wf_slots ch"
  shows "wf_slots ch'"
  unfolding wf_slots_def
proof (intro allI impI)
  fix s assume s: "s < n_states ch'"
  then have "s < n_states ch" by (simp add: shape_extD[OF ext])
  note w = wf[unfolded wf_slots_def, rule_format, OF this]
  have eq: "x < n_states ch' \<and> P (kind_of ch' x) (parent_of ch' x) \<longleftrightarrow>
      x < n_states ch \<and> P (kind_of ch x) (parent_of ch x)" for x P
    by (auto simp: shape_extD[OF ext])
  show "(\<forall>x. startState (obj ch' s) = Some x \<longleftrightarrow>
           x < n_states ch' \<and> kind_of ch' x = Pseudo Start \<and> parent_of ch' x = Some s) \<and>
        (\<forall>x. history (obj ch' s) = Some x \<longleftrightarrow>
           x < n_states ch' \<and> is_history (kind_of ch' x) \<and> parent_of ch' x = Some s) \<and>
        (\<forall>h. h \<in> set (regions (obj ch' s)) \<longleftrightarrow>
           h < n_states ch' \<and> kind_of ch' h = Hierarchical \<and> parent_of ch' h = Some s \<and>
           kind_of ch' s = Concurrent) \<and>
        (history (obj ch' s) \<noteq> None \<longrightarrow> kind_of ch' s = Hierarchical) \<and>
        distinct (regions (obj ch' s))"
    using w \<open>s < n_states ch\<close> eq[where P = "\<lambda>k p. k = Pseudo Start \<and> p = Some s"]
      eq[where P = "\<lambda>k p. is_history k \<and> p = Some s"]
      eq[where P = "\<lambda>k p. k = Hierarchical \<and> p = Some s \<and> kind_of ch s = Concurrent"]
    by (simp add: shape_extD[OF ext])
qed

lemma wf_names_cong:
  "stateNames ch' = stateNames ch \<Longrightarrow> n_states ch' = n_states ch \<Longrightarrow> wf_names ch' = wf_names ch"
  by (simp only: wf_names_def)

lemma shape_ext_wf_names: "shape_ext ch ch' \<Longrightarrow> wf_names ch \<Longrightarrow> wf_names ch'"
  using wf_names_cong shape_extD(1,2) by metis

section \<open>Transitions\<close>

lemma shape_ext_addTransition: "shape_ext ch (addTransition s t ch)"
  by (auto simp: addTransition_def same_shape_def intro: shape_ext_upd_obj split: option.split)

lemma shape_ext_addIncoming: "shape_ext ch (addIncomingTransition s t ch)"
  by (auto simp: addIncomingTransition_def same_shape_def intro: shape_ext_upd_obj split: option.split)

definition push_trans :: "'e trans \<Rightarrow> 'e chart \<Rightarrow> 'e chart" where
  "push_trans t ch = ch\<lparr>ownedTransitions := ownedTransitions ch @ [t]\<rparr>"

lemma shape_ext_push_trans: "shape_ext ch (push_trans t ch)"
  by (simp add: shape_ext_def push_trans_def same_shape_def)

text \<open>The chart after \<open>createTransition\<close>, as three updates.\<close>

definition register_source :: "sid option \<Rightarrow> tid \<Rightarrow> 'e chart \<Rightarrow> 'e chart" where
  "register_source a t ch = (case a of None \<Rightarrow> ch | Some s \<Rightarrow> addTransition s (Some t) ch)"

definition register_target :: "sid option \<Rightarrow> tid \<Rightarrow> 'e chart \<Rightarrow> 'e chart" where
  "register_target b t ch =
     (case b of
        None \<Rightarrow> ch
      | Some e \<Rightarrow> if kind_of ch e = Pseudo Join then addIncomingTransition e (Some t) ch else ch)"

definition new_trans ::
  "sid option \<Rightarrow> sid option \<Rightarrow> event option \<Rightarrow> 'e guard option \<Rightarrow> 'e action option \<Rightarrow>
   'e chart \<Rightarrow> 'e trans"
where
  "new_trans a b ev g act ch =
     \<lparr>tr_internal = False, tr_event = ev, tr_guard = g, tr_action = act,
      tr_deactivate = fst (calculateStateSet ch a b), tr_activate = snd (calculateStateSet ch a b)\<rparr>"

lemma kind_addTransition: "kind_of (addTransition s t ch) x = kind_of ch x"
  by (auto simp: addTransition_def obj_upd_obj split: option.split)

lemma createTransition_steps:
  "fst (createTransition a b ev g act ch) =
     register_target b (length (ownedTransitions ch))
       (register_source a (length (ownedTransitions ch))
         (push_trans (new_trans a b ev g act ch) ch))"
  "snd (createTransition a b ev g act ch) = length (ownedTransitions ch)"
  by (auto simp: createTransition_def Let_def register_source_def register_target_def
      push_trans_def new_trans_def kind_addTransition split: option.split)

lemma shape_ext_createTransition: "shape_ext ch (fst (createTransition a b ev g act ch))"
proof -
  have "shape_ext c (register_source a t c)" "shape_ext c (register_target b t c)" for c t
    by (auto simp: register_source_def register_target_def shape_ext_addTransition
        shape_ext_addIncoming split: option.split)
  then show ?thesis
    unfolding createTransition_steps using shape_ext_push_trans shape_ext_trans by metis
qed

lemma createTransition_shape [simp]:
  "n_states (fst (createTransition a b ev g act ch)) = n_states ch"
  "stateNames (fst (createTransition a b ev g act ch)) = stateNames ch"
  by (simp_all add: shape_extD(1,2)[OF shape_ext_createTransition])

text \<open>A transition the source state's constructor call registers starts in that state.\<close>

definition pointers_ok :: "'e trans list \<Rightarrow> 'e chart \<Rightarrow> bool" where
  "pointers_ok ts ch \<longleftrightarrow>
     (\<forall>s < n_states ch.
        (\<forall>t \<in> set (incoming (obj ch s)). t < length ts) \<and>
        (\<forall>t \<in> set (transitions (obj ch s)). t < length ts \<and> lists_ok ch (\<lambda>a. a = Some s) (ts ! t)))"

lemma wf_transitions_alt:
  "wf_transitions ch \<longleftrightarrow> pointers_ok (ownedTransitions ch) ch \<and>
     (\<forall>t \<in> set (ownedTransitions ch). lists_ok ch (\<lambda>_. True) t)"
  by (simp add: wf_transitions_def pointers_ok_def)

lemma lists_ok_ext:
  assumes "tree_ext ch ch'" "wf_tree ch" "wf_tree ch'" "lists_ok ch P t"
  shows "lists_ok ch' P t"
proof -
  have "calculateStateSet ch' a b = calculateStateSet ch a b" "ptr_ok ch' a" "ptr_ok ch' b"
    if "ptr_ok ch a" "ptr_ok ch b" for a b
    using that tree_ext_calculate[OF assms(1-3), of a b] assms(1)
    by (fastforce simp: ptr_ok_def tree_ext_def)+
  then show ?thesis using assms(4) unfolding lists_ok_def by (auto split: if_splits) metis
qed

lemma pointers_ok_ext:
  assumes "shape_ext ch ch'" "wf_tree ch" "pointers_ok ts ch"
    and "\<And>s. s < n_states ch \<Longrightarrow> set (transitions (obj ch' s)) \<subseteq> set (transitions (obj ch s))"
    and "\<And>s. s < n_states ch \<Longrightarrow> set (incoming (obj ch' s)) \<subseteq> set (incoming (obj ch s))"
  shows "pointers_ok ts ch'"
  using assms(3,4,5) lists_ok_ext[OF shape_ext_tree[OF assms(1)] assms(2) shape_ext_wf_tree[OF assms(1,2)]]
  unfolding pointers_ok_def by (simp add: shape_extD(1)[OF assms(1)]) blast

lemma pointers_ok_snoc: "pointers_ok ts ch \<Longrightarrow> pointers_ok (ts @ [t]) ch"
  by (fastforce simp: pointers_ok_def nth_append)

lemma shape_ext_register:
  "shape_ext ch (register_source a t ch)" "shape_ext ch (register_target b t ch)"
  by (auto simp: register_source_def register_target_def shape_ext_addTransition
      shape_ext_addIncoming split: option.split)

lemma register_source_obj:
  "set (transitions (obj (register_source a t ch) s)) =
     (if a = Some s \<and> s < n_states ch then insert t (set (transitions (obj ch s)))
      else set (transitions (obj ch s)))"
  "incoming (obj (register_source a t ch) s) = incoming (obj ch s)"
  by (auto simp: register_source_def addTransition_def obj_upd_obj split: option.split)

lemma register_target_obj:
  "transitions (obj (register_target b t ch) s) = transitions (obj ch s)"
  "set (incoming (obj (register_target b t ch) s)) \<subseteq> insert t (set (incoming (obj ch s)))"
  by (auto simp: register_target_def addIncomingTransition_def obj_upd_obj split: option.split)

lemma pointers_ok_register:
  assumes "pointers_ok ts ch" "wf_tree ch" "t < length ts"
  shows "(\<And>s. a = Some s \<Longrightarrow> lists_ok ch (\<lambda>a. a = Some s) (ts ! t)) \<Longrightarrow>
      pointers_ok ts (register_source a t ch)"
    and "pointers_ok ts (register_target b t ch)"
proof -
  have l: "lists_ok (register_source a t ch) P x" "lists_ok (register_target b t ch) P x"
    if "lists_ok ch P x" for P x
    using that lists_ok_ext[OF shape_ext_tree] shape_ext_wf_tree shape_ext_register assms(2) by metis+
  show "(\<And>s. a = Some s \<Longrightarrow> lists_ok ch (\<lambda>a. a = Some s) (ts ! t)) \<Longrightarrow>
      pointers_ok ts (register_source a t ch)"
    using assms(1,3) l(1) unfolding pointers_ok_def
    by (auto simp: register_source_obj shape_extD(1)[OF shape_ext_register(1)])
  show "pointers_ok ts (register_target b t ch)"
    unfolding pointers_ok_def
  proof (intro allI impI conjI ballI)
    fix s x assume "s < n_states (register_target b t ch)"
    then have s: "s < n_states ch" by (simp add: shape_extD(1)[OF shape_ext_register(2)])
    show "x < length ts" if "x \<in> set (incoming (obj (register_target b t ch) s))"
      using that register_target_obj(2)[of b t ch s] assms(1,3) s unfolding pointers_ok_def by blast
    assume x: "x \<in> set (transitions (obj (register_target b t ch) s))"
    then show "x < length ts" using assms(1) s by (simp add: register_target_obj(1) pointers_ok_def)
    show "lists_ok (register_target b t ch) (\<lambda>a. a = Some s) (ts ! x)"
      by (rule l(2)) (use x assms(1) s in \<open>simp add: register_target_obj(1) pointers_ok_def\<close>)
  qed
qed

lemma push_trans_owned [simp]: "ownedTransitions (push_trans t ch) = ownedTransitions ch @ [t]"
  by (simp add: push_trans_def)

lemma register_ownedTransitions [simp]:
  "ownedTransitions (register_source a t ch) = ownedTransitions ch"
  "ownedTransitions (register_target b t ch) = ownedTransitions ch"
  by (auto simp: register_source_def register_target_def addTransition_def
      addIncomingTransition_def split: option.split)

lemma ownedTransitions_create:
  "ownedTransitions (fst (createTransition a b ev g act ch)) =
     ownedTransitions ch @ [new_trans a b ev g act ch]"
  by (simp add: createTransition_steps push_trans_def)

lemma loopThreshold_create [simp]:
  "loopThreshold (fst (createTransition a b ev g act ch)) = loopThreshold ch"
  by (auto simp: createTransition_steps register_source_def register_target_def addTransition_def
      addIncomingTransition_def push_trans_def split: option.split)

lemma wf_core_shape:
  assumes "wf_core ch" "shape_ext ch ch'" "0 < loopThreshold ch'"
    and "pointers_ok (ownedTransitions ch') ch'"
    and "\<forall>t \<in> set (ownedTransitions ch'). lists_ok ch' (\<lambda>_. True) t"
  shows "wf_core ch'"
  using assms shape_ext_wf_tree shape_ext_wf_slots
  by (auto simp: wf_core_def wf_transitions_alt)

lemma wf_createTransition:
  assumes wf: "wf_core ch" and "ptr_ok ch a" "ptr_ok ch b"
  shows "wf_core (fst (createTransition a b ev g act ch))" (is "wf_core ?ch'")
proof (rule wf_core_shape[OF wf shape_ext_createTransition])
  let ?t = "new_trans a b ev g act ch" and ?n = "length (ownedTransitions ch)"
  let ?ts = "ownedTransitions ch @ [?t]"
  have tree: "wf_tree ch" "wf_tree ?ch'"
    using wf shape_ext_wf_tree[OF shape_ext_createTransition] by (auto simp: wf_core_def)
  show "0 < loopThreshold ?ch'" using wf by (simp add: wf_core_def)
  have new: "lists_ok ch (\<lambda>x. x = a) ?t"
    using assms(2,3) by (auto simp: lists_ok_def new_trans_def)
  let ?ch1 = "push_trans ?t ch"
  have tree1: "wf_tree ?ch1" by (rule shape_ext_wf_tree[OF shape_ext_push_trans tree(1)])
  have "pointers_ok ?ts ch" using wf by (simp add: wf_core_def wf_transitions_alt pointers_ok_snoc)
  then have p1: "pointers_ok ?ts ?ch1"
    by (rule pointers_ok_ext[OF shape_ext_push_trans tree(1)]) (simp_all add: push_trans_def)
  have "lists_ok ?ch1 (\<lambda>x. x = Some s) (?ts ! ?n)" if "a = Some s" for s
    using lists_ok_ext[OF shape_ext_tree[OF shape_ext_push_trans] tree(1) tree1 new] that by simp
  then have "pointers_ok ?ts (register_source a ?n ?ch1)"
    by (intro pointers_ok_register(1)[OF p1 tree1]) simp_all
  then have "pointers_ok ?ts (register_target b ?n (register_source a ?n ?ch1))"
    by (rule pointers_ok_register(2)[OF _ shape_ext_wf_tree[OF shape_ext_register(1) tree1]]) simp
  then show "pointers_ok (ownedTransitions ?ch') ?ch'"
    by (simp add: createTransition_steps)
  have "lists_ok ch (\<lambda>_. True) ?t" using new by (auto simp: lists_ok_def)
  then show "\<forall>t \<in> set (ownedTransitions ?ch'). lists_ok ?ch' (\<lambda>_. True) t"
    using wf lists_ok_ext[OF shape_ext_tree[OF shape_ext_createTransition] tree]
    by (auto simp: ownedTransitions_create wf_core_def wf_transitions_alt)
qed

lemma createInternalTransition_chart:
  "fst (createInternalTransition a ev g act ch) =
     (let ch1 = fst (createTransition a a ev g act ch)
      in ch1\<lparr>ownedTransitions := ownedTransitions ch @
           [(new_trans a a ev g act ch)\<lparr>tr_internal := True, tr_deactivate := [], tr_activate := []\<rparr>]\<rparr>)"
proof -
  have "trans (fst (createTransition a a ev g act ch)) (length (ownedTransitions ch)) =
      new_trans a a ev g act ch"
    by (simp add: ownedTransitions_create)
  then show ?thesis
    using createTransition_steps(2)[of a a ev g act ch]
    by (simp add: createInternalTransition_def Let_def split_beta ownedTransitions_create)
qed

lemma wf_createInternalTransition:
  assumes wf: "wf_core ch" and "ptr_ok ch a"
  shows "wf_core (fst (createInternalTransition a ev g act ch))" (is "wf_core ?ch'")
proof -
  let ?ch1 = "fst (createTransition a a ev g act ch)"
  have wf1: "wf_core ?ch1" by (rule wf_createTransition[OF assms assms(2)])
  have same: "ownedStates ?ch' = ownedStates ?ch1" "stateNames ?ch' = stateNames ?ch1"
      "loopThreshold ?ch' = loopThreshold ?ch1"
      "length (ownedTransitions ?ch') = length (ownedTransitions ?ch1)"
    by (simp_all add: createInternalTransition_chart Let_def ownedTransitions_create)
  have shape: "shape_ext ?ch1 ?ch'" using same by (simp add: shape_ext_def same_shape_def)
  show ?thesis
  proof (rule wf_core_shape[OF wf1 shape])
    show "0 < loopThreshold ?ch'" using wf1 same by (simp add: wf_core_def)
    have tree: "wf_tree ?ch1" "wf_tree ?ch'"
      using wf1 shape_ext_wf_tree[OF shape] by (auto simp: wf_core_def)
    note ext = lists_ok_ext[OF shape_ext_tree[OF shape] tree]
    let ?n = "length (ownedTransitions ch)"
    have int: "tr_internal (trans ?ch' ?n)" "tr_deactivate (trans ?ch' ?n) = []"
        "tr_activate (trans ?ch' ?n) = []"
      by (simp_all add: createInternalTransition_chart Let_def)
    have old: "trans ?ch' t = trans ?ch1 t" if "t < ?n" for t
      using that by (simp add: createInternalTransition_chart Let_def ownedTransitions_create nth_append)
    have len: "length (ownedTransitions ?ch') = Suc ?n" "length (ownedTransitions ?ch1) = Suc ?n"
      by (simp_all add: createInternalTransition_chart Let_def ownedTransitions_create)
    have all: "lists_ok ?ch' P (trans ?ch' t)" if "lists_ok ?ch1 P (trans ?ch1 t)" "t < Suc ?n" for P t
      using that ext[OF that(1)] old[of t] int by (cases "t = ?n") (simp_all add: lists_ok_def)
    have "pointers_ok (ownedTransitions ?ch1) ?ch1"
      using wf1 by (simp add: wf_core_def wf_transitions_alt)
    then show "pointers_ok (ownedTransitions ?ch') ?ch'"
      unfolding pointers_ok_def len same(1) using all by auto
    have "\<forall>t < Suc ?n. lists_ok ?ch1 (\<lambda>_. True) (trans ?ch1 t)"
      using wf1 len(2) by (simp add: wf_core_def wf_transitions_alt)
    then show "\<forall>t \<in> set (ownedTransitions ?ch'). lists_ok ?ch' (\<lambda>_. True) t"
      using all by (auto simp: in_set_conv_nth len)
  qed
qed


lemma shape_ext_createInternalTransition:
  "shape_ext ch (fst (createInternalTransition a ev g act ch))"
proof -
  let ?ch1 = "fst (createTransition a a ev g act ch)"
  have "shape_ext ?ch1 (fst (createInternalTransition a ev g act ch))"
    by (simp add: createInternalTransition_chart Let_def shape_ext_def same_shape_def)
  then show ?thesis using shape_ext_createTransition shape_ext_trans by metis
qed

section \<open>New states\<close>

text \<open>
  \<open>ch'\<close> is \<open>ch\<close> with a new state below \<open>p\<close>, registered in the slots its class calls
  for.
\<close>

definition adds_child :: "'e chart \<Rightarrow> sid \<Rightarrow> kind \<Rightarrow> 'e chart \<Rightarrow> bool" where
  "adds_child ch p k ch' \<longleftrightarrow>
     n_states ch' = Suc (n_states ch) \<and> ownedTransitions ch' = ownedTransitions ch \<and>
     loopThreshold ch' = loopThreshold ch \<and> stateNames ch' = stateNames ch \<and>
     (\<exists>nm en d ex. obj ch' (n_states ch) = new_state k nm (Some p) (Some 0) en d ex) \<and>
     (\<forall>s < n_states ch. s \<noteq> p \<longrightarrow> obj ch' s = obj ch s) \<and>
     (let a = obj ch p; b = obj ch' p in
       st_kind b = st_kind a \<and> st_context b = st_context a \<and> st_statechart b = st_statechart a \<and>
       transitions b = transitions a \<and> incoming b = incoming a \<and>
       (k = Pseudo Start \<longrightarrow> startState a = None) \<and>
       startState b = (if k = Pseudo Start then Some (n_states ch) else startState a) \<and>
       (is_history k \<longrightarrow> history a = None \<and> st_kind a = Hierarchical) \<and>
       history b = (if is_history k then Some (n_states ch) else history a) \<and>
       regions b = regions a @
         (if k = Hierarchical \<and> st_kind a = Concurrent then [n_states ch] else []))"

lemma adds_child_tree:
  assumes "adds_child ch p k ch'" "p < n_states ch"
  shows "tree_ext ch ch'"
  using assms by (auto simp: adds_child_def tree_ext_def Let_def)

lemma adds_child_wf_tree:
  assumes add: "adds_child ch p k ch'" and wf: "wf_tree ch"
    and p: "p < n_states ch" "is_context (kind_of ch p)" and k: "k \<noteq> Chart"
  shows "wf_tree ch'"
proof -
  note ext = adds_child_tree[OF add p(1), unfolded tree_ext_def]
  have new: "kind_of ch' (n_states ch) = k" "parent_of ch' (n_states ch) = Some p"
      "st_statechart (obj ch' (n_states ch)) = Some 0" "n_states ch' = Suc (n_states ch)"
    using add by (auto simp: adds_child_def new_state_def)
  have "kind_of ch' s \<noteq> Chart \<and> (\<exists>q < s. parent_of ch' s = Some q \<and> is_context (kind_of ch' q))"
    if s: "s < n_states ch'" "0 < s" for s
  proof (cases "s = n_states ch")
    case True
    then show ?thesis using new p k ext by auto
  next
    case False
    then have s': "s < n_states ch" using s new(4) by simp
    obtain q where "parent_of ch s = Some q" "q < s" "is_context (kind_of ch q)"
      by (rule wf_parent_ex[OF wf s' s(2)])
    then show ?thesis using s' s ext wf_kind_Chart[OF wf s'] by auto
  qed
  moreover have "st_statechart (obj ch' s) = Some 0" if "s < n_states ch'" for s
    using that wf ext new by (cases "s = n_states ch") (auto simp: wf_tree_def)
  ultimately show ?thesis
    using wf ext new(4) by (auto simp: wf_tree_def)
qed

lemma adds_child_wf_slots:
  assumes add: "adds_child ch p k ch'" and wf: "wf_slots ch" "wf_tree ch" and p: "p < n_states ch"
  shows "wf_slots ch'"
proof -
  let ?n = "n_states ch"
  note ext = adds_child_tree[OF add p, unfolded tree_ext_def]
  have new: "kind_of ch' ?n = k" "parent_of ch' ?n = Some p" "n_states ch' = Suc ?n"
      "startState (obj ch' ?n) = None" "history (obj ch' ?n) = None" "regions (obj ch' ?n) = []"
    using add by (auto simp: adds_child_def new_state_def)
  have old: "x < ?n \<Longrightarrow> kind_of ch' x = kind_of ch x" "x < ?n \<Longrightarrow> parent_of ch' x = parent_of ch x" for x
    using ext by auto
  have no_child: "parent_of ch x \<noteq> Some ?n" if "x < ?n" for x
    using wf_parent[OF wf(2) that, of ?n] that by auto
  show ?thesis
    unfolding wf_slots_def
  proof (intro allI impI)
    fix s assume s: "s < n_states ch'"
    consider "s = ?n" | "s = p" | "s < ?n" "s \<noteq> p" using s new(3) by linarith
    then show "(\<forall>x. startState (obj ch' s) = Some x \<longleftrightarrow>
           x < n_states ch' \<and> kind_of ch' x = Pseudo Start \<and> parent_of ch' x = Some s) \<and>
        (\<forall>x. history (obj ch' s) = Some x \<longleftrightarrow>
           x < n_states ch' \<and> is_history (kind_of ch' x) \<and> parent_of ch' x = Some s) \<and>
        (\<forall>h. h \<in> set (regions (obj ch' s)) \<longleftrightarrow>
           h < n_states ch' \<and> kind_of ch' h = Hierarchical \<and> parent_of ch' h = Some s \<and>
           kind_of ch' s = Concurrent) \<and>
        (history (obj ch' s) \<noteq> None \<longrightarrow> kind_of ch' s = Hierarchical) \<and>
        distinct (regions (obj ch' s))"
    proof cases
      case 1
      have "parent_of ch' x \<noteq> Some ?n" if "x < Suc ?n" for x
        using no_child[of x] old[of x] new(2) p that by (cases "x = ?n") auto
      then show ?thesis using 1 new by auto
    next
      case 2
      note w = wf(1)[unfolded wf_slots_def, rule_format, OF p]
      have "?n \<notin> set (regions (obj ch p))" using w by auto
      note fresh = this
      have slots: "k = Pseudo Start \<Longrightarrow> startState (obj ch p) = None"
          "startState (obj ch' p) = (if k = Pseudo Start then Some ?n else startState (obj ch p))"
          "is_history k \<Longrightarrow> history (obj ch p) = None \<and> kind_of ch p = Hierarchical"
          "history (obj ch' p) = (if is_history k then Some ?n else history (obj ch p))"
          "regions (obj ch' p) = regions (obj ch p) @
            (if k = Hierarchical \<and> kind_of ch p = Concurrent then [?n] else [])"
        using add by (simp_all add: adds_child_def Let_def)
      have "startState (obj ch' p) = Some x \<longleftrightarrow>
          x < n_states ch' \<and> kind_of ch' x = Pseudo Start \<and> parent_of ch' x = Some p" for x
        using slots(1,2) new old[of x] w[THEN conjunct1, rule_format, of x]
        by (cases "x = ?n") (auto simp: less_Suc_eq)
      moreover have "history (obj ch' p) = Some x \<longleftrightarrow>
          x < n_states ch' \<and> is_history (kind_of ch' x) \<and> parent_of ch' x = Some p" for x
        using slots(3,4) new old[of x] w[THEN conjunct2, THEN conjunct1, rule_format, of x]
        by (cases "x = ?n") (auto simp: less_Suc_eq)
      moreover have "h \<in> set (regions (obj ch' p)) \<longleftrightarrow>
          h < n_states ch' \<and> kind_of ch' h = Hierarchical \<and> parent_of ch' h = Some p \<and>
          kind_of ch' p = Concurrent" for h
        using slots(5) fresh new old p w[THEN conjunct2, THEN conjunct2, THEN conjunct1, rule_format, of h]
        by (cases "h = ?n") (auto simp: less_Suc_eq)
      moreover have "history (obj ch' p) \<noteq> None \<longrightarrow> kind_of ch' p = Hierarchical"
        using slots(3,4) old(1)[OF p] w by (auto split: if_splits)
      moreover have "distinct (regions (obj ch' p))" using slots(5) w fresh by auto
      ultimately show ?thesis using 2 by blast
    next
      case 3
      note w = wf(1)[unfolded wf_slots_def, rule_format, OF 3(1)]
      have same: "obj ch' s = obj ch s" using add 3 by (simp add: adds_child_def)
      have child: "x < n_states ch' \<and> P (kind_of ch' x) \<and> parent_of ch' x = Some s \<longleftrightarrow>
          x < ?n \<and> P (kind_of ch x) \<and> parent_of ch x = Some s" for x P
        using 3 new old[of x] by (cases "x = ?n") (auto simp: less_Suc_eq)
      have "h \<in> set (regions (obj ch s)) \<longleftrightarrow>
          h < n_states ch' \<and> kind_of ch' h = Hierarchical \<and> parent_of ch' h = Some s \<and>
          kind_of ch' s = Concurrent" for h
        using w child[of h "\<lambda>k. k = Hierarchical"] old(1)[OF 3(1)]
        by (cases "kind_of ch s = Concurrent") auto
      then show ?thesis
        unfolding same old(1)[OF 3(1)] child[where P = "\<lambda>k. k = Pseudo Start"]
          child[where P = is_history]
        using w by simp
    qed
  qed
qed

lemma adds_child_wf_core:
  assumes add: "adds_child ch p k ch'" and wf: "wf_core ch"
    and p: "p < n_states ch" "is_context (kind_of ch p)" and k: "k \<noteq> Chart"
  shows "wf_core ch'"
proof -
  have tree: "wf_tree ch" "wf_tree ch'"
    using wf adds_child_wf_tree[OF add _ p k] by (auto simp: wf_core_def)
  note ext = lists_ok_ext[OF adds_child_tree[OF add p(1)] tree]
  have "transitions (obj ch' s) = transitions (obj ch s) \<and> incoming (obj ch' s) = incoming (obj ch s)"
    if "s < n_states ch" for s
    using add that by (cases "s = p") (auto simp: adds_child_def Let_def)
  moreover have "transitions (obj ch' (n_states ch)) = []" "incoming (obj ch' (n_states ch)) = []"
    using add by (auto simp: adds_child_def new_state_def)
  ultimately have "pointers_ok (ownedTransitions ch') ch'"
    using wf add ext
    by (auto simp: wf_core_def wf_transitions_alt pointers_ok_def adds_child_def less_Suc_eq)
  moreover have "\<forall>t \<in> set (ownedTransitions ch'). lists_ok ch' (\<lambda>_. True) t"
    using wf add ext by (auto simp: wf_core_def wf_transitions_alt adds_child_def)
  ultimately show ?thesis
    using wf add tree adds_child_wf_slots[OF add _ _ p(1)]
    by (auto simp: wf_core_def wf_transitions_alt adds_child_def)
qed

section \<open>The constructors\<close>

lemma adds_child_push:
  assumes "p < n_states ch" "\<not> (k = Hierarchical \<and> kind_of ch p = Concurrent)" "\<not> is_pseudo k"
  shows "adds_child ch p k (push_state (new_state k nm (Some p) (Some 0) en d ex) ch)"
  using assms by (cases k) (auto simp: adds_child_def obj_push_state Let_def)

lemma adds_child_hierarchical:
  assumes "p < n_states ch"
  shows "adds_child ch p Hierarchical (construct_hierarchical nm (Some p) en d ex ch)"
  using assms by (auto simp: construct_hierarchical_def Let_def adds_child_def addRegion_def
      obj_upd_obj obj_push_state new_state_def)

lemma adds_child_pseudo:
  assumes "p < n_states ch" "construct_pseudo nm (Some p) ty ch = Inr ch'"
  shows "adds_child ch p (Pseudo ty) ch'"
  using assms by (cases ty) (auto simp: construct_pseudo_def Let_def adds_child_def obj_upd_obj
      obj_push_state new_state_def split: if_splits)

lemma adds_child_tree_frame:
  assumes "adds_child ch p k ch'"
  shows "n_states ch' = Suc (n_states ch)" "stateNames ch' = stateNames ch"
    "ownedTransitions ch' = ownedTransitions ch" "loopThreshold ch' = loopThreshold ch"
  using assms unfolding adds_child_def by simp_all

lemma ptr_ok_mono: "ptr_ok ch x \<Longrightarrow> n_states ch \<le> n_states ch' \<Longrightarrow> ptr_ok ch' x"
  by (auto simp: ptr_ok_def)

lemma construct_wf_core:
  assumes wf: "wf_core ch" and p: "p < n_states ch" "is_context (kind_of ch p)"
    and ok: "ctor_ok ch c" and c: "construct c nm (Some p) ch = Inr ch'"
  shows "wf_core ch' \<and> n_states ch' = Suc (n_states ch) \<and> stateNames ch' = stateNames ch"
proof -
  have child: "wf_core c' \<and> n_states c' = Suc (n_states ch) \<and> stateNames c' = stateNames ch"
    if "adds_child ch p k c'" "k \<noteq> Chart" for k c'
    using adds_child_wf_core[OF that(1) wf p that(2)] that(1) by (simp add: adds_child_def)
  show ?thesis
  proof (cases c)
    case (CCondition g t e)
    with c obtain ch1 where ch1: "construct_pseudo nm (Some p) Junction ch = Inr ch1"
      and ch': "ch' = fst (createTransition (Some (n_states ch)) e None None None
          (fst (createTransition (Some (n_states ch)) t None g None ch1)))"
      by (auto simp: construct_condition_def Let_def split: sum.splits)
    note add = adds_child_pseudo[OF p(1) ch1]
    have wf1: "wf_core ch1" by (rule adds_child_wf_core[OF add wf p]) simp
    have n1: "n_states ch1 = Suc (n_states ch)" "stateNames ch1 = stateNames ch"
      using add by (auto simp: adds_child_def)
    let ?ch2 = "fst (createTransition (Some (n_states ch)) t None g None ch1)"
    have ok': "ptr_ok ch1 (Some (n_states ch))" "ptr_ok ch1 t" "ptr_ok ?ch2 (Some (n_states ch))"
        "ptr_ok ?ch2 e"
      using ok CCondition n1 by (auto simp: ptr_ok_def)
    have "wf_core ?ch2" by (rule wf_createTransition[OF wf1 ok'(1,2)])
    then have "wf_core ch'" unfolding ch' by (rule wf_createTransition[OF _ ok'(3,4)])
    then show ?thesis using n1 ch' by simp
  next
    case (CState en d ex)
    with c have "ch' = push_state (new_state Simple nm (Some p) (Some 0) en d ex) ch" by simp
    then show ?thesis using child[OF adds_child_push[OF p(1)], of Simple nm en d ex] by simp
  next
    case CFinal
    with c have "ch' = push_state (new_state Final nm (Some p) (Some 0) None None None) ch" by simp
    then show ?thesis using child[OF adds_child_push[OF p(1)], of Final nm None None None] by simp
  next
    case (CPseudo ty)
    with c have "construct_pseudo nm (Some p) ty ch = Inr ch'" by simp
    then show ?thesis using child[OF adds_child_pseudo[OF p(1)], of nm ty] by simp
  next
    case (CHierarchical en d ex)
    with c have "ch' = construct_hierarchical nm (Some p) en d ex ch" by simp
    then show ?thesis using child adds_child_hierarchical[OF p(1), of nm en d ex] by simp
  next
    case (CConcurrent en d ex)
    with c have "ch' = push_state (new_state Concurrent nm (Some p) (Some 0) en d ex) ch" by simp
    then show ?thesis using child[OF adds_child_push[OF p(1)], of Concurrent nm en d ex] by simp
  qed
qed

lemma wf_names_extend:
  assumes "wf_names ch" and fresh: "map_of (stateNames ch) nm = None"
    and n: "n_states ch' = Suc (n_states ch)" "0 < n_states ch"
    and names: "stateNames ch' = AList.update nm (n_states ch) (stateNames ch)"
  shows "wf_names ch'"
proof -
  let ?m = "map_of (stateNames ch)" and ?n = "n_states ch"
  have m: "map_of (stateNames ch') = ?m(nm \<mapsto> ?n)"
    by (rule ext) (simp add: names)
  have range: "0 < s \<and> s < ?n" if "?m k = Some s" for k s
    using assms(1) that unfolding wf_names_def by (meson ranI)
  have inj: "k = k'" if "?m k = Some s" "?m k' = Some s" for k k' s
    using assms(1) that unfolding wf_names_def inj_on_def by (metis domI)
  have "inj_on (?m(nm \<mapsto> ?n)) (dom (?m(nm \<mapsto> ?n)))"
  proof (rule inj_onI)
    fix k k' assume "k \<in> dom (?m(nm \<mapsto> ?n))" "k' \<in> dom (?m(nm \<mapsto> ?n))"
      and eq: "(?m(nm \<mapsto> ?n)) k = (?m(nm \<mapsto> ?n)) k'"
    then obtain s where "(?m(nm \<mapsto> ?n)) k = Some s" by (meson domD)
    with eq have s: "(?m(nm \<mapsto> ?n)) k = Some s" "(?m(nm \<mapsto> ?n)) k' = Some s" by metis+
    show "k = k'"
    proof (cases "s = ?n")
      case True
      have "k = nm" using s(1) range[of k s] True by (cases "k = nm") auto
      moreover have "k' = nm" using s(2) range[of k' s] True by (cases "k' = nm") auto
      ultimately show ?thesis by simp
    next
      case False
      then have "?m k = Some s" "?m k' = Some s" using s by (auto split: if_splits)
      then show ?thesis by (rule inj)
    qed
  qed
  moreover have "\<forall>s \<in> ran (?m(nm \<mapsto> ?n)). 0 < s \<and> s < Suc ?n"
  proof
    fix s assume "s \<in> ran (?m(nm \<mapsto> ?n))"
    then have "s = ?n \<or> s \<in> ran ?m" using fresh by auto
    moreover have "0 < s \<and> s < ?n" if "s \<in> ran ?m" using that range by (auto simp: ran_def)
    ultimately show "0 < s \<and> s < Suc ?n" using n(2) by auto
  qed
  moreover have "\<exists>k. (?m(nm \<mapsto> ?n)) k = Some s" if s: "0 < s" "s < Suc ?n" for s
  proof (cases "s = ?n")
    case False
    then obtain k where "?m k = Some s" using assms(1) s unfolding wf_names_def by (metis less_SucE)
    then show ?thesis using fresh by (intro exI[of _ k]) auto
  qed auto
  ultimately show ?thesis
    using assms(1) unfolding wf_names_def m n(1) by (simp add: names)
qed

text \<open>Only the states and the transitions matter for \<open>wf_core\<close>.\<close>

lemma walk_up_cong:
  "ownedStates ch' = ownedStates ch \<Longrightarrow> walk_up n ch' s acc = walk_up n ch s acc"
  by (induction n arbitrary: s acc) (simp_all split: option.split)

lemma calculateStateSet_cong:
  "ownedStates ch' = ownedStates ch \<Longrightarrow> calculateStateSet ch' = calculateStateSet ch"
  by (simp add: fun_eq_iff calculateStateSet_def path_to_def walk_up_cong[of ch' ch])

lemma wf_core_cong:
  assumes "ownedStates ch' = ownedStates ch" "ownedTransitions ch' = ownedTransitions ch"
    and "0 < loopThreshold ch'" "wf_core ch"
  shows "wf_core ch'"
proof -
  note eq = assms(1,2) calculateStateSet_cong[OF assms(1)]
  have "wf_tree ch' = wf_tree ch" by (simp only: wf_tree_def eq)
  moreover have "wf_slots ch' = wf_slots ch" by (simp only: wf_slots_def eq)
  moreover have "wf_transitions ch' = wf_transitions ch" by (simp only: wf_transitions_def lists_ok_def ptr_ok_def eq)
  ultimately show ?thesis using assms(3,4) by (simp only: wf_core_def)
qed

lemma create_wf:
  assumes wf: "wf_chart ch" and p: "p < n_states ch" "is_context (kind_of ch p)"
    and ok: "ctor_ok ch c" and cr: "create nm (Some p) c ch = Inr (ch', s)"
  shows "wf_chart ch'"
proof -
  from cr obtain ch1 where fresh: "map_of (stateNames ch) nm = None"
    and c: "construct c nm (Some p) ch = Inr ch1"
    and ch': "ch' = ch1\<lparr>stateNames := AList.update nm (n_states ch) (stateNames ch1)\<rparr>"
    by (auto simp: create_def split: if_splits sum.splits)
  note w = construct_wf_core[OF _ p ok c]
  have core: "wf_core ch1" "n_states ch1 = Suc (n_states ch)" "stateNames ch1 = stateNames ch"
    using w wf by (auto simp: wf_chart_def)
  have "wf_core ch'"
    by (rule wf_core_cong[OF _ _ _ core(1)]) (use core in \<open>simp_all add: ch' wf_core_def\<close>)
  moreover have "wf_names ch'"
    by (rule wf_names_extend[OF _ fresh]) (use wf core in \<open>auto simp: ch' wf_chart_def wf_core_def wf_tree_def\<close>)
  ultimately show ?thesis by (simp add: wf_chart_def)
qed

section \<open>Every built chart is well-formed\<close>

lemma wf_new_chart: "wf_chart (new_chart nm ueq)"
  by (auto simp: wf_chart_def wf_core_def wf_names_def wf_tree_def wf_slots_def
      wf_transitions_def new_chart_def new_state_def)

text \<open>Updates that keep the shape, the transitions and the pointers to them.\<close>

lemma wf_upd_obj:
  assumes wf: "wf_chart ch"
    and f: "\<And>ob. same_shape (f ob) ob \<and> transitions (f ob) = transitions ob \<and> incoming (f ob) = incoming ob"
  shows "wf_chart (upd_obj s f ch)"
proof -
  have shape: "shape_ext ch (upd_obj s f ch)" by (rule shape_ext_upd_obj) (simp add: f)
  have tree: "wf_tree ch" "wf_tree (upd_obj s f ch)"
    using wf shape_ext_wf_tree[OF shape] by (auto simp: wf_chart_def wf_core_def)
  have obj: "transitions (obj (upd_obj s f ch) x) = transitions (obj ch x)"
      "incoming (obj (upd_obj s f ch) x) = incoming (obj ch x)" for x
    by (simp_all add: obj_upd_obj f)
  have "pointers_ok (ownedTransitions ch) (upd_obj s f ch)"
    by (rule pointers_ok_ext[OF shape tree(1)])
      (use wf in \<open>simp_all add: obj wf_chart_def wf_core_def wf_transitions_alt\<close>)
  then have "wf_core (upd_obj s f ch)"
    using wf lists_ok_ext[OF shape_ext_tree[OF shape] tree]
    by (intro wf_core_shape[OF _ shape]) (auto simp: wf_chart_def wf_core_def wf_transitions_alt)
  then show ?thesis
    using wf wf_names_cong[of "upd_obj s f ch" ch] by (simp add: wf_chart_def)
qed

lemma built_wf: "built ch \<Longrightarrow> wf_chart ch"
proof (induction rule: built.induct)
  case (new nm ueq)
  show ?case by (rule wf_new_chart)
next
  case (create ch p c nm ch' s)
  then show ?case by (blast intro: create_wf)
next
  case (transition ch a b ev g act)
  then show ?case
    by (simp add: wf_chart_def wf_createTransition wf_names_cong[OF createTransition_shape(2,1)])
next
  case (internal ch a ev g act)
  then show ?case
    by (simp add: wf_chart_def wf_createInternalTransition
        shape_ext_wf_names[OF shape_ext_createInternalTransition])
next
  case (event ch ev)
  have "wf_core (fst (createEvent ev ch))"
    by (rule wf_core_cong[of _ ch]) (use event in \<open>simp_all add: createEvent_def wf_chart_def wf_core_def\<close>)
  then show ?case
    using event wf_names_cong[of "fst (createEvent ev ch)" ch] by (simp add: createEvent_def wf_chart_def)
next
  case (threshold ch n)
  have "wf_core (setInfiniteLoopThreshold n ch)"
    by (rule wf_core_cong[of _ ch])
      (use threshold in \<open>simp_all add: setInfiniteLoopThreshold_def wf_chart_def wf_core_def\<close>)
  then show ?case
    using threshold wf_names_cong[of "setInfiniteLoopThreshold n ch" ch]
    by (simp add: setInfiniteLoopThreshold_def wf_chart_def)
qed (auto simp: setEntryAction_def setDoAction_def setExitAction_def setName_def same_shape_def
    intro!: wf_upd_obj)

section \<open>The order of a state's transitions\<close>

definition guarded :: "'e chart \<Rightarrow> tid \<Rightarrow> bool" where
  "guarded ch t \<longleftrightarrow> tr_guard (trans ch t) \<noteq> None"

definition guards_first :: "'e chart \<Rightarrow> tid list \<Rightarrow> bool" where
  "guards_first ch ts \<longleftrightarrow>
     (\<exists>gs us. ts = rev gs @ us \<and> sorted_wrt (<) gs \<and> sorted_wrt (<) us \<and>
        list_all (guarded ch) gs \<and> list_all (\<lambda>t. \<not> guarded ch t) us)"

definition transitions_ordered :: "'e chart \<Rightarrow> bool" where
  "transitions_ordered ch \<longleftrightarrow>
     (\<forall>s < n_states ch. guards_first ch (transitions (obj ch s)) \<and>
        (\<forall>t \<in> set (transitions (obj ch s)). t < length (ownedTransitions ch)))"

lemma guards_first_Nil [simp]: "guards_first ch []"
  by (auto simp: guards_first_def)

lemma guards_first_cong:
  assumes "\<And>t. t \<in> set ts \<Longrightarrow> guarded ch' t = guarded ch t" "guards_first ch ts"
  shows "guards_first ch' ts"
proof -
  obtain gs us where ts: "ts = rev gs @ us" "sorted_wrt (<) gs" "sorted_wrt (<) us"
      "list_all (guarded ch) gs" "list_all (\<lambda>t. \<not> guarded ch t) us"
    using assms(2) by (auto simp: guards_first_def)
  have "list_all (guarded ch') gs" "list_all (\<lambda>t. \<not> guarded ch' t) us"
    using ts assms(1) by (auto simp: list_all_iff)
  then show ?thesis using ts by (auto simp: guards_first_def)
qed

lemma guards_first_insert:
  assumes "guards_first ch ts" "\<forall>x \<in> set ts. x < t"
  shows "guards_first ch (if guarded ch t then t # ts else ts @ [t])"
proof -
  obtain gs us where ts: "ts = rev gs @ us" "sorted_wrt (<) gs" "sorted_wrt (<) us"
      "list_all (guarded ch) gs" "list_all (\<lambda>t. \<not> guarded ch t) us"
    using assms(1) by (auto simp: guards_first_def)
  show ?thesis
  proof (cases "guarded ch t")
    case True
    have "t # ts = rev (gs @ [t]) @ us" using ts by simp
    moreover have "sorted_wrt (<) (gs @ [t])" "list_all (guarded ch) (gs @ [t])"
      using ts assms(2) True by (simp_all add: sorted_wrt_append)
    ultimately have "guards_first ch (t # ts)"
      unfolding guards_first_def using ts(3,5) by (intro exI[of _ "gs @ [t]"] exI[of _ us]) simp
    then show ?thesis using True by simp
  next
    case False
    have "ts @ [t] = rev gs @ (us @ [t])" using ts by simp
    moreover have "sorted_wrt (<) (us @ [t])" "list_all (\<lambda>t. \<not> guarded ch t) (us @ [t])"
      using ts assms(2) False by (simp_all add: sorted_wrt_append)
    ultimately have "guards_first ch (ts @ [t])"
      unfolding guards_first_def using ts(2,4) by (intro exI[of _ gs] exI[of _ "us @ [t]"]) simp
    then show ?thesis using False by simp
  qed
qed

lemma transitions_ordered_frame:
  assumes "transitions_ordered ch" "n_states ch \<le> n_states ch'"
    and "\<And>s. s < n_states ch \<Longrightarrow> transitions (obj ch' s) = transitions (obj ch s)"
    and "\<And>s. n_states ch \<le> s \<Longrightarrow> s < n_states ch' \<Longrightarrow> transitions (obj ch' s) = []"
    and "\<And>t. t < length (ownedTransitions ch) \<Longrightarrow> tr_guard (trans ch' t) = tr_guard (trans ch t)"
    and "length (ownedTransitions ch) \<le> length (ownedTransitions ch')"
  shows "transitions_ordered ch'"
  unfolding transitions_ordered_def
proof (intro allI impI)
  fix s assume s: "s < n_states ch'"
  show "guards_first ch' (transitions (obj ch' s)) \<and>
        (\<forall>t \<in> set (transitions (obj ch' s)). t < length (ownedTransitions ch'))"
  proof (cases "s < n_states ch")
    case True
    then have o: "guards_first ch (transitions (obj ch s))"
        "\<forall>t \<in> set (transitions (obj ch s)). t < length (ownedTransitions ch)"
      using assms(1) by (auto simp: transitions_ordered_def)
    then have "guards_first ch' (transitions (obj ch s))"
      by (intro guards_first_cong[OF _ o(1)]) (simp add: guarded_def assms(5))
    with o(2) assms(3)[OF True] assms(6) show ?thesis by auto
  qed (use s assms(4) in simp)
qed

lemma register_source_transitions:
  assumes "s < n_states ch"
  shows "transitions (obj (register_source a t ch) s) =
    (if a = Some s then if guarded ch t then t # transitions (obj ch s) else transitions (obj ch s) @ [t]
     else transitions (obj ch s))"
  using assms by (auto simp: register_source_def addTransition_def obj_upd_obj guarded_def split: option.split)

lemma transitions_ordered_createTransition:
  assumes "transitions_ordered ch"
  shows "transitions_ordered (fst (createTransition a b ev g act ch))" (is "transitions_ordered ?ch'")
  unfolding transitions_ordered_def
proof (intro allI impI)
  fix s assume "s < n_states ?ch'"
  then have s: "s < n_states ch" by simp
  let ?n = "length (ownedTransitions ch)" and ?ts = "transitions (obj ch s)"
  have o: "guards_first ch ?ts" "\<forall>t \<in> set ?ts. t < ?n"
    using assms s by (auto simp: transitions_ordered_def)
  have g: "guarded ?ch' t = guarded ch t" if "t < ?n" for t
    using that by (simp add: guarded_def ownedTransitions_create nth_append)
  then have o1: "guards_first ?ch' ?ts"
    using o(2) by (intro guards_first_cong[OF _ o(1)]) simp
  define ch1 where "ch1 = push_trans (new_trans a b ev g act ch) ch"
  have 1: "obj ch1 s = obj ch s" "n_states ch1 = n_states ch"
    by (simp_all add: ch1_def push_trans_def)
  have 2: "guarded ch1 ?n = guarded ?ch' ?n"
    by (simp add: ch1_def guarded_def ownedTransitions_create)
  have "transitions (obj ?ch' s) = transitions (obj (register_source a ?n ch1) s)"
    by (simp add: createTransition_steps register_target_obj ch1_def)
  then have "transitions (obj ?ch' s) =
      (if a = Some s then if guarded ?ch' ?n then ?n # ?ts else ?ts @ [?n] else ?ts)"
    using register_source_transitions[of s ch1 a ?n] s unfolding 1 2 by simp
  then show "guards_first ?ch' (transitions (obj ?ch' s)) \<and>
      (\<forall>t \<in> set (transitions (obj ?ch' s)). t < length (ownedTransitions ?ch'))"
    using o1 o(2) guards_first_insert[OF o1 o(2)] by (auto simp: ownedTransitions_create)
qed

lemma transitions_ordered_createInternal:
  assumes "transitions_ordered ch"
  shows "transitions_ordered (fst (createInternalTransition a ev g act ch))" (is "transitions_ordered ?ch'")
proof (rule transitions_ordered_frame[OF transitions_ordered_createTransition[OF assms, of a a ev g act]])
  let ?ch1 = "fst (createTransition a a ev g act ch)"
  show "n_states ?ch1 \<le> n_states ?ch'" "length (ownedTransitions ?ch1) \<le> length (ownedTransitions ?ch')"
    by (simp_all add: createInternalTransition_chart Let_def ownedTransitions_create)
  show "transitions (obj ?ch' s) = transitions (obj ?ch1 s)" for s
    by (simp add: createInternalTransition_chart Let_def)
  show "transitions (obj ?ch' s) = []" if "n_states ?ch1 \<le> s" "s < n_states ?ch'" for s
    using that by (simp add: createInternalTransition_chart Let_def)
  show "tr_guard (trans ?ch' t) = tr_guard (trans ?ch1 t)" if "t < length (ownedTransitions ?ch1)" for t
    using that by (simp add: createInternalTransition_chart Let_def ownedTransitions_create nth_append)
qed

lemma transitions_ordered_adds_child:
  assumes "transitions_ordered ch" "adds_child ch p k ch'"
  shows "transitions_ordered ch'"
proof (rule transitions_ordered_frame[OF assms(1)])
  note f = adds_child_tree_frame[OF assms(2)]
  show "n_states ch \<le> n_states ch'" "length (ownedTransitions ch) \<le> length (ownedTransitions ch')"
    by (simp_all add: f)
  show "tr_guard (trans ch' t) = tr_guard (trans ch t)" for t by (simp add: f)
  show "transitions (obj ch' s) = transitions (obj ch s)" if "s < n_states ch" for s
    using assms(2) that by (cases "s = p") (auto simp: adds_child_def Let_def)
  show "transitions (obj ch' s) = []" if "n_states ch \<le> s" "s < n_states ch'" for s
  proof -
    have "s = n_states ch" using that f(1) by simp
    then show ?thesis using assms(2) by (auto simp: adds_child_def new_state_def)
  qed
qed

text \<open>Every constructor adds one child, and a condition two transitions on top.\<close>

fun ctor_kind :: "'e ctor \<Rightarrow> kind" where
  "ctor_kind (CState _ _ _) = Simple"
| "ctor_kind CFinal = Final"
| "ctor_kind (CPseudo ty) = Pseudo ty"
| "ctor_kind (CCondition _ _ _) = Pseudo Junction"
| "ctor_kind (CHierarchical _ _ _) = Hierarchical"
| "ctor_kind (CConcurrent _ _ _) = Concurrent"

lemma construct_adds_child:
  assumes "p < n_states ch" "construct c nm (Some p) ch = Inr ch'"
  obtains ch1 where "adds_child ch p (ctor_kind c) ch1"
    and "st_name (obj ch1 (n_states ch)) = nm"
    and "ch' = (case c of
        CCondition g t e \<Rightarrow>
          fst (createTransition (Some (n_states ch)) e None None None
            (fst (createTransition (Some (n_states ch)) t None g None ch1)))
      | _ \<Rightarrow> ch1)"
proof (cases c)
  case (CCondition g t e)
  with assms(2) obtain ch1 where ch1: "construct_pseudo nm (Some p) Junction ch = Inr ch1"
    and ch': "ch' = fst (createTransition (Some (n_states ch)) e None None None
        (fst (createTransition (Some (n_states ch)) t None g None ch1)))"
    by (auto simp: construct_condition_def Let_def split: sum.splits)
  have "st_name (obj ch1 (n_states ch)) = nm"
    using ch1 by (auto simp: construct_pseudo_def Let_def obj_push_state new_state_def)
  then show ?thesis
    using that[of ch1] adds_child_pseudo[OF assms(1) ch1] CCondition ch' by simp
next
  case (CPseudo ty)
  with assms(2) have ch1: "construct_pseudo nm (Some p) ty ch = Inr ch'" by simp
  have "st_name (obj ch' (n_states ch)) = nm"
    using ch1 assms(1)
    by (cases ty) (auto simp: construct_pseudo_def Let_def obj_push_state obj_upd_obj new_state_def split: if_splits)
  then show ?thesis using that[of ch'] adds_child_pseudo[OF assms(1) ch1] CPseudo by simp
next
  case (CHierarchical en d ex)
  have "st_name (obj (construct_hierarchical nm (Some p) en d ex ch) (n_states ch)) = nm"
    using assms(1)
    by (auto simp: construct_hierarchical_def Let_def addRegion_def obj_push_state obj_upd_obj new_state_def)
  then show ?thesis
    using that[of ch'] adds_child_hierarchical[OF assms(1), of nm en d ex] CHierarchical assms(2) by simp
next
  case (CState en d ex)
  then show ?thesis
    using that[of ch'] assms adds_child_push[of p ch Simple nm en d ex]
    by (auto simp: obj_push_state new_state_def)
next
  case CFinal
  then show ?thesis
    using that[of ch'] assms adds_child_push[of p ch Final nm None None None]
    by (auto simp: obj_push_state new_state_def)
next
  case (CConcurrent en d ex)
  then show ?thesis
    using that[of ch'] assms adds_child_push[of p ch Concurrent nm en d ex]
    by (auto simp: obj_push_state new_state_def)
qed

lemma transitions_ordered_construct:
  assumes "transitions_ordered ch" "p < n_states ch" "construct c nm (Some p) ch = Inr ch'"
  shows "transitions_ordered ch'"
proof -
  obtain ch1 where "adds_child ch p (ctor_kind c) ch1"
    and ch': "ch' = (case c of
        CCondition g t e \<Rightarrow>
          fst (createTransition (Some (n_states ch)) e None None None
            (fst (createTransition (Some (n_states ch)) t None g None ch1)))
      | _ \<Rightarrow> ch1)"
    by (rule construct_adds_child[OF assms(2,3)])
  then have "transitions_ordered ch1" using assms(1) by (blast intro: transitions_ordered_adds_child)
  then show ?thesis
    unfolding ch' by (cases c) (simp_all add: transitions_ordered_createTransition)
qed

lemma transitions_ordered_upd_obj:
  assumes "transitions_ordered ch" "\<And>ob. transitions (f ob) = transitions ob"
  shows "transitions_ordered (upd_obj s f ch)"
  by (rule transitions_ordered_frame[OF assms(1)]) (auto simp: obj_upd_obj assms(2))

lemma create_parts:
  assumes "create nm parent c ch = Inr (ch', s)"
  obtains ch1 where "nm \<noteq> []" "parent \<noteq> None" "map_of (stateNames ch) nm = None"
    "construct c nm parent ch = Inr ch1" "s = n_states ch"
    "ch' = ch1\<lparr>stateNames := AList.update nm (n_states ch) (stateNames ch1)\<rparr>"
  using assms by (auto simp: create_def split: if_splits sum.splits)

lemma built_ordered: "built ch \<Longrightarrow> transitions_ordered ch"
proof (induction rule: built.induct)
  case (new nm ueq)
  show ?case by (simp add: transitions_ordered_def new_chart_def new_state_def)
next
  case (create ch p c nm ch' s)
  then obtain ch1 where "construct c nm (Some p) ch = Inr ch1"
    and ch': "ch' = ch1\<lparr>stateNames := AList.update nm (n_states ch) (stateNames ch1)\<rparr>"
    by (blast elim: create_parts)
  then have "transitions_ordered ch1" using create transitions_ordered_construct by blast
  then show ?case by (rule transitions_ordered_frame) (simp_all add: ch')
next
  case (transition ch a b ev g act)
  then show ?case by (simp add: transitions_ordered_createTransition)
next
  case (internal ch a ev g act)
  then show ?case by (simp add: transitions_ordered_createInternal)
next
  case (event ch ev)
  show ?case by (rule transitions_ordered_frame[OF event.IH]) (simp_all add: createEvent_def)
next
  case (threshold ch n)
  show ?case
    by (rule transitions_ordered_frame[OF threshold.IH]) (simp_all add: setInfiniteLoopThreshold_def)
qed (simp_all add: setEntryAction_def setDoAction_def setExitAction_def setName_def
    transitions_ordered_upd_obj)

section \<open>What the factory returns\<close>

lemma adds_child_new:
  assumes "adds_child ch p k ch1"
  shows "kind_of ch1 (n_states ch) = k" "parent_of ch1 (n_states ch) = Some p"
  using assms by (auto simp: adds_child_def new_state_def)

lemma construct_result:
  assumes "p < n_states ch" "construct c nm (Some p) ch = Inr ch'"
  shows "n_states ch' = Suc (n_states ch)" "stateNames ch' = stateNames ch"
    and "kind_of ch' (n_states ch) = ctor_kind c" "parent_of ch' (n_states ch) = Some p"
    and "tree_ext ch ch'"
proof -
  obtain ch1 where add: "adds_child ch p (ctor_kind c) ch1"
    and ch': "ch' = (case c of
        CCondition g t e \<Rightarrow>
          fst (createTransition (Some (n_states ch)) e None None None
            (fst (createTransition (Some (n_states ch)) t None g None ch1)))
      | _ \<Rightarrow> ch1)"
    by (rule construct_adds_child[OF assms])
  have ext: "shape_ext ch1 ch'"
    unfolding ch' using shape_ext_createTransition shape_ext_trans by (auto split: ctor.split) blast
  note n1 = adds_child_tree_frame[OF add]
  show "n_states ch' = Suc (n_states ch)" "stateNames ch' = stateNames ch"
    using shape_extD(1,2)[OF ext] n1 by simp_all
  show "kind_of ch' (n_states ch) = ctor_kind c" "parent_of ch' (n_states ch) = Some p"
    using shape_extD(3,4)[OF ext, of "n_states ch"] n1 adds_child_new[OF add] by simp_all
  show "tree_ext ch ch'"
    using adds_child_tree[OF add assms(1)] shape_ext_tree[OF ext] tree_ext_trans by blast
qed

lemma construct_fails_iff:
  "(\<exists>e. construct c nm (Some p) ch = Inl e) \<longleftrightarrow>
     c = CPseudo Start \<and> startState (obj ch p) \<noteq> None \<or>
     (c = CPseudo History \<or> c = CPseudo DeepHistory) \<and>
       (kind_of ch p \<noteq> Hierarchical \<or> history (obj ch p) \<noteq> None)"
proof (cases c)
  case (CPseudo ty)
  then show ?thesis by (cases ty) (auto simp: construct_pseudo_def Let_def)
qed (auto simp: construct_condition_def construct_pseudo_def Let_def)

end
