(* ===== verification/Invariants.thy ===== *)
theory Invariants
  imports Effects Building
begin

text \<open>
  The invariant of the runtime data, and that the elementary operations keep it.  It has two
  layers.  \<open>tidy\<close> holds for every chart: the pointers in the runtime data lead where they should
  and the timers a state remembers are live entries of its own.  \<open>config\<close> is the meaning of a state
  configuration: an active state has an active parent whose current state it is, so at most one
  child of a state is active (history pseudo-states, which stay active after they were restored,
  apart).
\<close>

section \<open>Descendants\<close>

text \<open>\<open>under ch a s\<close>: the state \<open>s\<close> is \<open>a\<close> or lies inside it.\<close>

inductive under :: "'e chart \<Rightarrow> sid \<Rightarrow> sid \<Rightarrow> bool" for ch a where
  refl [simp]: "under ch a a"
| step: "parent_of ch s = Some q \<Longrightarrow> under ch a q \<Longrightarrow> under ch a s"

inductive_cases underE: "under ch a s"

lemma under_trans: "under ch b s \<Longrightarrow> under ch a b \<Longrightarrow> under ch a s"
  by (induction rule: under.induct) (auto intro: under.step)

lemma under_le: "under ch a s \<Longrightarrow> wf_tree ch \<Longrightarrow> s < n_states ch \<Longrightarrow> a \<le> s"
proof (induction rule: under.induct)
  case (step s q)
  have "q < s" by (rule wf_parent(1)[OF step.prems step.hyps(1)])
  then show ?case using step by simp
qed simp

lemma under_child_up:
  assumes "under ch x s" "x \<noteq> s" "parent_of ch s = Some q"
  shows "under ch x q"
  using assms by (auto elim: underE)

text \<open>A downward path of children below \<open>q\<close>.\<close>

fun linked :: "'e chart \<Rightarrow> sid \<Rightarrow> sid list \<Rightarrow> bool" where
  "linked ch q [] = True"
| "linked ch q (x # xs) = (x < n_states ch \<and> parent_of ch x = Some q \<and> linked ch x xs)"

lemma linked_append: "linked ch q (xs @ ys) = (linked ch q xs \<and> linked ch (last (q # xs)) ys)"
  by (induction xs arbitrary: q) auto

lemma linked_under: "linked ch q xs \<Longrightarrow> x \<in> set xs \<Longrightarrow> under ch q x"
proof (induction xs arbitrary: q)
  case (Cons y ys)
  have "under ch q y" using Cons.prems(1) by (auto intro: under.step)
  then show ?case using Cons by (auto intro: under_trans)
qed simp

lemma linked_bounds:
  assumes "wf_tree ch" "linked ch q xs" "x \<in> set xs"
  shows "x < n_states ch" "q < x"
proof -
  have "x < n_states ch \<and> q < x"
    using assms(2,3)
  proof (induction xs arbitrary: q)
    case (Cons y ys)
    then have y: "y < n_states ch" "q < y" using wf_parent(1)[OF assms(1)] by auto
    with Cons.IH[of y] Cons.prems show ?case by auto
  qed simp
  then show "x < n_states ch" "q < x" by simp_all
qed

lemma linked_distinct: "wf_tree ch \<Longrightarrow> linked ch q xs \<Longrightarrow> distinct xs"
proof (induction xs arbitrary: q)
  case (Cons x xs)
  then show ?case using linked_bounds(2)[OF Cons.prems(1), of x xs x] by auto
qed simp

lemma ancestry_linked:
  assumes "wf_tree ch"
  shows "ancestry ch s cs \<Longrightarrow> s < n_states ch \<Longrightarrow> 0 < s \<Longrightarrow> linked ch 0 cs"
proof (induction rule: ancestry.induct)
  case (root s)
  then show ?case using wf_parent_ex[OF assms] by fastforce
next
  case (top s c)
  have "c < n_states ch" using wf_parent(1)[OF assms top.prems(1) top.hyps(1)] top.prems by simp
  then have "c = 0" using top.hyps(2) wf_kind_Chart[OF assms] by blast
  then show ?case using top by simp
next
  case (below s c cs)
  have c: "c < s" by (rule wf_parent(1)[OF assms below.prems(1) below.hyps(1)])
  have "0 < c"
  proof (rule ccontr)
    assume "\<not> 0 < c"
    then show False using below.hyps(2) assms by (simp add: wf_tree_def)
  qed
  then have "linked ch 0 cs" using below.IH c below.prems by simp
  moreover have "last (0 # cs) = c" using ancestry_last[OF below.hyps(3)] by simp
  ultimately show ?case using below by (simp add: linked_append)
qed

section \<open>The invariant\<close>

text \<open>The recorded states of a history state: a path down from its parent, not through itself.\<close>

definition history_ok :: "'e chart \<Rightarrow> sid \<Rightarrow> sid list \<Rightarrow> bool" where
  "history_ok ch h xs \<longleftrightarrow> (\<forall>c. parent_of ch h = Some c \<longrightarrow> linked ch c xs) \<and> h \<notin> set xs"

definition data_ok :: "'e chart \<Rightarrow> sid \<Rightarrow> runtimedata \<Rightarrow> bool" where
  "data_ok ch s d \<longleftrightarrow> s < n_states ch \<and>
     (\<forall>c. currentState d = Some c \<longrightarrow> c < n_states ch \<and> parent_of ch c = Some s) \<and>
     (is_history (kind_of ch s) \<longrightarrow> history_ok ch s (stateset d)) \<and>
     (is_pseudo (kind_of ch s) \<longrightarrow> timeoutEvents d = [])"

definition tidy :: "'e chart \<Rightarrow> 'e rt \<Rightarrow> bool" where
  "tidy ch r \<longleftrightarrow> (\<forall>s d. getData r s = Some d \<longrightarrow>
     data_ok ch s d \<and> timers_of (rt_sv r) s (timeoutEvents d))"

definition config :: "'e chart \<Rightarrow> 'e rt \<Rightarrow> bool" where
  "config ch r \<longleftrightarrow> isActive r 0 \<and>
     (\<forall>s. isActive r s \<and> \<not> is_history (kind_of ch s) \<and> 0 < s \<longrightarrow>
        (\<exists>p. parent_of ch s = Some p \<and> isActive r p \<and> current_of r p = Some s))"

text \<open>\<open>g\<close> says whether the configuration layer is part of the invariant.\<close>

definition sound :: "bool \<Rightarrow> 'e chart \<Rightarrow> 'e rt \<Rightarrow> bool" where
  "sound g ch r \<longleftrightarrow> tidy ch r \<and> (g \<longrightarrow> config ch r)"

lemma tidyD:
  assumes "tidy ch r" "getData r s = Some d"
  shows "s < n_states ch" "currentState d = Some c \<Longrightarrow> c < n_states ch \<and> parent_of ch c = Some s"
    and "is_history (kind_of ch s) \<Longrightarrow> history_ok ch s (stateset d)"
    and "timers_of (rt_sv r) s (timeoutEvents d)"
    and "is_pseudo (kind_of ch s) \<Longrightarrow> timeoutEvents d = []"
  using assms by (auto simp: tidy_def data_ok_def)

lemma tidy_active: "tidy ch r \<Longrightarrow> isActive r s \<Longrightarrow> s < n_states ch"
  by (auto simp: isActive_iff dest: tidyD)

lemma tidy_current: "tidy ch r \<Longrightarrow> current_of r s = Some c \<Longrightarrow> c < n_states ch \<and> parent_of ch c = Some s"
  by (auto simp: current_of_def dest: tidyD split: option.splits)

lemma config_cong:
  assumes "\<And>x. isActive r' x = isActive r x" "\<And>x. current_of r' x = current_of r x"
  shows "config ch r' = config ch r"
  by (simp add: config_def assms)

lemma view_cong:
  assumes "getData r' = getData r"
  shows "isActive r' = isActive r" "current_of r' = current_of r"
  by (simp_all add: fun_eq_iff isActive_def current_of_def assms)

section \<open>Callbacks\<close>

text \<open>
  What a callback of the client may do: anything to the client's own objects, and time may pass.
  It does not call back into the library on the same metadata.  A callback may throw.
\<close>

definition calm :: "'e rt \<Rightarrow> 'e rt \<Rightarrow> bool" where
  "calm r r' \<longleftrightarrow> rt_md r' = rt_md r \<and> (\<exists>t \<ge> clock (rt_sv r). rt_sv r' = (rt_sv r)\<lparr>clock := t\<rparr>)"

definition benign :: "'e action \<Rightarrow> bool" where
  "benign a \<longleftrightarrow> (\<forall>p r. case a p r of
      Ret _ r' \<Rightarrow> calm r r' | Exn _ r' \<Rightarrow> calm r r' | NoReturn \<Rightarrow> False | Undef \<Rightarrow> False)"

definition benign_chart :: "'e chart \<Rightarrow> bool" where
  "benign_chart ch \<longleftrightarrow>
     (\<forall>s < n_states ch. \<forall>a.
        entryAction (obj ch s) = Some a \<or> doAction (obj ch s) = Some a \<or> exitAction (obj ch s) = Some a
        \<longrightarrow> benign a) \<and>
     (\<forall>t < length (ownedTransitions ch). \<forall>a. tr_action (trans ch t) = Some a \<longrightarrow> benign a)"

lemma calm_getData: "calm r r' \<Longrightarrow> getData r' = getData r"
  by (simp add: calm_def getData_def fun_eq_iff)

lemma calm_timers: "calm r r' \<Longrightarrow> timers_of (rt_sv r') s es = timers_of (rt_sv r) s es"
  by (auto simp: calm_def timers_of_def)

lemma calm_sound:
  assumes "calm r r'"
  shows "sound g ch r' = sound g ch r"
proof -
  have "config ch r' = config ch r"
    by (rule config_cong) (simp_all add: view_cong[OF calm_getData[OF assms]])
  then show ?thesis by (simp add: sound_def tidy_def calm_getData[OF assms] calm_timers[OF assms])
qed

lemma calm_refl: "calm r r"
  by (auto simp: calm_def intro: exI[of _ "clock (rt_sv r)"])

lemma wp_call:
  assumes "\<And>a. act = Some a \<Longrightarrow> benign a"
    and "\<And>r'. calm r r' \<Longrightarrow> Q () r'" "\<And>r' e. calm r r' \<Longrightarrow> E e r'"
  shows "wp nr ub (mcall act p) Q E r"
proof (cases act)
  case None
  then show ?thesis using assms(2)[OF calm_refl] by simp
next
  case (Some a)
  have "case a p r of Ret _ r' \<Rightarrow> calm r r' | Exn _ r' \<Rightarrow> calm r r' | NoReturn \<Rightarrow> False | Undef \<Rightarrow> False"
    using assms(1)[OF Some] by (simp add: benign_def)
  then show ?thesis
    using assms(2,3) Some by (cases "a p r") (simp_all add: wp_def)
qed

section \<open>The elementary operations keep the data tidy\<close>

lemma history_ok_Nil [simp]: "history_ok ch h []"
  by (simp add: history_ok_def)

lemma parent_not_self: "wf_tree ch \<Longrightarrow> s < n_states ch \<Longrightarrow> parent_of ch s \<noteq> Some s"
  using wf_parent(1) by blast

lemma tidy_activateData:
  assumes "tidy ch r" "wf_tree ch" "s < n_states ch"
  shows "tidy ch (activateData ch s r)"
proof -
  note G = getData_activateData[OF parent_not_self[OF assms(2,3)]]
  have new: "data_ok ch s ((old_or_new s r)\<lparr>rd_active := a, currentTime := t, currentState := None\<rparr>) \<and>
      timers_of (rt_sv r) s (timeoutEvents (old_or_new s r))" for a t
    using assms(1,3)
    by (auto simp: old_or_new_def data_ok_def new_runtimedata_def tidy_def timers_of_def split: option.split)
  show ?thesis
    unfolding tidy_def rt_sv_data
  proof (intro allI impI)
    fix x d assume "getData (activateData ch s r) x = Some d"
    then show "data_ok ch x d \<and> timers_of (rt_sv r) x (timeoutEvents d)"
      using assms new unfolding G
      by (auto simp: tidy_def data_ok_def split: if_splits)
  qed
qed

lemma timers_of_enqueue:
  assumes "timers_of sv s es"
  shows "timers_of (snd (enqueueTimeout s' md ev p ms sv)) s es"
  using assms by (auto simp: timers_of_def enqueueTimeout_def new_entry_def Let_def nth_append)

lemma timers_of_enqueue_own:
  assumes "timers_of sv s es" "running sv"
  shows "timers_of (snd (enqueueTimeout s md ev p ms sv)) s (es @ [length (entries sv)])"
  using assms by (auto simp: timers_of_def enqueueTimeout_def new_entry_def Let_def nth_append)

lemma tidy_arm_timer:
  assumes "tidy ch r" "\<not> is_pseudo (kind_of ch s)"
  shows "tidy ch (arm_timer ch s p t r)"
proof (cases "(\<exists>ev. tr_event (trans ch t) = Some ev \<and> is_timeout ev) \<and> running (rt_sv r)")
  case True
  then obtain ev where ev: "tr_event (trans ch t) = Some ev" "is_timeout ev" and run: "running (rt_sv r)"
    by blast
  let ?sv = "snd (enqueueTimeout s (md_id (rt_md r)) ev p (event_timeout ev) (rt_sv r))"
  have sv: "rt_sv (arm_timer ch s p t r) = ?sv" using ev run by (simp add: arm_timer_def)
  show ?thesis
    unfolding tidy_def sv
  proof (intro allI impI)
    fix x d assume d: "getData (arm_timer ch s p t r) x = Some d"
    show "data_ok ch x d \<and> timers_of ?sv x (timeoutEvents d)"
    proof (cases "x = s")
      case True
      with d ev run obtain d0 where "getData r s = Some d0"
          "d = d0\<lparr>timeoutEvents := timeoutEvents d0 @ [length (entries (rt_sv r))]\<rparr>"
        by (auto simp: getData_arm_timer)
      with assms True run timers_of_enqueue_own show ?thesis by (auto simp: tidy_def data_ok_def)
    next
      case False
      with d have "getData r x = Some d" by (simp add: getData_arm_timer)
      with assms show ?thesis by (auto simp: tidy_def intro: timers_of_enqueue)
    qed
  qed
next
  case False
  then have "arm_timer ch s p t r = r" by (auto simp: arm_timer_def split: option.split)
  with assms show ?thesis by simp
qed

lemma tidy_arm_timers:
  assumes "tidy ch r" "\<not> is_pseudo (kind_of ch s)"
  shows "tidy ch (arm_timers ch s p r)"
proof -
  have "tidy ch r \<Longrightarrow> tidy ch (fold (arm_timer ch s p) ts r)" for ts
    using assms(2) by (induction ts arbitrary: r) (auto intro: tidy_arm_timer)
  then show ?thesis using assms(1) by (auto simp: arm_timers_def)
qed

lemma timers_of_disjoint:
  "timers_of sv s es \<Longrightarrow> timers_of sv s' es' \<Longrightarrow> s \<noteq> s' \<Longrightarrow> set es \<inter> set es' = {}"
  by (auto simp: timers_of_def)

lemma tidy_deactivate:
  assumes "tidy ch r" "getData r s = Some d"
  shows "tidy ch (deactivateData ch s (upd_sv (cancel_all (timeoutEvents d)) r))"
  unfolding tidy_def
proof (intro allI impI)
  let ?es = "timeoutEvents d"
  fix x d' assume x: "getData (deactivateData ch s (upd_sv (cancel_all ?es) r)) x = Some d'"
  show "data_ok ch x d' \<and>
      timers_of (rt_sv (deactivateData ch s (upd_sv (cancel_all ?es) r))) x (timeoutEvents d')"
  proof (cases "x = s")
    case True
    with x have h: "is_history (kind_of ch s)" and d': "d' = d\<lparr>rd_active := False\<rparr>"
      using assms(2) by (auto simp: getData_deactivateData split: if_splits)
    have "is_pseudo (kind_of ch s)" using h by (cases "kind_of ch s") auto
    then have "timeoutEvents d = []" by (rule tidyD(5)[OF assms(1,2)])
    with assms True d' show ?thesis by (auto simp: tidy_def data_ok_def timers_of_def)
  next
    case False
    with x have "getData r x = Some d'" by (simp add: getData_deactivateData)
    then have ok: "data_ok ch x d'" "timers_of (rt_sv r) x (timeoutEvents d')"
      using assms(1) by (auto simp: tidy_def)
    moreover have "timers_of (rt_sv r) s ?es" using assms(1,2) by (auto simp: tidy_def)
    ultimately show ?thesis
      using timers_of_cancel_all timers_of_disjoint False by simp
  qed
qed

lemma tidy_updData:
  assumes "tidy ch r" "\<And>d. timeoutEvents (f d) = timeoutEvents d"
    and "\<And>d. getData r s = Some d \<Longrightarrow> data_ok ch s (f d)"
  shows "tidy ch (updData s f r)"
  using assms by (auto simp: tidy_def split: if_splits)

end
