(* ===== verification/Config.thy ===== *)
theory Config
  imports Invariants
begin

text \<open>
  How the elementary operations change the state configuration: entering a state below an active
  parent none of whose children is active, and leaving a state none of whose children is active.
\<close>

section \<open>Views\<close>

lemma isActive_activateData:
  assumes "parent_of ch s \<noteq> Some s"
  shows "isActive (activateData ch s r) x = (x = s \<or> isActive r x)"
  by (auto simp: isActive_def getData_activateData[OF assms] option.case_eq_if)

lemma current_of_activateData:
  assumes "parent_of ch s \<noteq> Some s"
  shows "current_of (activateData ch s r) x =
    (if x = s then None
     else if parent_of ch s = Some x \<and> getData r x \<noteq> None then Some s else current_of r x)"
  by (auto simp: current_of_def getData_activateData[OF assms] split: option.split)

lemma isActive_but_timers: "but_timers (getData r' x) = but_timers (getData r x) \<Longrightarrow> isActive r' x = isActive r x"
  by (cases "getData r' x"; cases "getData r x") (auto simp: but_timers_def isActive_def dest: arg_cong[where f = rd_active])

lemma current_of_but_timers:
  "but_timers (getData r' x) = but_timers (getData r x) \<Longrightarrow> current_of r' x = current_of r x"
  by (cases "getData r' x"; cases "getData r x") (auto simp: but_timers_def current_of_def dest: arg_cong[where f = currentState])

lemma view_arm_timers [simp]:
  "isActive (arm_timers ch s p r) x = isActive r x"
  "current_of (arm_timers ch s p r) x = current_of r x"
  by (rule isActive_but_timers current_of_but_timers, rule getData_arm_timers(2))+

lemma view_deactivateData:
  "isActive (deactivateData ch s r) x = (x \<noteq> s \<and> isActive r x)"
  "x \<noteq> s \<Longrightarrow> current_of (deactivateData ch s r) x = current_of r x"
  by (auto simp: isActive_def current_of_def getData_deactivateData split: option.split)

section \<open>Entering\<close>

text \<open>No child of \<open>s\<close> is active, history states apart.\<close>

definition quiet :: "'e chart \<Rightarrow> sid \<Rightarrow> 'e rt \<Rightarrow> bool" where
  "quiet ch s r \<longleftrightarrow> (\<forall>y. parent_of ch y = Some s \<and> isActive r y \<longrightarrow> is_history (kind_of ch y))"

text \<open>
  The state may be entered: its parent is active, and no child of the parent is, except the state
  itself when it is a pseudo-state (the start state of a hierarchical state is activated twice).
\<close>

definition entering :: "'e chart \<Rightarrow> sid \<Rightarrow> 'e rt \<Rightarrow> bool" where
  "entering ch s r \<longleftrightarrow> (\<exists>p. parent_of ch s = Some p \<and> isActive r p \<and>
     (\<forall>y. parent_of ch y = Some p \<and> isActive r y \<and> \<not> is_history (kind_of ch y) \<longrightarrow>
        y = s \<and> is_pseudo (kind_of ch s)))"

text \<open>The state is the current one of its active parent.\<close>

definition onpath :: "'e chart \<Rightarrow> sid \<Rightarrow> 'e rt \<Rightarrow> bool" where
  "onpath ch s r \<longleftrightarrow> (\<exists>p. parent_of ch s = Some p \<and> isActive r p \<and> current_of r p = Some s)"

lemma config_onpath:
  "config ch r \<Longrightarrow> isActive r s \<Longrightarrow> \<not> is_history (kind_of ch s) \<Longrightarrow> 0 < s \<Longrightarrow> onpath ch s r"
  by (auto simp: config_def onpath_def)

text \<open>Two active children of one state are the same: the exclusive-or decomposition.\<close>

lemma config_exclusive:
  assumes "config ch r" "isActive r x" "isActive r y" "parent_of ch x = Some p" "parent_of ch y = Some p"
    and "\<not> is_history (kind_of ch x)" "\<not> is_history (kind_of ch y)" "0 < x" "0 < y"
  shows "x = y"
proof -
  have "current_of r p = Some x" "current_of r p = Some y"
    using assms unfolding config_def by (metis option.inject)+
  then show ?thesis by simp
qed

lemma config_quiet_inactive:
  assumes "config ch r" "wf_tree ch" "tidy ch r" "\<not> isActive r s"
  shows "quiet ch s r"
  unfolding quiet_def
proof (intro allI impI, rule ccontr)
  fix y assume y: "parent_of ch y = Some s \<and> isActive r y" and nh: "\<not> is_history (kind_of ch y)"
  have "0 < y" using wf_parent(3)[OF assms(2) tidy_active[OF assms(3)]] y by blast
  then show False using assms(1,4) y nh unfolding config_def by (metis option.inject)
qed

lemma config_quiet_current:
  assumes "config ch r" "wf_tree ch" "tidy ch r"
    and "\<And>c. current_of r s = Some c \<Longrightarrow> isActive r c \<Longrightarrow> is_history (kind_of ch c)"
  shows "quiet ch s r"
  unfolding quiet_def
proof (intro allI impI, rule ccontr)
  fix y assume y: "parent_of ch y = Some s \<and> isActive r y" and nh: "\<not> is_history (kind_of ch y)"
  have "0 < y" using wf_parent(3)[OF assms(2) tidy_active[OF assms(3)]] y by blast
  then have "current_of r s = Some y" using assms(1) y nh unfolding config_def by (metis option.inject)
  then show False using assms(4) y nh by blast
qed

lemma no_children:
  assumes "wf_tree ch" "\<not> is_context (kind_of ch s)" "tidy ch r"
  shows "quiet ch s r"
  unfolding quiet_def
proof (intro allI impI)
  fix y assume y: "parent_of ch y = Some s \<and> isActive r y"
  then show "is_history (kind_of ch y)"
    using assms wf_parent(2)[OF assms(1) tidy_active[OF assms(3)]] by blast
qed

lemma entering_quiet:
  assumes "entering ch s r" "config ch r" "wf_tree ch" "tidy ch r" "\<not> is_history (kind_of ch s)"
  shows "quiet ch s r"
proof (cases "is_pseudo (kind_of ch s)")
  case True
  then have "\<not> is_context (kind_of ch s)" by (cases "kind_of ch s") auto
  then show ?thesis by (rule no_children[OF assms(3) _ assms(4)])
next
  case False
  then have "\<not> isActive r s" using assms(1,5) by (auto simp: entering_def)
  then show ?thesis by (rule config_quiet_inactive[OF assms(2,3,4)])
qed

lemma config_activateData:
  assumes c: "config ch r" and e: "entering ch s r" and t: "wf_tree ch" "tidy ch r" "s < n_states ch"
  shows "config ch (activateData ch s r)" "quiet ch s (activateData ch s r)"
    "isActive (activateData ch s r) s"
proof -
  let ?r = "activateData ch s r"
  obtain p where p: "parent_of ch s = Some p" "isActive r p"
    and v: "\<And>y. parent_of ch y = Some p \<Longrightarrow> isActive r y \<Longrightarrow> \<not> is_history (kind_of ch y) \<Longrightarrow> y = s"
    using e by (auto simp: entering_def)
  note ns = parent_not_self[OF t(1,3)]
  note act = isActive_activateData[OF ns] and cur = current_of_activateData[OF ns]
  have q: "quiet ch s r"
  proof (cases "is_history (kind_of ch s)")
    case True
    then have "\<not> is_context (kind_of ch s)" by (cases "kind_of ch s") auto
    then show ?thesis by (rule no_children[OF t(1) _ t(2)])
  qed (rule entering_quiet[OF e c t(1,2)])
  show "quiet ch s ?r" using q ns by (auto simp: quiet_def act)
  show "isActive ?r s" by (simp add: act)
  have pd: "getData r p \<noteq> None" using p(2) by (auto simp: isActive_iff)
  have "\<exists>q. parent_of ch y = Some q \<and> isActive ?r q \<and> current_of ?r q = Some y"
    if y: "isActive ?r y" "\<not> is_history (kind_of ch y)" "0 < y" for y
  proof (cases "y = s")
    case True
    then show ?thesis using p pd ns by (auto simp: act cur)
  next
    case False
    then have ya: "isActive r y" using y(1) by (simp add: act)
    then obtain z where z: "parent_of ch y = Some z" "isActive r z" "current_of r z = Some y"
      using c y(2,3) unfolding config_def by blast
    have "z \<noteq> s" using q z ya y(2) by (auto simp: quiet_def)
    moreover have "z \<noteq> p" using v[of y] z(1) ya y(2) False by auto
    ultimately show ?thesis using z p(1) by (auto simp: act cur)
  qed
  then show "config ch ?r" using c by (auto simp: config_def act)
qed

section \<open>Leaving\<close>

lemma config_deactivateData:
  assumes "config ch r" "quiet ch s r" "0 < s"
  shows "config ch (deactivateData ch s r)"
proof -
  let ?r = "deactivateData ch s r"
  have "\<exists>q. parent_of ch y = Some q \<and> isActive ?r q \<and> current_of ?r q = Some y"
    if y: "isActive ?r y" "\<not> is_history (kind_of ch y)" "0 < y" for y
  proof -
    have ya: "isActive r y" using y(1) by (simp add: view_deactivateData)
    then obtain z where z: "parent_of ch y = Some z" "isActive r z" "current_of r z = Some y"
      using assms(1) y(2,3) unfolding config_def by blast
    have "z \<noteq> s" using assms(2) z(1) ya y(2) by (auto simp: quiet_def)
    then show ?thesis using z by (auto simp: view_deactivateData)
  qed
  then show ?thesis using assms(1,3) by (auto simp: config_def view_deactivateData)
qed

lemma config_upd:
  assumes "config ch r" "quiet ch s r" "\<And>d. rd_active (f d) = rd_active d"
  shows "config ch (updData s f r)"
proof -
  have act: "isActive (updData s f r) x = isActive r x" for x
    by (auto simp: isActive_def assms(3) split: option.split)
  have cur: "current_of (updData s f r) x = current_of r x" if "x \<noteq> s" for x
    using that by (simp add: current_of_def)
  have "\<exists>q. parent_of ch y = Some q \<and> isActive r q \<and> current_of (updData s f r) q = Some y"
    if y: "isActive r y" "\<not> is_history (kind_of ch y)" "0 < y" for y
  proof -
    obtain z where z: "parent_of ch y = Some z" "isActive r z" "current_of r z = Some y"
      using assms(1) y unfolding config_def by blast
    then have "z \<noteq> s" using assms(2) y by (auto simp: quiet_def)
    then show ?thesis using z by (auto simp: cur)
  qed
  then show ?thesis using assms(1) by (auto simp: config_def act)
qed

text \<open>Updates that change neither activity nor the current state.\<close>

lemma config_upd_same:
  assumes "\<And>d. rd_active (f d) = rd_active d" "\<And>d. currentState (f d) = currentState d"
  shows "config ch (updData s f r) = config ch r"
  by (rule config_cong) (auto simp: isActive_def current_of_def assms split: option.split)

lemma isActive_upd_same:
  "(\<And>d. rd_active (f d) = rd_active d) \<Longrightarrow> isActive (updData s f r) x = isActive r x"
  by (auto simp: isActive_def split: option.split)

section \<open>History\<close>

lemma calculateHistoryChain_acc:
  "calculateHistoryChain n ch hist s r ty = hist @ calculateHistoryChain n ch [] s r ty"
proof (induction n arbitrary: hist s)
  case (Suc n)
  have "calculateHistoryChain n ch (hist @ [x]) c r ty = hist @ calculateHistoryChain n ch [x] c r ty" for x c
    using Suc[of "hist @ [x]" c] Suc[of "[x]" c] by simp
  then show ?case by (simp split: option.split)
qed simp

lemma calculateHistoryChain_linked:
  assumes "tidy ch r" "x < n_states ch" "parent_of ch x = Some q"
  shows "linked ch q (calculateHistoryChain n ch [] (Some x) r ty)"
  using assms(2,3)
proof (induction n arbitrary: q x)
  case (Suc n)
  have "linked ch x (calculateHistoryChain n ch [] (Some sub) r ty)" if "current_of r x = Some sub" for sub
    using Suc.IH tidy_current[OF assms(1) that] by blast
  moreover have "(case getData r x of None \<Rightarrow> None | Some d \<Rightarrow> currentState d) = current_of r x"
    by (simp add: current_of_def)
  ultimately show ?case
    using Suc.prems
    by (auto simp: calculateHistoryChain_acc[of n ch "[x]"] split: option.split)
qed simp

lemma calculateHistoryChain_head:
  assumes "calculateHistoryChain n ch [] (Some x) r ty \<noteq> []"
  shows "\<exists>ys. calculateHistoryChain n ch [] (Some x) r ty = x # ys"
  using assms by (cases n) (auto simp: calculateHistoryChain_acc[of _ _ "[x]"] split: option.split)

lemma storeHistory_data:
  "getData (storeHistory ch h r) x =
     (if x = h \<and> parent_of ch h \<noteq> None then
        map_option (\<lambda>d. d\<lparr>stateset := calculateHistoryChain (n_states ch) ch []
          (case getData (updData h (\<lambda>d. d\<lparr>stateset := []\<rparr>) r) (the (parent_of ch h)) of
             None \<Rightarrow> None | Some pd \<Rightarrow> currentState pd)
          (updData h (\<lambda>d. d\<lparr>stateset := []\<rparr>) r)
          (case kind_of ch h of Pseudo ty \<Rightarrow> ty | _ \<Rightarrow> Start)\<rparr>) (getData r h)
      else getData r x)"
  by (cases "getData r h"; cases "parent_of ch h") (auto simp: storeHistory_def Let_def)

lemma storeHistory_sv [simp]: "rt_sv (storeHistory ch h r) = rt_sv r"
  by (auto simp: storeHistory_def Let_def split: option.split)

lemma tidy_storeHistory:
  assumes t: "tidy ch r" and wf: "wf_tree ch" and h: "parent_of ch h = Some c" "current_of r c \<noteq> Some h" "h < n_states ch"
  shows "tidy ch (storeHistory ch h r)"
proof -
  let ?r1 = "updData h (\<lambda>d. d\<lparr>stateset := []\<rparr>) r"
  have ch: "c < h" by (rule wf_parent(1)[OF wf h(3,1)])
  have t1: "tidy ch ?r1"
    by (rule tidy_updData[OF t]) (use tidyD[OF t] in \<open>auto simp: data_ok_def\<close>)
  have cur1: "current_of ?r1 x = current_of r x" for x
    by (cases "getData r x") (auto simp: current_of_def)
  let ?chain = "\<lambda>ty. calculateHistoryChain (n_states ch) ch [] (current_of ?r1 c) ?r1 ty"
  have "history_ok ch h (?chain ty)" for ty
  proof (cases "current_of r c")
    case None
    then have "?chain ty = []" by (cases "n_states ch") (simp_all add: cur1)
    then show ?thesis by simp
  next
    case (Some x)
    have x: "x < n_states ch" "parent_of ch x = Some c" using tidy_current[OF t Some] by auto
    have l: "linked ch c (?chain ty)"
      using calculateHistoryChain_linked[OF t1 x] Some by (simp add: cur1)
    have "h \<notin> set (?chain ty)"
    proof
      assume hin: "h \<in> set (?chain ty)"
      then have "?chain ty \<noteq> []" by auto
      then obtain ys where ys: "?chain ty = x # ys"
        using calculateHistoryChain_head[of "n_states ch" ch x ?r1 ty] Some by (auto simp: cur1)
      have "h \<noteq> x" using Some h(2) by auto
      with hin ys have "h \<in> set ys" by simp
      moreover have "linked ch x ys" using l ys by simp
      ultimately have "under ch x h" by (rule linked_under[rotated])
      then have "under ch x c" using \<open>h \<noteq> x\<close> h(1) by (metis under_child_up)
      then have "x \<le> c" using under_le[OF _ wf] ch h(3) by simp
      moreover have "c < x" by (rule wf_parent(1)[OF wf x])
      ultimately show False by simp
    qed
    with l show ?thesis using h(1) by (simp add: history_ok_def)
  qed
  moreover have "(case getData ?r1 c of None \<Rightarrow> None | Some pd \<Rightarrow> currentState pd) = current_of ?r1 c"
    by (simp add: current_of_def)
  ultimately have hist: "history_ok ch h (stateset d')" if "getData (storeHistory ch h r) h = Some d'" for d'
    using that h(1) by (auto simp: storeHistory_data)
  show ?thesis
    unfolding tidy_def storeHistory_sv
  proof (intro allI impI)
    fix x d' assume x: "getData (storeHistory ch h r) x = Some d'"
    show "data_ok ch x d' \<and> timers_of (rt_sv r) x (timeoutEvents d')"
    proof (cases "x = h")
      case True
      with x h(1) obtain d where "getData r h = Some d" "currentState d' = currentState d"
          "timeoutEvents d' = timeoutEvents d"
        by (auto simp: storeHistory_data)
      with t True hist x show ?thesis by (auto simp: tidy_def data_ok_def)
    next
      case False
      then show ?thesis using x t by (auto simp: storeHistory_data tidy_def)
    qed
  qed
qed

lemma view_storeHistory:
  "isActive (storeHistory ch h r) x = isActive r x" "current_of (storeHistory ch h r) x = current_of r x"
  by (auto simp: isActive_def current_of_def storeHistory_data split: option.split)

text \<open>The ancestors of an active state are active, and current.\<close>

lemma config_ancestors:
  assumes wf: "wf_tree ch" and t: "tidy ch r" and c: "config ch r"
    and "under ch x s" "isActive r s" "\<not> is_history (kind_of ch s)"
  shows "isActive r x \<and> (\<forall>y. parent_of ch x = Some y \<longrightarrow> current_of r y = Some x)"
  using assms(4-6)
proof (induction rule: under.induct)
  case refl
  have "onpath ch x r" if "0 < x" using config_onpath[OF c] refl that by simp
  moreover have "0 < x" if "parent_of ch x = Some y" for y
    using wf_parent(3)[OF wf tidy_active[OF t refl(1)] that] .
  ultimately show ?case using refl(1) by (auto simp: onpath_def)
next
  case (step s q)
  note s = tidy_active[OF t step.prems(1)]
  have "onpath ch s r" using config_onpath[OF c step.prems] wf_parent(3)[OF wf s step.hyps(1)] by simp
  then have "isActive r q" using step.hyps(1) by (auto simp: onpath_def)
  moreover have "\<not> is_history (kind_of ch q)" using wf_parent(2)[OF wf s step.hyps(1)] by (cases "kind_of ch q") auto
  ultimately show ?case by (rule step.IH)
qed

end
