(* ===== verification/Fuel.thy ===== *)
theory Fuel
  imports Statechart
begin

text \<open>
  More nested calls change nothing: a method that returns, throws or is undefined within some
  bound on the depth of virtual calls does the same with every larger bound.
\<close>

definition vle :: "'e vtable \<Rightarrow> 'e vtable \<Rightarrow> bool" where
  "vle V W \<longleftrightarrow>
     (\<forall>s p. le_prog (v_activate V s p) (v_activate W s p)) \<and>
     (\<forall>s p. le_prog (v_deactivate V s p) (v_deactivate W s p)) \<and>
     (\<forall>s ev p. le_prog (v_dispatch V s ev p) (v_dispatch W s ev p)) \<and>
     (\<forall>s p. le_prog (v_lookup V s p) (v_lookup W s p))"

lemma vleD [mono_rules]:
  assumes "vle V W"
  shows "le_prog (v_activate V s p) (v_activate W s p)"
    and "le_prog (v_deactivate V s p) (v_deactivate W s p)"
    and "le_prog (v_dispatch V s ev p) (v_dispatch W s ev p)"
    and "le_prog (v_lookup V s p) (v_lookup W s p)"
  using assms by (simp_all add: vle_def)

lemma le_prog_case_prod [mono_rules]:
  "(\<And>a b. x = (a, b) \<Longrightarrow> le_prog (f a b) (g a b)) \<Longrightarrow> le_prog (case x of (a, b) \<Rightarrow> f a b) (case x of (a, b) \<Rightarrow> g a b)"
  by (cases x) simp

lemma le_prog_Let [mono_rules]:
  "(\<And>a. a = x \<Longrightarrow> le_prog (f a) (g a)) \<Longrightarrow> le_prog (let a = x in f a) (let a = x in g a)"
  by simp

section \<open>The methods\<close>

lemma mono_Transition_allowed [mono_rules]:
  "vle V W \<Longrightarrow> le_prog (Transition_allowed ch V t p) (Transition_allowed ch W t p)"
  unfolding Transition_allowed_def by (intro mono_rules)

lemma mono_allowed [mono_rules]: "vle V W \<Longrightarrow> le_prog (allowed ch V t p) (allowed ch W t p)"
  unfolding allowed_def by (intro mono_rules)

lemma mono_activate_list [mono_rules]:
  "vle V W \<Longrightarrow> le_prog (activate_list ch V p xs) (activate_list ch W p xs)"
  by (induction ch V p xs rule: activate_list.induct)
    (simp_all del: activate_list.simps, (simp only: activate_list.simps, intro mono_rules; simp)+)

lemma mono_Transition_execute [mono_rules]:
  "vle V W \<Longrightarrow> le_prog (Transition_execute ch V t ev p) (Transition_execute ch W t ev p)"
  unfolding Transition_execute_def by (intro mono_rules)

lemma mono_execute [mono_rules]: "vle V W \<Longrightarrow> le_prog (execute ch V t ev p) (execute ch W t ev p)"
  unfolding execute_def by (intro mono_rules)

lemma mono_State_dispatch [mono_rules]:
  "vle V W \<Longrightarrow> le_prog (State_dispatch ch V s ev p) (State_dispatch ch W s ev p)"
  unfolding State_dispatch_def by (intro mono_rules)

lemma mono_PseudoState_lookup [mono_rules]:
  "vle V W \<Longrightarrow> le_prog (PseudoState_lookup ch V s p) (PseudoState_lookup ch W s p)"
  unfolding PseudoState_lookup_def by (intro mono_rules)

lemma mono_PseudoState_activate [mono_rules]:
  "vle V W \<Longrightarrow> le_prog (PseudoState_activate ch V s p) (PseudoState_activate ch W s p)"
  unfolding PseudoState_activate_def by (intro mono_rules)

lemma mono_PseudoState_dispatch [mono_rules]:
  "vle V W \<Longrightarrow> le_prog (PseudoState_dispatch ch V s ev p) (PseudoState_dispatch ch W s ev p)"
  unfolding PseudoState_dispatch_def by (intro mono_rules)

lemma mono_HierarchicalState_deactivate [mono_rules]:
  "vle V W \<Longrightarrow> le_prog (HierarchicalState_deactivate ch V s p) (HierarchicalState_deactivate ch W s p)"
  unfolding HierarchicalState_deactivate_def by (intro mono_rules)

lemma mono_hierarchical_transition [mono_rules]:
  "vle V W \<Longrightarrow>
   le_prog (hierarchical_transition ch V f ev p t) (hierarchical_transition ch W f ev p t)"
  unfolding hierarchical_transition_def by (intro mono_rules)

lemma mono_enter_start [mono_rules]:
  "vle V W \<Longrightarrow> le_prog (enter_start ch V s st p) (enter_start ch W s st p)"
  unfolding enter_start_def by (intro mono_rules)

lemma mono_HierarchicalState_dispatch [mono_rules]:
  assumes "vle V W"
  shows "le_prog (HierarchicalState_dispatch ch V s ev p) (HierarchicalState_dispatch ch W s ev p)"
  unfolding HierarchicalState_dispatch_def
  by (intro mono_rules assms; simp split: option.split; intro mono_rules assms)

lemma mono_ConcurrentState_activate [mono_rules]:
  "vle V W \<Longrightarrow> le_prog (ConcurrentState_activate ch V s p) (ConcurrentState_activate ch W s p)"
  unfolding ConcurrentState_activate_def by (intro mono_rules)

lemma mono_ConcurrentState_deactivate [mono_rules]:
  "vle V W \<Longrightarrow> le_prog (ConcurrentState_deactivate ch V s p) (ConcurrentState_deactivate ch W s p)"
  unfolding ConcurrentState_deactivate_def by (intro mono_rules)

lemma mono_dispatch_regions [mono_rules]:
  "vle V W \<Longrightarrow> le_prog (dispatch_regions V s ev p b hs) (dispatch_regions W s ev p b hs)"
proof (induction hs arbitrary: b)
  case (Cons h hs)
  then show ?case unfolding dispatch_regions.simps by (intro mono_rules)
qed simp

lemma mono_concurrent_transitions [mono_rules]:
  "vle V W \<Longrightarrow>
   le_prog (concurrent_transitions ch V s ev p ts) (concurrent_transitions ch W s ev p ts)"
proof (induction ts)
  case (Cons t ts)
  then show ?case unfolding concurrent_transitions.simps by (intro mono_rules)
qed simp

lemma mono_ConcurrentState_dispatch [mono_rules]:
  "vle V W \<Longrightarrow> le_prog (ConcurrentState_dispatch ch V s ev p) (ConcurrentState_dispatch ch W s ev p)"
  unfolding ConcurrentState_dispatch_def by (intro mono_rules)

lemma mono_completion_loop [mono_rules]:
  "vle V W \<Longrightarrow> le_prog (completion_loop ch V s p k) (completion_loop ch W s p k)"
proof (induction ch V s p k rule: completion_loop.induct)
  case (1 ch V s p k)
  show ?case
    by (subst (1 2) completion_loop.simps) (intro mono_rules 1; simp)
qed

lemma mono_Statechart_dispatch [mono_rules]:
  "vle V W \<Longrightarrow> le_prog (Statechart_dispatch ch V s ev p) (Statechart_dispatch ch W s ev p)"
  unfolding Statechart_dispatch_def by (intro mono_rules)

section \<open>The knot\<close>

lemma vle_vstep: "vle V W \<Longrightarrow> vle (vstep ch V) (vstep ch W)"
  unfolding vle_def[of "vstep ch V" for ch V]
  by (auto simp: vstep_def call_activate_def call_deactivate_def call_dispatch_def
      split: kind.split intro: mono_rules)

lemma vle_vcalls_Suc: "vle (vcalls n ch) (vcalls (Suc n) ch)"
proof (induction n)
  case 0
  show ?case by (simp add: vle_def)
next
  case (Suc n)
  from vle_vstep[OF this, of ch] show ?case by simp
qed

lemma vle_refl: "vle V V"
  by (simp add: vle_def)

lemma vle_trans: "vle U V \<Longrightarrow> vle V W \<Longrightarrow> vle U W"
  unfolding vle_def by (blast intro: le_prog_trans)

lemma vle_vcalls: "n \<le> m \<Longrightarrow> vle (vcalls n ch) (vcalls m ch)"
  by (induction rule: dec_induct) (blast intro: vle_refl vle_trans vle_vcalls_Suc)+

lemma dispatch_mono:
  "dispatch n ch s ev p r \<noteq> NoReturn \<Longrightarrow> n \<le> m \<Longrightarrow> dispatch m ch s ev p r = dispatch n ch s ev p r"
  unfolding dispatch_def using le_progD[OF vleD(3)[OF vle_vcalls]] by blast

lemma activate_mono:
  "activate n ch s p r \<noteq> NoReturn \<Longrightarrow> n \<le> m \<Longrightarrow> activate m ch s p r = activate n ch s p r"
  unfolding activate_def using le_progD[OF vleD(1)[OF vle_vcalls]] by blast

lemma le_prog_with_local:
  fixes f g :: "pref \<Rightarrow> ('a, 'e rt) prog"
  assumes "\<And>p. le_prog (f p) (g p)"
  shows "le_prog (with_local f) (with_local g)"
  unfolding le_prog_def
proof
  fix r :: "'e rt"
  let ?p = "LocalParam (next_param (rt_sv r))"
  let ?r = "upd_sv (\<lambda>sv. sv\<lparr>locals := ?p # locals sv, next_param := Suc (next_param sv)\<rparr>) r"
  have "f ?p ?r = NoReturn \<or> f ?p ?r = g ?p ?r"
    using assms by (simp add: le_prog_def le_out_def)
  then show "le_out (with_local f r) (with_local g r)"
    by (auto simp: with_local_def Let_def le_out_def)
qed

lemma start_mono: "start n ch r \<noteq> NoReturn \<Longrightarrow> n \<le> m \<Longrightarrow> start m ch r = start n ch r"
  unfolding start_def start_with_def dispatch_def
  by (rule le_progD[OF le_prog_with_local]) (intro mono_rules vle_vcalls)

end
