(* ===== verification/Leaving.thy ===== *)
theory Leaving
  imports Config Fuel
begin

text \<open>
  The main induction, first part: the charts it is about, the frame conditions, what is assumed of
  the virtual calls, and leaving a state.

  On a chart without concurrent states whose callbacks behave, every virtual method keeps the
  invariant and never runs into undefined behaviour; with pseudo-states that do not form a cycle
  and enough nested calls it also returns or throws.  \<open>g\<close> selects the layers of the invariant: with
  \<open>g\<close> the chart must be \<open>regular\<close> and the configuration layer is kept, without it only \<open>tidy\<close> is.
  With \<open>nr\<close> nothing is said about termination.
\<close>

section \<open>The charts\<close>

definition sequential :: "'e chart \<Rightarrow> bool" where
  "sequential ch \<longleftrightarrow> wf_chart ch \<and> benign_chart ch \<and> (\<forall>s < n_states ch. kind_of ch s \<noteq> Concurrent)"

text \<open>
  No fork, and no transition between a state and one of its own ancestors or descendants: such a
  transition has an empty list.
\<close>

definition regular :: "'e chart \<Rightarrow> bool" where
  "regular ch \<longleftrightarrow> (\<forall>s < n_states ch. kind_of ch s \<noteq> Pseudo Fork \<and>
     (\<forall>t \<in> set (transitions (obj ch s)). tr_internal (trans ch t) \<or>
        tr_deactivate (trans ch t) \<noteq> [] \<and> tr_activate (trans ch t) \<noteq> [] \<and>
        0 \<notin> set (tr_activate (trans ch t))))"

text \<open>The pseudo-states a lookup runs through do not form a cycle: \<open>rk\<close> decreases along them.\<close>

definition ranked :: "'e chart \<Rightarrow> (sid \<Rightarrow> nat) \<Rightarrow> nat \<Rightarrow> bool" where
  "ranked ch rk R \<longleftrightarrow> (\<forall>s < n_states ch. is_pseudo (kind_of ch s) \<longrightarrow> rk s \<le> R \<and>
     (\<forall>t \<in> set (transitions (obj ch s)).
        tr_activate (trans ch t) \<noteq> [] \<and> is_pseudo (kind_of ch (last (tr_activate (trans ch t)))) \<longrightarrow>
        rk (last (tr_activate (trans ch t))) < rk s))"

definition assured :: "bool \<Rightarrow> bool \<Rightarrow> 'e chart \<Rightarrow> (sid \<Rightarrow> nat) \<Rightarrow> nat \<Rightarrow> bool" where
  "assured nr g ch rk R \<longleftrightarrow> sequential ch \<and> (g \<longrightarrow> regular ch) \<and> (nr \<or> g \<and> ranked ch rk R)"

lemma assuredD:
  assumes "assured nr g ch rk R"
  shows "wf_tree ch" "wf_slots ch" "wf_transitions ch" "benign_chart ch"
    and "s < n_states ch \<Longrightarrow> kind_of ch s \<noteq> Concurrent"
    and "g \<Longrightarrow> regular ch" "\<not> nr \<Longrightarrow> g" "\<not> nr \<Longrightarrow> ranked ch rk R"
    and "s < n_states ch \<Longrightarrow> st_statechart (obj ch s) = Some 0"
  using assms by (auto simp: assured_def sequential_def wf_chart_def wf_core_def wf_tree_def)

lemma benign_state:
  assumes "benign_chart ch" "s < n_states ch"
  shows "entryAction (obj ch s) = Some a \<Longrightarrow> benign a" "doAction (obj ch s) = Some a \<Longrightarrow> benign a"
    "exitAction (obj ch s) = Some a \<Longrightarrow> benign a"
  using assms by (auto simp: benign_chart_def)

section \<open>Frames\<close>

text \<open>Nothing outside of \<open>s\<close> changed.\<close>

definition outside :: "'e chart \<Rightarrow> sid \<Rightarrow> 'e rt \<Rightarrow> 'e rt \<Rightarrow> bool" where
  "outside ch s r r' \<longleftrightarrow> (\<forall>x. \<not> under ch s x \<longrightarrow> getData r' x = getData r x)"

lemma outside_refl [simp]: "outside ch s r r"
  by (simp add: outside_def)

lemma outside_trans: "outside ch s a b \<Longrightarrow> outside ch s b c \<Longrightarrow> outside ch s a c"
  by (simp add: outside_def)

lemma outside_under: "outside ch c r r' \<Longrightarrow> under ch s c \<Longrightarrow> outside ch s r r'"
  unfolding outside_def using under_trans by blast

lemma outside_views:
  "outside ch s r r' \<Longrightarrow> \<not> under ch s x \<Longrightarrow> isActive r' x = isActive r x"
  "outside ch s r r' \<Longrightarrow> \<not> under ch s x \<Longrightarrow> current_of r' x = current_of r x"
  by (simp_all add: outside_def isActive_def current_of_def)

lemma outside_calm: "outside ch s a b \<Longrightarrow> calm b c \<Longrightarrow> outside ch s a c"
  by (simp add: outside_def calm_getData)

text \<open>
  The states whose runtime data activating \<open>s\<close> may change, apart from the current state of a
  parent: the state itself, and for a history state all that lies inside its parent.
\<close>

definition region :: "'e chart \<Rightarrow> sid \<Rightarrow> sid set" where
  "region ch s = {x. x = s \<or> is_history (kind_of ch s) \<and>
     (\<exists>p. parent_of ch s = Some p \<and> under ch p x \<and> x \<noteq> p)}"

definition but_current :: "runtimedata option \<Rightarrow> runtimedata option" where
  "but_current = map_option (\<lambda>d. d\<lparr>currentState := None\<rparr>)"

definition frame :: "'e chart \<Rightarrow> sid \<Rightarrow> 'e rt \<Rightarrow> 'e rt \<Rightarrow> bool" where
  "frame ch s r r' \<longleftrightarrow> (\<forall>x. x \<notin> region ch s \<longrightarrow> but_current (getData r' x) = but_current (getData r x))"

lemma but_current_fields:
  assumes "but_current x = but_current (Some d)"
  obtains d' where "x = Some d'" "rd_addr d' = rd_addr d" "rd_active d' = rd_active d"
    "stateset d' = stateset d" "timeoutEvents d' = timeoutEvents d"
proof (cases x)
  case None
  then show ?thesis using assms by (simp add: but_current_def)
next
  case (Some d')
  then have eq: "d'\<lparr>currentState := None\<rparr> = d\<lparr>currentState := None\<rparr>"
    using assms by (simp add: but_current_def)
  show ?thesis
    using that[OF Some] arg_cong[OF eq, of rd_addr] arg_cong[OF eq, of rd_active]
      arg_cong[OF eq, of stateset] arg_cong[OF eq, of timeoutEvents] by simp
qed

lemma but_current_active:
  assumes "but_current (getData r' x) = but_current (getData r x)"
  shows "isActive r' x = isActive r x"
proof (cases "getData r x")
  case None
  then show ?thesis using assms by (simp add: but_current_def isActive_def)
next
  case (Some d)
  then show ?thesis using assms by (auto elim: but_current_fields simp: isActive_def)
qed

lemma frame_refl [simp]: "frame ch s r r"
  by (simp add: frame_def)

lemma frame_trans: "frame ch s a b \<Longrightarrow> frame ch s b c \<Longrightarrow> frame ch s a c"
  by (simp add: frame_def)

lemma frame_calm: "frame ch s a b \<Longrightarrow> calm b c \<Longrightarrow> frame ch s a c"
  by (simp add: frame_def calm_getData)

lemma frame_sub: "frame ch x a b \<Longrightarrow> region ch x \<subseteq> region ch s \<Longrightarrow> frame ch s a b"
  by (auto simp: frame_def)

lemma frame_active: "frame ch s r r' \<Longrightarrow> x \<notin> region ch s \<Longrightarrow> isActive r' x = isActive r x"
  by (rule but_current_active) (simp add: frame_def)

lemma frame_activateData:
  assumes "parent_of ch s \<noteq> Some s"
  shows "frame ch s r (activateData ch s r)"
  unfolding frame_def
proof (intro allI impI)
  fix x assume "x \<notin> region ch s"
  then have "x \<noteq> s" by (auto simp: region_def)
  then show "but_current (getData (activateData ch s r) x) = but_current (getData r x)"
    by (cases "getData r x") (simp_all add: getData_activateData[OF assms] but_current_def)
qed

lemma frame_arm:
  assumes "frame ch s a r"
  shows "frame ch s a (arm_timers ch s p r)"
  unfolding frame_def
proof (intro allI impI)
  fix x assume x: "x \<notin> region ch s"
  then have "x \<noteq> s" by (auto simp: region_def)
  then show "but_current (getData (arm_timers ch s p r) x) = but_current (getData a x)"
    using assms x by (simp add: frame_def getData_arm_timers(1))
qed

lemma parent_not_in_region:
  assumes "wf_tree ch" "s < n_states ch" "parent_of ch s = Some p"
  shows "p \<notin> region ch s"
  using assms wf_parent(1)[OF assms] by (auto simp: region_def)

section \<open>What is assumed of the virtual calls\<close>

text \<open>The table \<open>V\<close> allows \<open>k\<close> nested calls.\<close>

definition deact_spec :: "bool \<Rightarrow> bool \<Rightarrow> 'e chart \<Rightarrow> 'e vtable \<Rightarrow> nat \<Rightarrow> bool" where
  "deact_spec nr g ch V k \<longleftrightarrow> (\<forall>s p r. 0 < s \<and> s < n_states ch \<and> (nr \<or> n_states ch \<le> s + k) \<and> sound g ch r \<longrightarrow>
     wp nr False (v_deactivate V s p)
       (\<lambda>_ r'. sound g ch r' \<and> \<not> isActive r' s \<and> outside ch s r r') (\<lambda>_ r'. sound g ch r') r)"

definition act_fuel :: "'e chart \<Rightarrow> sid \<Rightarrow> nat \<Rightarrow> bool" where
  "act_fuel ch s k \<longleftrightarrow> 0 < k \<and>
     (is_history (kind_of ch s) \<longrightarrow> (\<forall>p. parent_of ch s = Some p \<longrightarrow> n_states ch < k + p))"

definition act_post :: "bool \<Rightarrow> 'e chart \<Rightarrow> sid \<Rightarrow> 'e rt \<Rightarrow> 'e rt \<Rightarrow> bool" where
  "act_post g ch s r r' \<longleftrightarrow> sound g ch r' \<and> frame ch s r r' \<and>
     (g \<longrightarrow> isActive r' s \<and> (\<not> is_history (kind_of ch s) \<longrightarrow> quiet ch s r'))"

definition act_spec :: "bool \<Rightarrow> bool \<Rightarrow> 'e chart \<Rightarrow> 'e vtable \<Rightarrow> nat \<Rightarrow> bool" where
  "act_spec nr g ch V k \<longleftrightarrow> (\<forall>s p r. s < n_states ch \<and> (nr \<or> act_fuel ch s k) \<and> sound g ch r \<and>
     (g \<longrightarrow> entering ch s r) \<longrightarrow>
     wp nr False (v_activate V s p) (\<lambda>_ r'. act_post g ch s r r') (\<lambda>_ r'. sound g ch r') r)"

definition look_spec :: "bool \<Rightarrow> 'e chart \<Rightarrow> (sid \<Rightarrow> nat) \<Rightarrow> 'e vtable \<Rightarrow> nat \<Rightarrow> bool" where
  "look_spec nr ch rk V k \<longleftrightarrow> (\<forall>s p r. s < n_states ch \<and> is_pseudo (kind_of ch s) \<and> (nr \<or> rk s < k) \<longrightarrow>
     wp nr False (v_lookup V s p) (\<lambda>_ r'. r' = r) (\<lambda>_ _. False) r)"

definition disp_spec :: "bool \<Rightarrow> bool \<Rightarrow> 'e chart \<Rightarrow> nat \<Rightarrow> 'e vtable \<Rightarrow> nat \<Rightarrow> bool" where
  "disp_spec nr g ch R V k \<longleftrightarrow> (\<forall>s ev p r. 0 < s \<and> s < n_states ch \<and>
     (nr \<or> 2 * n_states ch + R + 2 \<le> k + s) \<and> sound g ch r \<and> (g \<longrightarrow> onpath ch s r) \<longrightarrow>
     wp nr False (v_dispatch V s ev p) (\<lambda>_ r'. sound g ch r') (\<lambda>_ r'. sound g ch r') r)"

section \<open>Deactivation\<close>

lemma wp_State_deactivate:
  assumes S: "assured nr g ch rk R" and s: "0 < s" "s < n_states ch"
    and I: "sound g ch r" "g \<Longrightarrow> quiet ch s r"
  shows "wp nr False (State_deactivate ch s p)
    (\<lambda>_ r'. sound g ch r' \<and> \<not> isActive r' s \<and> outside ch s r r') (\<lambda>_ r'. sound g ch r') r"
proof -
  have t: "tidy ch r" using I by (simp add: sound_def)
  have sc: "st_statechart (obj ch s) \<noteq> None" using assuredD(9)[OF S s(2)] by simp
  note step = State_deactivate_step[OF tidyD(4)[OF t] sc, where p = p]
  show ?thesis
  proof (cases "getData r s")
    case None
    then show ?thesis using I step by (simp add: wp_def isActive_def)
  next
    case (Some d)
    show ?thesis
    proof (cases "rd_active d")
      case False
      then show ?thesis using I step Some by (simp add: wp_def isActive_def)
    next
      case True
      let ?r = "deactivateData ch s (upd_sv (cancel_all (timeoutEvents d)) r)"
      have "config ch ?r" if g
        using I that s by (intro config_deactivateData) (auto simp: sound_def config_def quiet_def current_of_def)
      then have inv: "sound g ch ?r" using tidy_deactivate[OF t Some] by (simp add: sound_def)
      have out: "outside ch s r ?r" by (auto simp: outside_def getData_deactivateData)
      have "\<not> isActive ?r s" by (simp add: view_deactivateData)
      then have "wp nr False (mcall (exitAction (obj ch s)) p)
          (\<lambda>_ r'. sound g ch r' \<and> \<not> isActive r' s \<and> outside ch s r r') (\<lambda>_ r'. sound g ch r') ?r"
        using inv out benign_state(3)[OF assuredD(4)[OF S] s(2)]
        by (intro wp_call) (simp_all add: calm_sound view_cong(1)[OF calm_getData] outside_calm)
      moreover have "State_deactivate ch s p r = mcall (exitAction (obj ch s)) p ?r"
        using step Some True by simp
      ultimately show ?thesis by (simp add: wp_def)
    qed
  qed
qed

lemma under_child: "parent_of ch c = Some s \<Longrightarrow> under ch s c"
  by (rule under.step[OF _ under.refl])

lemma wp_HierarchicalState_deactivate:
  assumes S: "assured nr g ch rk R" and V: "deact_spec nr g ch V k"
    and s: "0 < s" "s < n_states ch" "kind_of ch s = Hierarchical" and f: "nr \<or> n_states ch \<le> s + Suc k"
    and I: "sound g ch r"
  shows "wp nr False (HierarchicalState_deactivate ch V s p)
    (\<lambda>_ r'. sound g ch r' \<and> \<not> isActive r' s \<and> outside ch s r r') (\<lambda>_ r'. sound g ch r') r"
proof (cases "isActive r s")
  case False
  then show ?thesis using I by (simp add: HierarchicalState_deactivate_def)
next
  case True
  then obtain d where d: "getData r s = Some d" by (auto simp: isActive_iff)
  note wf = assuredD(1)[OF S]
  have t: "tidy ch r" using I by (simp add: sound_def)
  define store where "store = (case history (obj ch s) of
      None \<Rightarrow> mret ()
    | Some h \<Rightarrow>
        if currentState d \<noteq> startState (obj ch s) \<and> currentState d \<noteq> Some h \<and>
           (case currentState d of None \<Rightarrow> True | Some c \<Rightarrow> kind_of ch c \<noteq> Final)
        then mmod (storeHistory ch h) else mret ())"
  text \<open>Storing the history changes only the history state's own data.\<close>
  have store: "wp nr False store (\<lambda>_ r1. sound g ch r1 \<and> outside ch s r r1 \<and>
      getData r1 s = Some d) (\<lambda>_ _. False) r"
  proof (cases "history (obj ch s)")
    case None
    then show ?thesis using I d by (simp add: store_def)
  next
    case (Some h)
    have h: "h < n_states ch" "parent_of ch h = Some s"
      using assuredD(2)[OF S] s(2) Some by (auto simp: wf_slots_def)
    have "h \<noteq> s" using parent_not_self[OF wf h(1)] h(2) by auto
    have "sound g ch (storeHistory ch h r)" if "currentState d \<noteq> Some h"
    proof -
      have "current_of r s \<noteq> Some h" using that d by (simp add: current_of_def)
      then have "tidy ch (storeHistory ch h r)" by (rule tidy_storeHistory[OF t wf h(2) _ h(1)])
      moreover have "config ch (storeHistory ch h r) = config ch r"
        by (rule config_cong) (simp_all add: view_storeHistory)
      ultimately show ?thesis using I by (simp add: sound_def)
    qed
    moreover have "outside ch s r (storeHistory ch h r)"
      using under_child[OF h(2)] by (auto simp: outside_def storeHistory_data)
    ultimately show ?thesis
      using I d Some \<open>h \<noteq> s\<close> by (auto simp: store_def storeHistory_data)
  qed
  text \<open>The rest, after the substate was left.\<close>
  have rest: "wp nr False (mbind (mvalid (data_valid s (rd_addr d))) (\<lambda>_.
      mbind (mmod (updData s (\<lambda>d. d\<lparr>currentState := None\<rparr>))) (\<lambda>_. State_deactivate ch s p)))
      (\<lambda>_ r'. sound g ch r' \<and> \<not> isActive r' s \<and> outside ch s r r') (\<lambda>_ r'. sound g ch r') r2"
    if r2: "sound g ch r2" "outside ch s r r2" "getData r2 s = Some d" "g \<Longrightarrow> quiet ch s r2" for r2
  proof -
    let ?r3 = "updData s (\<lambda>d. d\<lparr>currentState := None\<rparr>) r2"
    have t2: "tidy ch r2" using r2 by (simp add: sound_def)
    have "tidy ch ?r3"
      by (rule tidy_updData[OF t2]) (use t2 r2(3) in \<open>auto simp: tidy_def data_ok_def\<close>)
    moreover have "config ch ?r3" if g
      by (rule config_upd) (use r2 that in \<open>simp_all add: sound_def\<close>)
    ultimately have I3: "sound g ch ?r3" by (simp add: sound_def)
    have q3: "quiet ch s ?r3" if g
      using r2(4)[OF that] by (simp add: quiet_def isActive_upd_same)
    have o3: "outside ch s r ?r3" using r2(2) by (auto simp: outside_def)
    have "wp nr False (State_deactivate ch s p)
        (\<lambda>_ r'. sound g ch r' \<and> \<not> isActive r' s \<and> outside ch s ?r3 r') (\<lambda>_ r'. sound g ch r') ?r3"
      by (rule wp_State_deactivate[OF S s(1,2) I3 q3])
    then have "wp nr False (State_deactivate ch s p)
        (\<lambda>_ r'. sound g ch r' \<and> \<not> isActive r' s \<and> outside ch s r r') (\<lambda>_ r'. sound g ch r') ?r3"
      by (rule wp_mono) (use o3 outside_trans in \<open>auto\<close>)
    then show ?thesis using r2(3) by (simp add: data_valid_def)
  qed
  have sub: "wp nr False (case currentState d of None \<Rightarrow> mret () | Some c \<Rightarrow> v_deactivate V c p)
      (\<lambda>_ r2. sound g ch r2 \<and> outside ch s r r2 \<and> getData r2 s = Some d \<and> (g \<longrightarrow> quiet ch s r2))
      (\<lambda>_ r'. sound g ch r') r1"
    if r1: "sound g ch r1" "outside ch s r r1" "getData r1 s = Some d" for r1
  proof -
    have t1: "tidy ch r1" and c1: "g \<Longrightarrow> config ch r1" using r1 by (simp_all add: sound_def)
    have cur1: "current_of r1 s = currentState d" using r1(3) by (simp add: current_of_def)
    show ?thesis
    proof (cases "currentState d")
      case None
      have "quiet ch s r1" if g
        by (rule config_quiet_current[OF c1[OF that] wf t1]) (simp add: cur1 None)
      then show ?thesis using None r1 by simp
    next
      case (Some c)
      have c: "c < n_states ch" "parent_of ch c = Some s" using tidyD(2)[OF t1 r1(3) Some] by auto
      have "s < c" by (rule wf_parent(1)[OF wf c])
      then have "wp nr False (v_deactivate V c p)
          (\<lambda>_ r'. sound g ch r' \<and> \<not> isActive r' c \<and> outside ch c r1 r') (\<lambda>_ r'. sound g ch r') r1"
        using V c(1) f r1(1) unfolding deact_spec_def by auto
      then have "wp nr False (v_deactivate V c p)
          (\<lambda>_ r2. sound g ch r2 \<and> outside ch s r r2 \<and> getData r2 s = Some d \<and> (g \<longrightarrow> quiet ch s r2))
          (\<lambda>_ r'. sound g ch r') r1"
      proof (rule wp_mono)
        fix r' assume r': "sound g ch r' \<and> \<not> isActive r' c \<and> outside ch c r1 r'"
        have "\<not> under ch c s" using under_le[OF _ wf s(2), of c] \<open>s < c\<close> by auto
        then have d': "getData r' s = Some d" using r' r1(3) by (simp add: outside_def)
        have "quiet ch s r'" if g
          by (rule config_quiet_current) (use r' d' Some that wf in \<open>auto simp: sound_def current_of_def\<close>)
        moreover have "outside ch s r r'"
          using r' r1(2) outside_under under_child[OF c(2)] outside_trans by blast
        ultimately show "sound g ch r' \<and> outside ch s r r' \<and> getData r' s = Some d \<and> (g \<longrightarrow> quiet ch s r')"
          using r' d' by simp
      qed simp
      then show ?thesis using Some by simp
    qed
  qed
  have "wp nr False (mbind store (\<lambda>_.
      mbind (case currentState d of None \<Rightarrow> mret () | Some c \<Rightarrow> v_deactivate V c p) (\<lambda>_.
      mbind (mvalid (data_valid s (rd_addr d))) (\<lambda>_.
      mbind (mmod (updData s (\<lambda>d. d\<lparr>currentState := None\<rparr>))) (\<lambda>_. State_deactivate ch s p)))))
      (\<lambda>_ r'. sound g ch r' \<and> \<not> isActive r' s \<and> outside ch s r r') (\<lambda>_ r'. sound g ch r') r"
    unfolding wp_bind[of nr False store]
  proof (rule wp_mono[OF store])
    fix a r1 assume r1: "sound g ch r1 \<and> outside ch s r r1 \<and> getData r1 s = Some d"
    show "wp nr False (mbind (case currentState d of None \<Rightarrow> mret () | Some c \<Rightarrow> v_deactivate V c p) (\<lambda>_.
      mbind (mvalid (data_valid s (rd_addr d))) (\<lambda>_.
      mbind (mmod (updData s (\<lambda>d. d\<lparr>currentState := None\<rparr>))) (\<lambda>_. State_deactivate ch s p))))
      (\<lambda>_ r'. sound g ch r' \<and> \<not> isActive r' s \<and> outside ch s r r') (\<lambda>_ r'. sound g ch r') r1"
      unfolding wp_bind[of nr False "case currentState d of None \<Rightarrow> mret () | Some c \<Rightarrow> v_deactivate V c p"]
      by (rule wp_mono[OF sub]) (use r1 rest in blast)+
  qed simp
  then show ?thesis
    using True d by (simp add: HierarchicalState_deactivate_def store_def)
qed

end
