(* ===== verification/Entering.thy ===== *)
theory Entering
  imports Leaving
begin

text \<open>
  The main induction, second part: entering a state.  \<open>State::activate\<close> and
  \<open>PseudoState::activate\<close>, which restores the recorded states of a history state one inside the
  other.
\<close>

section \<open>Activation\<close>

lemma sound_tidy: "sound g ch r \<Longrightarrow> tidy ch r" and sound_config: "sound g ch r \<Longrightarrow> g \<Longrightarrow> config ch r"
  by (simp_all add: sound_def)

lemma act_post_calm: "act_post g ch s r r' \<Longrightarrow> calm r' r'' \<Longrightarrow> act_post g ch s r r''"
  by (auto simp: act_post_def calm_sound view_cong(1)[OF calm_getData] frame_calm quiet_def)

lemma sound_activateData:
  assumes S: "assured nr g ch rk R" and s: "s < n_states ch" and I: "sound g ch r" "g \<Longrightarrow> entering ch s r"
  shows "act_post g ch s r (activateData ch s r)"
proof -
  note wf = assuredD(1)[OF S]
  have t: "tidy ch (activateData ch s r)" by (rule tidy_activateData[OF sound_tidy[OF I(1)] wf s])
  have "config ch (activateData ch s r) \<and> quiet ch s (activateData ch s r) \<and>
      isActive (activateData ch s r) s" if g
    using config_activateData[OF sound_config[OF I(1) that] I(2)[OF that] wf sound_tidy[OF I(1)] s] by simp
  then show ?thesis
    using t frame_activateData[OF parent_not_self[OF wf s]] by (auto simp: act_post_def sound_def)
qed

text \<open>\<open>State::activate\<close> of an inactive state: the data, the timers, then the two actions.\<close>

lemma wp_enter_actions:
  assumes S: "assured nr g ch rk R" and s: "s < n_states ch" "\<not> isActive r s"
    and P: "P (arm_timers ch s p (activateData ch s r))"
      "\<And>r1 r2. P r1 \<Longrightarrow> calm r1 r2 \<Longrightarrow> P r2" "\<And>r1. P r1 \<Longrightarrow> E r1"
  shows "wp nr False (State_activate ch s p) (\<lambda>_. P) (\<lambda>_. E) r"
proof -
  let ?r = "arm_timers ch s p (activateData ch s r)"
  note ok = benign_state(1,2)[OF assuredD(4)[OF S] s(1)]
  have call: "wp nr False (mcall act p) (\<lambda>_. P) (\<lambda>_. E) r1"
    if "P r1" "\<And>a. act = Some a \<Longrightarrow> benign a" for r1 act
    by (rule wp_call) (use that P(2,3) in \<open>blast+\<close>)
  have "wp nr False (mcall (entryAction (obj ch s)) p)
      (\<lambda>_. wp nr False (mcall (doAction (obj ch s)) p) (\<lambda>_. P) (\<lambda>_. E)) (\<lambda>_. E) ?r"
    by (rule wp_mono[OF call[OF P(1) ok(1)]]) (simp_all add: call[OF _ ok(2)])
  then have "wp nr False (mbind (mcall (entryAction (obj ch s)) p) (\<lambda>_.
      mbind (mcall (doAction (obj ch s)) p) (\<lambda>_. mret True))) (\<lambda>_. P) (\<lambda>_. E) ?r"
    by simp
  then show ?thesis
    by (rule wp_step[rotated]) (use s(2) in \<open>simp add: State_activate_step\<close>)
qed

lemma wp_State_activate:
  assumes S: "assured nr g ch rk R" and s: "s < n_states ch" "\<not> is_pseudo (kind_of ch s)"
    and I: "sound g ch r" "g \<Longrightarrow> entering ch s r"
  shows "wp nr False (State_activate ch s p) (\<lambda>_. act_post g ch s r) (\<lambda>_. sound g ch) r"
proof (cases "isActive r s")
  case True
  have "\<not> is_history (kind_of ch s)" using s(2) by (cases "kind_of ch s") auto
  then have "\<not> g" using I(2) True s(2) by (auto simp: entering_def)
  then have "act_post g ch s r r" using I(1) by (simp add: act_post_def)
  then show ?thesis using True by (simp add: State_activate_step wp_def)
next
  case False
  let ?r = "arm_timers ch s p (activateData ch s r)"
  show ?thesis
  proof (rule wp_enter_actions[OF S s(1) False])
    have a: "act_post g ch s r (activateData ch s r)" by (rule sound_activateData[OF S s(1) I])
    then have "tidy ch ?r" "frame ch s r ?r"
      using tidy_arm_timers[OF _ s(2), of "activateData ch s r"] frame_arm[of ch s r "activateData ch s r"]
      by (simp_all add: act_post_def sound_def)
    with a show "act_post g ch s r ?r" by (auto simp: act_post_def sound_def quiet_def config_def)
  qed (rule act_post_calm, assumption+, simp add: act_post_def)
qed

lemma history_unique:
  assumes "wf_slots ch" "c < n_states ch" "parent_of ch h = Some c" "parent_of ch x = Some c"
    and "h < n_states ch" "x < n_states ch" "is_history (kind_of ch h)" "is_history (kind_of ch x)"
  shows "x = h"
proof -
  have "history (obj ch c) = Some h" "history (obj ch c) = Some x"
    using assms unfolding wf_slots_def by blast+
  then show ?thesis by simp
qed

lemma region_of_recorded:
  assumes wf: "wf_tree ch" "wf_slots ch" and h: "h < n_states ch" "is_history (kind_of ch h)" "parent_of ch h = Some c"
    and xs: "linked ch c xs" "h \<notin> set xs" and x: "x \<in> set xs"
  shows "region ch x \<subseteq> region ch h" "h \<notin> region ch x"
    and "is_history (kind_of ch x) \<Longrightarrow> parent_of ch x = Some q \<Longrightarrow> c < q"
proof -
  have c: "c < h" by (rule wf_parent(1)[OF wf(1) h(1,3)])
  note b = linked_bounds[OF wf(1) xs(1) x]
  have hx: "h \<noteq> x" using xs(2) x by auto
  have ux: "under ch c x" by (rule linked_under[OF xs(1) x])
  have par: "under ch c q" "c \<le> q" if "parent_of ch x = Some q" for q
  proof -
    show u: "under ch c q" using under_child_up[OF ux _ that] b(2) by simp
    have "q < n_states ch" using wf_parent(1)[OF wf(1) b(1) that] b(1) by simp
    with under_le[OF u wf(1)] show "c \<le> q" .
  qed
  show strict: "c < q" if "is_history (kind_of ch x)" "parent_of ch x = Some q" for q
  proof -
    have "q \<noteq> c" using history_unique[OF wf(2) _ h(3) _ h(1) b(1) h(2) that(1)] that(2) c h(1) hx by auto
    then show ?thesis using par(2)[OF that(2)] by simp
  qed
  show "region ch x \<subseteq> region ch h"
  proof
    fix y assume "y \<in> region ch x"
    then consider "y = x" | q where "is_history (kind_of ch x)" "parent_of ch x = Some q" "under ch q y" "y \<noteq> q"
      by (auto simp: region_def)
    then have "under ch c y \<and> y \<noteq> c"
    proof cases
      case 1
      then show ?thesis using ux b(2) by auto
    next
      case (2 q)
      have "y \<noteq> c"
      proof
        assume "y = c"
        then have "q \<le> c" using under_le[OF 2(3) wf(1)] c h(1) by simp
        with strict[OF 2(1,2)] show False by simp
      qed
      then show ?thesis using under_trans[OF 2(3) par(1)[OF 2(2)]] by simp
    qed
    then show "y \<in> region ch h" using h by (auto simp: region_def)
  qed
  show "h \<notin> region ch x"
  proof
    assume "h \<in> region ch x"
    then obtain q where q: "is_history (kind_of ch x)" "parent_of ch x = Some q" "under ch q h" "h \<noteq> q"
      using hx by (auto simp: region_def)
    then have "under ch q c" using under_child_up h(3) by blast
    then have "q \<le> c" using under_le[OF _ wf(1)] c h(1) by simp
    with strict[OF q(1,2)] show False by simp
  qed
qed

text \<open>The loop of \<open>PseudoState::activate\<close> over the recorded states.\<close>

definition replayed :: "bool \<Rightarrow> 'e chart \<Rightarrow> sid \<Rightarrow> sid list \<Rightarrow> 'e rt \<Rightarrow> 'e rt \<Rightarrow> bool" where
  "replayed g ch h xs r r' \<longleftrightarrow> sound g ch r' \<and> frame ch h r r' \<and> isActive r' h = isActive r h \<and>
     (g \<and> xs \<noteq> [] \<longrightarrow> isActive r' (last xs))"

lemma wp_restore:
  assumes S: "assured nr g ch rk R" and V: "act_spec nr g ch V k"
    and h: "h < n_states ch" "is_history (kind_of ch h)" "parent_of ch h = Some c"
    and ys: "linked ch q xs" "\<And>x. x \<in> set xs \<Longrightarrow> region ch x \<subseteq> region ch h \<and> h \<notin> region ch x \<and> (nr \<or> act_fuel ch x k)"
    and I: "sound g ch r" "g \<Longrightarrow> xs \<noteq> [] \<Longrightarrow> entering ch (hd xs) r" "getData r h = Some d"
  shows "wp nr False (for_each xs (\<lambda>x. mbind (v_activate V x p) (\<lambda>_.
      mvalid (\<lambda>r. case getData r h of None \<Rightarrow> False
        | Some d' \<Rightarrow> rd_addr d' = rd_addr d \<and> stateset d' = stateset d))))
      (\<lambda>_. replayed g ch h xs r) (\<lambda>_ r'. sound g ch r') r"
  using ys I
proof (induction xs arbitrary: q r d)
  case (Cons x xs)
  let ?body = "\<lambda>x. mbind (v_activate V x p) (\<lambda>_.
      mvalid (\<lambda>r. case getData r h of None \<Rightarrow> False
        | Some d' \<Rightarrow> rd_addr d' = rd_addr d \<and> stateset d' = stateset d))"
  have x: "x < n_states ch" "parent_of ch x = Some q" "linked ch x xs" using Cons.prems(1) by auto
  have reg: "region ch x \<subseteq> region ch h" "h \<notin> region ch x" "nr \<or> act_fuel ch x k" using Cons.prems(2) by auto
  have "wp nr False (v_activate V x p) (\<lambda>_ r'. act_post g ch x r r') (\<lambda>_ r'. sound g ch r') r"
    using V x(1) reg(3) Cons.prems(3,4) unfolding act_spec_def by simp
  then have "wp nr False (?body x) (\<lambda>_. wp nr False (for_each xs ?body)
      (\<lambda>_. replayed g ch h (x # xs) r) (\<lambda>_ r'. sound g ch r'))
      (\<lambda>_ r'. sound g ch r') r"
    unfolding wp_bind
  proof (rule wp_mono)
    fix a r1 assume r1: "act_post g ch x r r1"
    then have fr: "frame ch x r r1" and s1: "sound g ch r1" by (simp_all add: act_post_def)
    then have "but_current (getData r1 h) = but_current (Some d)"
      using reg(2) Cons.prems(5) by (simp add: frame_def)
    then obtain d1 where d1: "getData r1 h = Some d1" "rd_addr d1 = rd_addr d" "stateset d1 = stateset d"
      by (rule but_current_fields)
    have ent: "entering ch (hd xs) r1" if g: g and ne: "xs \<noteq> []"
    proof -
      obtain y zs where xs: "xs = y # zs" using ne by (cases xs) auto
      then have y: "parent_of ch y = Some x" "y < n_states ch" using x(3) by auto
      have "is_context (kind_of ch x)" by (rule wf_parent(2)[OF assuredD(1)[OF S] y(2,1)])
      then have "\<not> is_history (kind_of ch x)" by (cases "kind_of ch x") auto
      then have "isActive r1 x" "quiet ch x r1" using r1 g by (auto simp: act_post_def)
      then show ?thesis using y(1) xs by (auto simp: entering_def quiet_def)
    qed
    have "isActive r1 h = isActive r h" by (rule frame_active[OF fr reg(2)])
    moreover have "frame ch h r r1" by (rule frame_sub[OF fr reg(1)])
    moreover have "g \<longrightarrow> isActive r1 x" using r1 by (simp add: act_post_def)
    ultimately have one: "replayed g ch h [x] r r1" using s1 by (simp add: replayed_def)
    have "wp nr False (for_each xs ?body) (\<lambda>_. replayed g ch h xs r1) (\<lambda>_ r'. sound g ch r') r1"
      by (rule Cons.IH[OF x(3) _ s1 ent d1(1), unfolded d1(2,3)]) (use Cons.prems(2) in auto)
    then have "wp nr False (for_each xs ?body) (\<lambda>_. replayed g ch h (x # xs) r) (\<lambda>_ r'. sound g ch r') r1"
    proof (cases "xs = []")
      case True
      then show ?thesis using one by simp
    next
      case False
      then show ?thesis
        by (intro wp_mono[OF \<open>wp nr False (for_each xs ?body) _ _ r1\<close>])
          (use one frame_trans in \<open>auto simp: replayed_def\<close>)
    qed
    then show "wp nr False (mvalid (\<lambda>r. case getData r h of None \<Rightarrow> False
        | Some d' \<Rightarrow> rd_addr d' = rd_addr d \<and> stateset d' = stateset d))
      (\<lambda>_. wp nr False (for_each xs ?body)
        (\<lambda>_. replayed g ch h (x # xs) r) (\<lambda>_ r'. sound g ch r'))
      (\<lambda>_ r'. sound g ch r') r1"
      using d1 by simp
  qed
  then show ?case unfolding for_each.simps wp_bind .
qed (simp add: replayed_def)

section \<open>The lists of a transition\<close>

lemma lists_within:
  assumes "(D, A) = calculateStateSet ch a b"
  shows "set D \<subseteq> set (path_to ch a)" "set A \<subseteq> set (path_to ch b)"
  using assms by (auto simp: calculateStateSet_def Let_def dest: in_set_dropD)

lemma lists_bounds:
  assumes "wf_tree ch" "lists_ok ch from t" "x \<in> set (tr_deactivate t) \<union> set (tr_activate t)"
  shows "x < n_states ch"
proof -
  obtain a b where ab: "ptr_ok ch a" "ptr_ok ch b" "(tr_deactivate t, tr_activate t) = calculateStateSet ch a b"
    using assms(2,3) by (auto simp: lists_ok_def split: if_splits)
  have path: "set (path_to ch c) \<subseteq> {..<n_states ch}" if c: "ptr_ok ch c" for c
  proof (cases c)
    case (Some y)
    then have "y < n_states ch" using c by (simp add: ptr_ok_def)
    then show ?thesis using path_to_ancestry(2)[OF assms(1), of y] Some by auto
  qed simp
  show ?thesis using lists_within[OF ab(3)] path[OF ab(1)] path[OF ab(2)] assms(3) by blast
qed

text \<open>
  Both lists of a regular transition hang below one state, the least common ancestor, and the
  states to leave end (innermost) with the source.
\<close>

lemma regular_lists:
  assumes wf: "wf_tree ch" "wf_transitions ch" and s: "0 < s" "s < n_states ch"
    and t: "t \<in> set (transitions (obj ch s))" "\<not> tr_internal (trans ch t)"
    and ne: "tr_deactivate (trans ch t) \<noteq> []" "tr_activate (trans ch t) \<noteq> []" "0 \<notin> set (tr_activate (trans ch t))"
  obtains q where "linked ch q (rev (tr_deactivate (trans ch t)))" "linked ch q (tr_activate (trans ch t))"
    "hd (tr_deactivate (trans ch t)) = s"
proof -
  let ?D = "tr_deactivate (trans ch t)" and ?A = "tr_activate (trans ch t)"
  have "lists_ok ch (\<lambda>a. a = Some s) (trans ch t)" using wf(2) s t(1) by (auto simp: wf_transitions_def)
  then obtain b where b: "ptr_ok ch b" "(?D, ?A) = calculateStateSet ch (Some s) b"
    using t(2) by (auto simp: lists_ok_def)
  then obtain e where e: "b = Some e" "e < n_states ch"
    using ne(2) lists_within(2)[OF b(2)] by (cases b) (auto simp: ptr_ok_def)
  have "0 < e"
  proof (rule ccontr)
    assume "\<not> 0 < e"
    then have "set ?A \<subseteq> {..0}"
      using lists_within(2)[OF b(2)] path_to_ancestry(2)[OF wf(1) e(2)] e(1) by auto
    then show False using ne(2,3) by (cases ?A) auto
  qed
  show thesis
  proof (cases "e = s")
    case True
    obtain p where "parent_of ch s = Some p" using wf_parent_ex[OF wf(1) s(2,1)] by blast
    then show thesis
      using that[of p] True b(2) e s(2) calculateStateSet_self[OF wf(1) s(2)] by simp
  next
    case False
    let ?P = "path_to ch (Some s)" and ?P' = "path_to ch (Some e)"
    let ?k = "common_prefix ?P' ?P"
    have DA: "rev ?D = drop ?k ?P" "?A = drop ?k ?P'"
      using b(2) e(1) False by (simp_all add: calculateStateSet_paths Let_def)
    have "linked ch 0 ?P" "linked ch 0 ?P'"
      by (rule ancestry_linked[OF wf(1) path_to_ancestry(1)[OF wf(1)]]; fact)+
    then have "linked ch 0 (take ?k ?P @ rev ?D)" "linked ch 0 (take ?k ?P @ ?A)"
      unfolding DA by (simp, metis append_take_drop_id take_common_prefix)
    then have "linked ch (last (0 # take ?k ?P)) (rev ?D)" "linked ch (last (0 # take ?k ?P)) ?A"
      by (simp_all add: linked_append)
    moreover have "hd ?D = s"
      using DA(1) ne(1) path_to_last(2)[OF wf(1) s(2)]
      by (metis hd_rev last_drop length_greater_0_conv length_drop rev_is_Nil_conv rev_rev_ident zero_less_diff)
    ultimately show thesis by (rule that)
  qed
qed

section \<open>Activation of pseudo-states\<close>

text \<open>Without concurrent states a fork registers no regions.\<close>

lemma register_regions_sequential:
  assumes "\<And>x. x \<in> set xs \<Longrightarrow> kind_of ch x \<noteq> Concurrent"
  shows "register_regions ch xs r = r"
  using assms by (induction ch xs r rule: register_regions.induct) auto

text \<open>Entering a history state re-enters what it has recorded.\<close>

definition restored :: "bool \<Rightarrow> 'e chart \<Rightarrow> sid \<Rightarrow> 'e rt \<Rightarrow> 'e rt \<Rightarrow> bool" where
  "restored g ch h r r' \<longleftrightarrow> (g \<and> is_history (kind_of ch h) \<longrightarrow>
     (\<forall>d. getData r h = Some d \<and> stateset d \<noteq> [] \<longrightarrow> isActive r' (last (stateset d))))"

lemma wp_PseudoState_activate:
  assumes S: "assured nr g ch rk R" and V: "act_spec nr g ch V k"
    and s: "s < n_states ch" "is_pseudo (kind_of ch s)" and f: "nr \<or> act_fuel ch s (Suc k)"
    and I: "sound g ch r" "g \<Longrightarrow> entering ch s r"
  shows "wp nr False (PseudoState_activate ch V s p) (\<lambda>_ r'. act_post g ch s r r' \<and> restored g ch s r r') (\<lambda>_ r'. sound g ch r') r"
proof -
  let ?r1 = "activateData ch s r"
  note wf = assuredD(1)[OF S]
  have post: "act_post g ch s r ?r1" by (rule sound_activateData[OF S s(1) I])
  define rest where "rest (d :: runtimedata option) = (if is_history (kind_of ch s) then
          (case d of
             None \<Rightarrow> mret ()
           | Some d0 \<Rightarrow>
               mbind (mvalid (data_valid s (rd_addr d0))) (\<lambda>_.
               mbind (mget (\<lambda>r. case getData r s of None \<Rightarrow> [] | Some d \<Rightarrow> stateset d)) (\<lambda>sts.
               for_each sts (\<lambda>x.
                 mbind (v_activate V x p) (\<lambda>_.
                 mvalid (\<lambda>r. case getData r s of
                     None \<Rightarrow> False
                   | Some d \<Rightarrow> rd_addr d = rd_addr d0 \<and> stateset d = sts))))))
        else if kind_of ch s = Pseudo Fork then
          for_each (transitions (obj ch s)) (\<lambda>t.
            mmod (\<lambda>r. if guard_accepts (trans ch t) p r
                      then register_regions ch (tr_activate (trans ch t)) r else r))
        else mret ())" for d
  have rest: "wp nr False (rest (getData ?r1 s)) (\<lambda>_ r'. act_post g ch s r r' \<and> restored g ch s r r') (\<lambda>_ r'. sound g ch r') r2"
    if calm: "calm ?r1 r2" for r2
  proof -
    have gd: "getData r2 = getData ?r1" by (rule calm_getData[OF calm])
    have post2: "act_post g ch s r r2" by (rule act_post_calm[OF post calm])
    then have s2: "sound g ch r2" by (simp add: act_post_def)
    consider "is_history (kind_of ch s)" | "\<not> is_history (kind_of ch s)" "kind_of ch s = Pseudo Fork"
      | "\<not> is_history (kind_of ch s)" "kind_of ch s \<noteq> Pseudo Fork" by blast
    then show ?thesis
    proof cases
      case 1
      obtain d where d: "getData r2 s = Some d"
        by (simp add: gd getData_activateData[OF parent_not_self[OF wf s(1)]])
      have s0: "0 < s" using 1 wf_kind_Chart[OF wf s(1)] by (cases "s = 0") auto
      obtain c where c: "parent_of ch s = Some c" "c < s" using wf_parent_ex[OF wf s(1) s0] by blast
      have hist: "linked ch c (stateset d)" "s \<notin> set (stateset d)"
        using tidyD(3)[OF sound_tidy[OF s2] d 1] c(1) by (auto simp: history_ok_def)
      have reg: "region ch x \<subseteq> region ch s \<and> s \<notin> region ch x \<and> (nr \<or> act_fuel ch x k)"
        if x: "x \<in> set (stateset d)" for x
      proof -
        note R = region_of_recorded[OF wf assuredD(2)[OF S] s(1) 1 c(1) hist x]
        have "act_fuel ch x k" if "act_fuel ch s (Suc k)"
        proof -
          have "n_states ch < Suc k + c" using that 1 c(1) by (simp add: act_fuel_def)
          then show ?thesis using R(3) c(2) s(1) by (fastforce simp: act_fuel_def)
        qed
        then show ?thesis using R(1,2) f by blast
      qed
      have ent: "entering ch (hd (stateset d)) r2" if g: g and ne: "stateset d \<noteq> []"
      proof -
        note view = isActive_activateData[OF parent_not_self[OF wf s(1)]] view_cong(1)[OF gd]
        obtain c' where c': "parent_of ch s = Some c'" "isActive r c'"
          "\<And>y. parent_of ch y = Some c' \<Longrightarrow> isActive r y \<Longrightarrow> \<not> is_history (kind_of ch y) \<Longrightarrow> y = s"
          using I(2)[OF g] unfolding entering_def by blast
        have "parent_of ch (hd (stateset d)) = Some c" using hist(1) ne by (cases "stateset d") auto
        moreover have "\<forall>y. parent_of ch y = Some c \<and> isActive r2 y \<longrightarrow> is_history (kind_of ch y)"
          using c'(1,3) c(1) 1 by (auto simp: view)
        ultimately show ?thesis using c' c(1) by (auto simp: entering_def view)
      qed
      have "wp nr False (for_each (stateset d) (\<lambda>x. mbind (v_activate V x p) (\<lambda>_.
          mvalid (\<lambda>r. case getData r s of None \<Rightarrow> False
            | Some d' \<Rightarrow> rd_addr d' = rd_addr d \<and> stateset d' = stateset d))))
          (\<lambda>_. replayed g ch s (stateset d) r2) (\<lambda>_ r'. sound g ch r') r2"
        by (rule wp_restore[OF S V s(1) 1 c(1) hist(1) reg s2 ent d])
      then have loop: "wp nr False (for_each (stateset d) (\<lambda>x. mbind (v_activate V x p) (\<lambda>_.
          mvalid (\<lambda>r. case getData r s of None \<Rightarrow> False
            | Some d' \<Rightarrow> rd_addr d' = rd_addr d \<and> stateset d' = stateset d))))
          (\<lambda>_ r'. act_post g ch s r r' \<and> restored g ch s r r') (\<lambda>_ r'. sound g ch r') r2"
      proof (rule wp_mono)
        fix a r' assume R: "replayed g ch s (stateset d) r2 r'"
        then have "act_post g ch s r r'" using post2 1 frame_trans unfolding act_post_def replayed_def by blast
        moreover have "stateset d = stateset d0" if "getData r s = Some d0" for d0
          using d that by (auto simp: gd getData_activateData[OF parent_not_self[OF wf s(1)]] old_or_new_def)
        then have "restored g ch s r r'" using R by (auto simp: restored_def replayed_def)
        ultimately show "act_post g ch s r r' \<and> restored g ch s r r'" ..
      qed
      have "rest (getData ?r1 s) r2 = for_each (stateset d) (\<lambda>x. mbind (v_activate V x p) (\<lambda>_.
          mvalid (\<lambda>r. case getData r s of None \<Rightarrow> False
            | Some d' \<Rightarrow> rd_addr d' = rd_addr d \<and> stateset d' = stateset d))) r2"
        using 1 d d[unfolded gd] unfolding rest_def by (simp cong: option.case_cong add: mbind_def[of "mvalid _"] mbind_def[of "mget _"] data_valid_def)
      then show ?thesis using loop by (rule wp_step)
    next
      case 2
      have "for_each (transitions (obj ch s)) (\<lambda>t.
            mmod (\<lambda>r. if guard_accepts (trans ch t) p r
                      then register_regions ch (tr_activate (trans ch t)) r else r)) r2 = Ret () r2"
        using assuredD(3)[OF S] s(1)
      proof -
        have "register_regions ch (tr_activate (trans ch t)) r = r" if "t \<in> set (transitions (obj ch s))" for t r
        proof (rule register_regions_sequential)
          fix x assume "x \<in> set (tr_activate (trans ch t))"
          moreover have "lists_ok ch (\<lambda>a. a = Some s) (trans ch t)"
            using assuredD(3)[OF S] s(1) that by (auto simp: wf_transitions_def)
          ultimately have "x < n_states ch" using lists_bounds[OF wf] by blast
          then show "kind_of ch x \<noteq> Concurrent" by (rule assuredD(5)[OF S])
        qed
        then have "set ts \<subseteq> set (transitions (obj ch s)) \<Longrightarrow> for_each ts (\<lambda>t.
            mmod (\<lambda>r. if guard_accepts (trans ch t) p r
                      then register_regions ch (tr_activate (trans ch t)) r else r)) r2 = Ret () r2" for ts
          by (induction ts) (simp_all add: mbind_def)
        then show ?thesis by simp
      qed
      then show ?thesis using 2 post2 by (simp add: rest_def wp_Ret restored_def)
    next
      case 3
      then show ?thesis using post2 by (simp add: rest_def restored_def)
    qed
  qed
  have "wp nr False (mcall (entryAction (obj ch s)) p)
      (\<lambda>_. wp nr False (rest (getData ?r1 s)) (\<lambda>_ r'. act_post g ch s r r' \<and> restored g ch s r r') (\<lambda>_ r'. sound g ch r'))
      (\<lambda>_ r'. sound g ch r') ?r1"
  proof (rule wp_call)
    show "benign a" if "entryAction (obj ch s) = Some a" for a
      by (rule benign_state(1)[OF assuredD(4)[OF S] s(1) that])
    show "sound g ch r'" if "calm ?r1 r'" for r'
      using act_post_calm[OF post that] by (simp add: act_post_def)
  qed (rule rest)
  then show ?thesis
    unfolding PseudoState_activate_def wp_bind wp_mod wp_get wp_ret rest_def .
qed

end
