(* ===== verification/Safety.thy ===== *)
theory Safety
  imports Entering
begin

text \<open>
  The main induction, third part: the virtual calls, transitions, the dispatch of events and
  \<open>Statechart::dispatch\<close>.
\<close>

section \<open>The virtual calls of a chart\<close>

lemma act_spec_vcalls:
  assumes S: "assured nr g ch rk R"
  shows "act_spec nr g ch (vcalls k ch) k"
proof (induction k)
  case 0
  then show ?case by (simp add: act_spec_def act_fuel_def)
next
  case (Suc k)
  show ?case
    unfolding act_spec_def
  proof (intro allI impI, elim conjE)
    fix s p r
    assume s: "s < n_states ch" and f: "nr \<or> act_fuel ch s (Suc k)" and I: "sound g ch r" "g \<longrightarrow> entering ch s r"
    have "wp nr False (call_activate ch (vcalls k ch) s p) (\<lambda>_ r'. act_post g ch s r r') (\<lambda>_ r'. sound g ch r') r"
    proof (cases "kind_of ch s")
      case (Pseudo ty)
      then show ?thesis
        using wp_mono[OF wp_PseudoState_activate[OF S Suc s _ f I(1), of p]] I(2) by (auto simp: call_activate_def)
    next
      case Concurrent
      then show ?thesis using assuredD(5)[OF S s] by simp
    qed (use wp_State_activate[OF S s _ I(1)] I(2) in \<open>simp_all add: call_activate_def\<close>)
    then show "wp nr False (v_activate (vcalls (Suc k) ch) s p) (\<lambda>_ r'. act_post g ch s r r') (\<lambda>_ r'. sound g ch r') r"
      by (simp add: vstep_def)
  qed
qed

lemma deact_spec_vcalls:
  assumes S: "assured nr g ch rk R"
  shows "deact_spec nr g ch (vcalls k ch) k"
proof (induction k)
  case 0
  then show ?case by (auto simp: deact_spec_def)
next
  case (Suc k)
  show ?case
    unfolding deact_spec_def
  proof (intro allI impI, elim conjE)
    fix s p r
    assume s: "0 < s" "s < n_states ch" and f: "nr \<or> n_states ch \<le> s + Suc k" and I: "sound g ch r"
    have simple: "quiet ch s r" if "\<not> is_context (kind_of ch s)"
      by (rule no_children[OF assuredD(1)[OF S] that sound_tidy[OF I]])
    have "wp nr False (call_deactivate ch (vcalls k ch) s p)
        (\<lambda>_ r'. sound g ch r' \<and> \<not> isActive r' s \<and> outside ch s r r') (\<lambda>_ r'. sound g ch r') r"
    proof (cases "kind_of ch s")
      case Chart
      then show ?thesis using wf_kind_Chart[OF assuredD(1)[OF S] s(2)] s(1) by simp
    next
      case Hierarchical
      then show ?thesis
        using wp_HierarchicalState_deactivate[OF S Suc s _ f I] by (simp add: call_deactivate_def)
    next
      case Concurrent
      then show ?thesis using assuredD(5)[OF S s(2)] by simp
    qed (use wp_State_deactivate[OF S s I] simple in \<open>simp_all add: call_deactivate_def\<close>)
    then show "wp nr False (v_deactivate (vcalls (Suc k) ch) s p)
        (\<lambda>_ r'. sound g ch r' \<and> \<not> isActive r' s \<and> outside ch s r r') (\<lambda>_ r'. sound g ch r') r"
      by (simp add: vstep_def)
  qed
qed

text \<open>A lookup changes nothing, and returns because the ranks decrease.\<close>

lemma wp_allowed:
  assumes S: "assured nr g ch rk R" and V: "look_spec nr ch rk V k"
    and s: "s < n_states ch" "t \<in> set (transitions (obj ch s))"
    and f: "tr_activate (trans ch t) \<noteq> [] \<Longrightarrow> is_pseudo (kind_of ch (last (tr_activate (trans ch t)))) \<Longrightarrow>
      nr \<or> rk (last (tr_activate (trans ch t))) < k"
  shows "wp nr False (allowed ch V t p) (\<lambda>_ r'. r' = r) (\<lambda>_ _. False) r"
proof -
  let ?A = "tr_activate (trans ch t)"
  have "wp nr False (v_lookup V (last ?A) p) (\<lambda>_ r'. r' = r) (\<lambda>_ _. False) r"
    if A: "?A \<noteq> []" "is_pseudo (kind_of ch (last ?A))"
  proof -
    have "lists_ok ch (\<lambda>a. a = Some s) (trans ch t)"
      using assuredD(3)[OF S] s by (auto simp: wf_transitions_def)
    then have "last ?A < n_states ch" using lists_bounds[OF assuredD(1)[OF S]] last_in_set[OF A(1)] by blast
    with V A f show ?thesis by (auto simp: look_spec_def)
  qed
  then show ?thesis
    by (simp add: allowed_def InternalTransition_allowed_def Transition_allowed_def)
qed

lemma look_spec_vcalls:
  assumes S: "assured nr g ch rk R"
  shows "look_spec nr ch rk (vcalls k ch) k"
proof (induction k)
  case 0
  then show ?case by (simp add: look_spec_def)
next
  case (Suc k)
  show ?case
    unfolding look_spec_def
  proof (intro allI impI, elim conjE)
    fix s p r
    assume s: "s < n_states ch" "is_pseudo (kind_of ch s)" and f: "nr \<or> rk s < Suc k"
    have fuel: "nr \<or> rk (last (tr_activate (trans ch t))) < k"
      if "t \<in> set (transitions (obj ch s))" "tr_activate (trans ch t) \<noteq> []"
        "is_pseudo (kind_of ch (last (tr_activate (trans ch t))))" for t
      using that f s assuredD(8)[OF S] unfolding ranked_def by fastforce
    have "wp nr False (for_until (transitions (obj ch s)) (\<lambda>t. allowed ch (vcalls k ch) t p))
        (\<lambda>a. if a then (\<lambda>r'. r' = r) else (\<lambda>r'. r' = r)) (\<lambda>_ _. False) r"
    proof (rule wp_for_until)
      fix t r1 assume t: "t \<in> set (transitions (obj ch s))" and r1: "r1 = r"
      show "wp nr False (allowed ch (vcalls k ch) t p)
          (\<lambda>a. if a then (\<lambda>r'. r' = r) else (\<lambda>r'. r' = r)) (\<lambda>_ _. False) r1"
        using wp_allowed[OF S Suc s(1) t fuel[OF t], of p r] r1 by simp
    qed simp
    then show "wp nr False (v_lookup (vcalls (Suc k) ch) s p) (\<lambda>_ r'. r' = r) (\<lambda>_ _. False) r"
      by (simp add: vstep_def PseudoState_lookup_def)
  qed
qed

section \<open>Transitions\<close>

lemma list_states_positive:
  assumes wf: "wf_tree ch" "wf_transitions ch" and s: "0 < s" "s < n_states ch"
    and t: "t \<in> set (transitions (obj ch s))" and x: "x \<in> set (tr_deactivate (trans ch t))"
  shows "0 < x" "x < n_states ch"
proof -
  have ok: "lists_ok ch (\<lambda>a. a = Some s) (trans ch t)" using wf(2) s t by (auto simp: wf_transitions_def)
  show "x < n_states ch" using lists_bounds[OF wf(1) ok] x by blast
  have "\<not> tr_internal (trans ch t)" using ok x by (auto simp: lists_ok_def)
  then obtain b where b: "(tr_deactivate (trans ch t), tr_activate (trans ch t)) = calculateStateSet ch (Some s) b"
    using ok by (auto simp: lists_ok_def)
  have "linked ch 0 (path_to ch (Some s))"
    by (rule ancestry_linked[OF wf(1) path_to_ancestry(1)[OF wf(1) s(2)] s(2,1)])
  then show "0 < x" using lists_within(1)[OF b] x linked_bounds(2)[OF wf(1)] by blast
qed

text \<open>Climbing the active states from the innermost state of a path.\<close>

lemma onpath_climb:
  assumes wf: "wf_tree ch" and c: "config ch r"
  shows "linked ch q (x # xs) \<Longrightarrow> onpath ch (last (x # xs)) r \<Longrightarrow> onpath ch x r"
proof (induction xs arbitrary: q x)
  case (Cons y ys)
  then have "onpath ch y r" by simp
  moreover have y: "y < n_states ch" "parent_of ch y = Some x" and x: "x < n_states ch" "parent_of ch x = Some q"
    using Cons.prems(1) by auto
  ultimately have "isActive r x" by (auto simp: onpath_def)
  moreover have "\<not> is_history (kind_of ch x)"
    using wf_parent(2)[OF wf y] by (cases "kind_of ch x") auto
  ultimately show ?case using config_onpath[OF c] wf_parent(3)[OF wf x] by blast
qed simp

text \<open>Entering the states of a path one below the other.\<close>

definition descended :: "bool \<Rightarrow> 'e chart \<Rightarrow> sid \<Rightarrow> sid list \<Rightarrow> 'e rt \<Rightarrow> 'e rt \<Rightarrow> bool" where
  "descended g ch q xs r r' \<longleftrightarrow> sound g ch r' \<and>
     (g \<longrightarrow> isActive r' (last (q # xs)) \<and>
        (\<not> is_history (kind_of ch (last (q # xs))) \<longrightarrow> quiet ch (last (q # xs)) r')) \<and>
     (\<forall>y. (\<forall>x \<in> set xs. y \<notin> region ch x) \<longrightarrow> but_current (getData r' y) = but_current (getData r y))"

lemma wp_enter_path:
  assumes S: "assured nr g ch rk R" and V: "act_spec nr g ch V k"
    and xs: "\<And>x. x \<in> set xs \<Longrightarrow> x < n_states ch \<and> (nr \<or> act_fuel ch x k)"
    and I: "sound g ch r" "g \<Longrightarrow> linked ch q xs \<and> isActive r q \<and> quiet ch q r"
  shows "wp nr False (for_each xs (\<lambda>x. mbind (v_activate V x p) (\<lambda>_. mret ())))
    (\<lambda>_. descended g ch q xs r) (\<lambda>_ r'. sound g ch r') r"
  using xs I
proof (induction xs arbitrary: q r)
  case (Cons x xs)
  have x: "x < n_states ch" "nr \<or> act_fuel ch x k" using Cons.prems(1) by auto
  have "g \<longrightarrow> entering ch x r" using Cons.prems(3) by (auto simp: entering_def quiet_def)
  then have act: "wp nr False (v_activate V x p) (\<lambda>_ r'. act_post g ch x r r') (\<lambda>_ r'. sound g ch r') r"
    using V x Cons.prems(2) by (simp add: act_spec_def)
  have rest: "wp nr False (for_each xs (\<lambda>x. mbind (v_activate V x p) (\<lambda>_. mret ())))
      (\<lambda>_. descended g ch q (x # xs) r) (\<lambda>_ r'. sound g ch r') r1"
    if r1: "act_post g ch x r r1" for r1
  proof (cases xs)
    case Nil
    then show ?thesis using r1 by (auto simp: act_post_def descended_def frame_def)
  next
    case (Cons y ys)
    have "wp nr False (for_each xs (\<lambda>x. mbind (v_activate V x p) (\<lambda>_. mret ())))
      (\<lambda>_. descended g ch x xs r1) (\<lambda>_ r'. sound g ch r') r1"
    proof (rule Cons.IH)
      show "linked ch x xs \<and> isActive r1 x \<and> quiet ch x r1" if g
      proof -
        have l: "linked ch x xs" using Cons.prems(3)[OF that] by simp
        then have "is_context (kind_of ch x)"
          using wf_parent(2)[OF assuredD(1)[OF S], of y x] \<open>xs = y # ys\<close> by simp
        then have "\<not> is_history (kind_of ch x)" by (cases "kind_of ch x") auto
        then show ?thesis using l r1 that by (simp add: act_post_def)
      qed
    qed (use r1 Cons.prems(1) in \<open>auto simp: act_post_def\<close>)
    then show ?thesis
      by (rule wp_mono) (use r1 in \<open>simp_all add: descended_def act_post_def frame_def\<close>)
  qed
  show ?case
    unfolding for_each.simps wp_bind wp_fun by (rule wp_mono[OF act]) (use rest in simp_all)
qed (simp add: descended_def)

lemma activate_list_sequential:
  assumes "\<And>x. x \<in> set xs \<Longrightarrow> kind_of ch x \<noteq> Concurrent"
  shows "activate_list ch V p xs = for_each xs (\<lambda>x. mbind (v_activate V x p) (\<lambda>_. mret ()))"
  using assms by (induction ch V p xs rule: activate_list.induct) (simp_all add: mbind_assoc)

lemma wp_activate_list:
  assumes S: "assured nr g ch rk R" and V: "act_spec nr g ch V k"
    and xs: "\<And>x. x \<in> set xs \<Longrightarrow> x < n_states ch \<and> (nr \<or> act_fuel ch x k)"
    and I: "sound g ch r" "g \<Longrightarrow> linked ch q xs \<and> isActive r q \<and> quiet ch q r"
  shows "wp nr False (activate_list ch V p xs)
    (\<lambda>_. descended g ch q xs r) (\<lambda>_ r'. sound g ch r') r"
proof -
  have "activate_list ch V p xs = for_each xs (\<lambda>x. mbind (v_activate V x p) (\<lambda>_. mret ()))"
    by (rule activate_list_sequential) (use assuredD(5)[OF S] xs in blast)
  moreover have "wp nr False (for_each xs (\<lambda>x. mbind (v_activate V x p) (\<lambda>_. mret ())))
      (\<lambda>_. descended g ch q xs r) (\<lambda>_ r'. sound g ch r') r"
    by (rule wp_enter_path[OF S V xs I])
  ultimately show ?thesis by simp
qed

lemma wp_deactivate_list:
  assumes S: "assured nr g ch rk R" and V: "deact_spec nr g ch V k"
    and xs: "\<And>x. x \<in> set xs \<Longrightarrow> 0 < x \<and> x < n_states ch \<and> under ch a x" and f: "nr \<or> n_states ch \<le> Suc k"
    and I: "sound g ch r"
  shows "wp nr False (for_each xs (\<lambda>x. v_deactivate V x p))
    (\<lambda>_ r'. sound g ch r' \<and> outside ch a r r' \<and> (xs \<noteq> [] \<longrightarrow> \<not> isActive r' (last xs)))
    (\<lambda>_ r'. sound g ch r') r"
  using xs I
proof (induction xs arbitrary: r)
  case (Cons x xs)
  have x: "0 < x" "x < n_states ch" "under ch a x" using Cons.prems(1) by auto
  have d: "wp nr False (v_deactivate V x p)
      (\<lambda>_ r'. sound g ch r' \<and> \<not> isActive r' x \<and> outside ch x r r') (\<lambda>_ r'. sound g ch r') r"
    using V x f Cons.prems(2) unfolding deact_spec_def by auto
  show ?case
    unfolding for_each.simps wp_bind
  proof (rule wp_mono[OF d])
    fix b r1 assume r1: "sound g ch r1 \<and> \<not> isActive r1 x \<and> outside ch x r r1"
    then have o: "outside ch a r r1" using outside_under x(3) by blast
    have "wp nr False (for_each xs (\<lambda>x. v_deactivate V x p))
      (\<lambda>_ r'. sound g ch r' \<and> outside ch a r1 r' \<and> (xs \<noteq> [] \<longrightarrow> \<not> isActive r' (last xs)))
      (\<lambda>_ r'. sound g ch r') r1"
      by (rule Cons.IH) (use Cons.prems r1 in auto)
    then show "wp nr False (for_each xs (\<lambda>x. v_deactivate V x p))
      (\<lambda>_ r'. sound g ch r' \<and> outside ch a r r' \<and> (x # xs \<noteq> [] \<longrightarrow> \<not> isActive r' (last (x # xs))))
      (\<lambda>_ r'. sound g ch r') r1"
    proof (cases "xs = []")
      case True
      then show ?thesis using r1 o by simp
    next
      case False
      then show ?thesis
        by (intro wp_mono[OF \<open>wp nr False (for_each xs _) _ _ r1\<close>]) (use o outside_trans in auto)
    qed
  qed simp
qed simp

text \<open>The states of the source side were left, and the activate list may be entered below \<open>q\<close>.\<close>

definition landing :: "'e chart \<Rightarrow> tid \<Rightarrow> sid \<Rightarrow> 'e rt \<Rightarrow> 'e rt \<Rightarrow> bool" where
  "landing ch t q r r2 \<longleftrightarrow> tr_activate (trans ch t) \<noteq> [] \<and> linked ch q (tr_activate (trans ch t)) \<and>
     isActive r2 q \<and> quiet ch q r2 \<and> outside ch (last (tr_deactivate (trans ch t))) r r2"

lemma wp_Transition_execute_landing:
  assumes S: "assured nr g ch rk R"
    and V: "deact_spec nr g ch V k" "act_spec nr g ch V k" "look_spec nr ch rk V k"
    and s: "0 < s" "s < n_states ch" and t: "t \<in> set (transitions (obj ch s))" "\<not> tr_internal (trans ch t)"
    and f: "nr \<or> n_states ch < k \<and> R < k"
    and I: "sound g ch r" "g \<Longrightarrow> onpath ch s r"
    and P: "\<And>q r2. sound g ch r2 \<Longrightarrow> (g \<Longrightarrow> landing ch t q r r2) \<Longrightarrow>
      wp nr False (activate_list ch V p (tr_activate (trans ch t))) (\<lambda>_. P) (\<lambda>_ r'. sound g ch r') r2"
  shows "wp nr False (Transition_execute ch V (trans ch t) ev p)
    (\<lambda>b r'. if b then P r' else r' = r) (\<lambda>_ r'. sound g ch r') r"
proof -
  let ?D = "tr_deactivate (trans ch t)" and ?A = "tr_activate (trans ch t)"
  note wf = assuredD(1,3)[OF S]
  have tl: "t < length (ownedTransitions ch)" and ok: "lists_ok ch (\<lambda>a. a = Some s) (trans ch t)"
    using wf(2) s t(1) by (auto simp: wf_transitions_def)
  have A: "x < n_states ch \<and> (nr \<or> act_fuel ch x k)" if "x \<in> set ?A" for x
    using lists_bounds[OF wf(1) ok] that f by (auto simp: act_fuel_def)
  have look: "wp nr False (allowed ch V t p) (\<lambda>_ r'. r' = r) (\<lambda>_ _. False) r"
  proof (rule wp_allowed[OF S V(3) s(2) t(1)])
    assume a: "?A \<noteq> []" "is_pseudo (kind_of ch (last ?A))"
    have "rk (last ?A) \<le> R" if "\<not> nr"
      using assuredD(8)[OF S that] a A[OF last_in_set[OF a(1)]] by (auto simp: ranked_def)
    then show "nr \<or> rk (last ?A) < k" using f by fastforce
  qed
  text \<open>Where the transition happens: below \<open>q\<close>, whose current state \<open>top\<close> is left.\<close>
  obtain q top where top: "\<And>x. x \<in> set ?D \<Longrightarrow> under ch top x"
    and g_lists: "g \<Longrightarrow> ?D \<noteq> [] \<and> last ?D = top \<and> ?A \<noteq> [] \<and> linked ch q ?A \<and> isActive r q \<and> current_of r q = Some top \<and>
      \<not> under ch top q"
  proof (cases g)
    case False
    have "under ch 0 x" if "x \<in> set ?D" for x
    proof -
      note x = list_states_positive[OF wf s t(1) that]
      have "linked ch 0 (path_to ch (Some x))"
        by (rule ancestry_linked[OF wf(1) path_to_ancestry(1)[OF wf(1) x(2)] x(2,1)])
      then show ?thesis using linked_under path_to_last[OF wf(1) x(2)] by (metis last_in_set)
    qed
    then show thesis using False by (intro that[of 0 0]) auto
  next
    case True
    have reg: "?D \<noteq> []" "?A \<noteq> []" "0 \<notin> set ?A"
      using assuredD(6)[OF S True] s(2) t unfolding regular_def by blast+
    obtain q where q: "linked ch q (rev ?D)" "linked ch q ?A" "hd ?D = s"
      by (rule regular_lists[OF wf s t reg])
    obtain x xs where xs: "rev ?D = x # xs" using reg(1) by (cases "rev ?D") auto
    have "last (x # xs) = s" using q(3) xs reg(1) by (metis last_rev)
    then have "onpath ch x r"
      using onpath_climb[OF wf(1) sound_config[OF I(1) True], of q x xs] q(1) xs I(2)[OF True] by simp
    moreover have x: "parent_of ch x = Some q" "x < n_states ch" using q(1) xs by auto
    ultimately have cur: "isActive r q" "current_of r q = Some x" by (auto simp: onpath_def)
    have "\<not> under ch x q"
      using under_le[OF _ wf(1)] wf_parent(1)[OF wf(1) x(2,1)] x(2) by fastforce
    moreover have "under ch x y" if "y \<in> set ?D" for y
      using q(1) that xs linked_under[of ch x xs y] by (metis linked.simps(2) set_ConsD set_rev under.refl)
    moreover have "last ?D = x" using xs by (metis hd_rev list.sel(1))
    ultimately show thesis using that[of x q] reg q(2) cur by blast
  qed
  have act: "wp nr False (mcall (tr_action (trans ch t)) p)
      (\<lambda>_. wp nr False (activate_list ch V p ?A) (\<lambda>_. P) (\<lambda>_ r'. sound g ch r'))
      (\<lambda>_ r'. sound g ch r') r1"
    if r1: "sound g ch r1" "g \<Longrightarrow> landing ch t q r r1" for r1
  proof (rule wp_call)
    show "benign a" if "tr_action (trans ch t) = Some a" for a
      using assuredD(4)[OF S] tl that by (auto simp: benign_chart_def)
    show "sound g ch r'" if "calm r1 r'" for r' using r1(1) calm_sound[OF that] by simp
    then show "wp nr False (activate_list ch V p ?A) (\<lambda>_. P) (\<lambda>_ r'. sound g ch r') r'"
      if "calm r1 r'" for r'
      using that r1(2)
      by (intro P) (auto simp: landing_def quiet_def outside_def calm_getData[OF that] view_cong(1)[OF calm_getData[OF that]])
  qed
  have leave: "wp nr False (for_each ?D (\<lambda>s. v_deactivate V s p))
    (\<lambda>_ r'. sound g ch r' \<and> outside ch top r r' \<and> (?D \<noteq> [] \<longrightarrow> \<not> isActive r' (last ?D)))
    (\<lambda>_ r'. sound g ch r') r"
    by (rule wp_deactivate_list[OF S V(1) _ _ I(1)]) (use list_states_positive[OF wf s t(1)] top f in auto)
  have body: "wp nr False (for_each ?D (\<lambda>s. v_deactivate V s p))
    (\<lambda>_. wp nr False (mcall (tr_action (trans ch t)) p)
      (\<lambda>_. wp nr False (activate_list ch V p ?A) (\<lambda>_. P) (\<lambda>_ r'. sound g ch r'))
      (\<lambda>_ r'. sound g ch r')) (\<lambda>_ r'. sound g ch r') r"
  proof (rule wp_mono[OF leave])
    fix a r1 assume r1: "sound g ch r1 \<and> outside ch top r r1 \<and> (?D \<noteq> [] \<longrightarrow> \<not> isActive r1 (last ?D))"
    have "landing ch t q r r1" if g
    proof -
      note G = g_lists[OF that]
      have v: "isActive r1 q" "current_of r1 q = Some top"
        using G r1 outside_views[of ch top r r1 q] by auto
      have "quiet ch q r1"
        using config_quiet_current[OF sound_config[OF _ that] wf(1) sound_tidy, of r1 g q] G r1 v(2) by auto
      then show ?thesis using v(1) G r1 by (simp add: landing_def)
    qed
    then show "wp nr False (mcall (tr_action (trans ch t)) p)
      (\<lambda>_. wp nr False (activate_list ch V p ?A) (\<lambda>_. P) (\<lambda>_ r'. sound g ch r'))
      (\<lambda>_ r'. sound g ch r') r1"
      by (intro act) (use r1 in auto)
  qed simp
  let ?body = "mbind (for_each ?D (\<lambda>s. v_deactivate V s p)) (\<lambda>_.
         mbind (mcall (tr_action (trans ch t)) p) (\<lambda>_.
         mbind (activate_list ch V p ?A) (\<lambda>_.
         mret True)))"
  let ?step = "mbind (Transition_allowed ch V (trans ch t) p) (\<lambda>ok. if \<not> ok then mret False else ?body)"
  have step: "wp nr False ?step (\<lambda>b r'. if b then P r' else r' = r) (\<lambda>_ r'. sound g ch r') r"
    unfolding wp_bind[of _ _ "Transition_allowed ch V (trans ch t) p"]
    by (rule wp_mono[OF look[unfolded allowed_def if_not_P[OF t(2)]]]) (use body in auto)
  have eq: "Transition_execute ch V (trans ch t) ev p r =
      (if triggered ch (trans ch t) ev p r then ?step r else Ret False r)"
    by (simp add: Transition_execute_def)
  show ?thesis
  proof (cases "triggered ch (trans ch t) ev p r")
    case True
    then show ?thesis using eq by (intro wp_step[OF _ step]) simp
  next
    case False
    then show ?thesis using eq by (simp add: wp_Ret)
  qed
qed

text \<open>A transition that has fired leaves its target active.\<close>

definition arrived :: "bool \<Rightarrow> 'e chart \<Rightarrow> tid \<Rightarrow> 'e rt \<Rightarrow> bool" where
  "arrived g ch t r \<longleftrightarrow> sound g ch r \<and> (g \<longrightarrow> isActive r (last (tr_activate (trans ch t))))"

lemma activate_fuel:
  assumes S: "assured nr g ch rk R" and s: "0 < s" "s < n_states ch" and t: "t \<in> set (transitions (obj ch s))"
    and f: "nr \<or> n_states ch < k" and x: "x \<in> set (tr_activate (trans ch t))"
  shows "x < n_states ch \<and> (nr \<or> act_fuel ch x k)"
proof -
  have "lists_ok ch (\<lambda>a. a = Some s) (trans ch t)"
    using assuredD(3)[OF S] s t by (auto simp: wf_transitions_def)
  then show ?thesis using lists_bounds[OF assuredD(1)[OF S]] x f by (auto simp: act_fuel_def)
qed

lemma wp_Transition_execute:
  assumes S: "assured nr g ch rk R"
    and V: "deact_spec nr g ch V k" "act_spec nr g ch V k" "look_spec nr ch rk V k"
    and s: "0 < s" "s < n_states ch" and t: "t \<in> set (transitions (obj ch s))" "\<not> tr_internal (trans ch t)"
    and f: "nr \<or> n_states ch < k \<and> R < k"
    and I: "sound g ch r" "g \<Longrightarrow> onpath ch s r"
  shows "wp nr False (Transition_execute ch V (trans ch t) ev p)
    (\<lambda>b r'. if b then arrived g ch t r' else r' = r) (\<lambda>_ r'. sound g ch r') r"
proof (rule wp_Transition_execute_landing[OF S V s t f I])
  fix q r2 assume r2: "sound g ch r2" and l: "g \<Longrightarrow> landing ch t q r r2"
  show "wp nr False (activate_list ch V p (tr_activate (trans ch t))) (\<lambda>_. arrived g ch t) (\<lambda>_ r'. sound g ch r') r2"
    by (rule wp_mono[OF wp_activate_list[OF S V(2) activate_fuel[OF S s t(1)] r2, where q = q]])
      (use f l in \<open>auto simp: arrived_def descended_def landing_def\<close>)
qed

text \<open>A transition that does not fire changes nothing.\<close>

lemma wp_execute:
  assumes S: "assured nr g ch rk R"
    and V: "deact_spec nr g ch V k" "act_spec nr g ch V k" "look_spec nr ch rk V k"
    and s: "0 < s" "s < n_states ch" and t: "t \<in> set (transitions (obj ch s))"
    and f: "nr \<or> n_states ch < k \<and> R < k"
    and I: "sound g ch r" "g \<Longrightarrow> onpath ch s r"
  shows "wp nr False (execute ch V t ev p)
    (\<lambda>b r'. if b then sound g ch r' else r' = r) (\<lambda>_ r'. sound g ch r') r"
proof (cases "tr_internal (trans ch t)")
  case False
  show ?thesis
    unfolding execute_def if_not_P[OF False]
    by (rule wp_mono[OF wp_Transition_execute[OF S V s t False f I]]) (simp_all add: arrived_def split: if_splits)
next
  case True
  have "t < length (ownedTransitions ch)"
    using assuredD(3)[OF S] s t by (auto simp: wf_transitions_def)
  then have "wp nr False (mcall (tr_action (trans ch t)) p) (\<lambda>_ r'. sound g ch r') (\<lambda>_ r'. sound g ch r') r"
    using assuredD(4)[OF S] I(1) by (intro wp_call) (auto simp: benign_chart_def calm_sound)
  then show ?thesis
    using True by (simp add: execute_def InternalTransition_execute_def InternalTransition_allowed_def)
qed

section \<open>Dispatch\<close>

lemma wp_State_dispatch:
  assumes S: "assured nr g ch rk R"
    and V: "deact_spec nr g ch V k" "act_spec nr g ch V k" "look_spec nr ch rk V k"
    and s: "0 < s" "s < n_states ch" and f: "nr \<or> n_states ch < k \<and> R < k"
    and I: "sound g ch r" "g \<Longrightarrow> onpath ch s r"
  shows "wp nr False (State_dispatch ch V s ev p) (\<lambda>_ r'. sound g ch r') (\<lambda>_ r'. sound g ch r') r"
proof -
  have "wp nr False (for_until (transitions (obj ch s)) (\<lambda>t. execute ch V t ev p))
      (\<lambda>b r'. if b then sound g ch r' else r' = r) (\<lambda>_ r'. sound g ch r') r"
    by (rule wp_for_until_first, rule wp_execute[OF S V s _ f I])
  then show ?thesis
    unfolding State_dispatch_def by (rule wp_mono) (use I(1) in \<open>auto split: if_splits\<close>)
qed

lemma wp_PseudoState_dispatch:
  assumes S: "assured nr g ch rk R"
    and V: "deact_spec nr g ch V k" "act_spec nr g ch V k" "look_spec nr ch rk V k" "disp_spec nr g ch R V k"
    and s: "0 < s" "s < n_states ch" and f: "nr \<or> n_states ch < k \<and> R < k"
    and I: "sound g ch r" "g \<Longrightarrow> onpath ch s r"
  shows "wp nr False (PseudoState_dispatch ch V s ev p) (\<lambda>_ r'. sound g ch r') (\<lambda>_ r'. sound g ch r') r"
proof -
  note wf = assuredD(1)[OF S]
  note plain = wp_State_dispatch[OF S V(1,2,3) s f I, of ev p]
  consider (history) "is_history (kind_of ch s)" | (fork) "\<not> is_history (kind_of ch s)" "kind_of ch s = Pseudo Fork"
    | (other) "\<not> is_history (kind_of ch s)" "kind_of ch s \<noteq> Pseudo Fork" by blast
  then show ?thesis
  proof cases
    case history
    obtain c where c: "parent_of ch s = Some c" using wf_parent_ex[OF wf s(2,1)] by blast
    have redirect: "wp nr False (v_dispatch V x ev p) (\<lambda>_ r'. sound g ch r') (\<lambda>_ r'. sound g ch r') r"
      if x: "current_of r c = Some x" "x \<noteq> s" for x
    proof -
      have "\<not> g" using I(2) c x by (auto simp: onpath_def)
      moreover from this have nr using assuredD(7)[OF S] by blast
      moreover have "0 < x" "x < n_states ch"
        using tidy_current[OF sound_tidy[OF I(1)] x(1)] wf_parent(3)[OF wf] by blast+
      ultimately show ?thesis using V(4) I(1) by (simp add: disp_spec_def)
    qed
    have "PseudoState_dispatch ch V s ev p r =
        (case current_of r c of None \<Rightarrow> State_dispatch ch V s ev p r
         | Some x \<Rightarrow> if x \<noteq> s then v_dispatch V x ev p r else State_dispatch ch V s ev p r)"
      using history c by (simp add: PseudoState_dispatch_def current_of_def split: option.split)
    then show ?thesis
      using plain redirect by (auto simp: wp_def split: option.splits)
  next
    case fork
    then have "\<not> g" using assuredD(6)[OF S] s(2) by (auto simp: regular_def)
    have "wp nr False (for_each (transitions (obj ch s)) (\<lambda>t. mbind (execute ch V t ev p) (\<lambda>_. mret ())))
        (\<lambda>_. sound g ch) (\<lambda>_ r'. sound g ch r') r"
    proof (rule wp_for_each)
      show "sound g ch r" by (rule I(1))
    next
      fix t r1 assume "t \<in> set (transitions (obj ch s))" "sound g ch r1"
      then have "wp nr False (execute ch V t ev p)
          (\<lambda>b r'. if b then sound g ch r' else r' = r1) (\<lambda>_ r'. sound g ch r') r1"
        using \<open>\<not> g\<close> by (intro wp_execute[OF S V(1,2,3) s _ f]) auto
      then have "wp nr False (execute ch V t ev p) (\<lambda>b r'. sound g ch r') (\<lambda>_ r'. sound g ch r') r1"
        by (rule wp_mono) (use \<open>sound g ch r1\<close> in \<open>auto split: if_splits\<close>)
      then show "wp nr False (mbind (execute ch V t ev p) (\<lambda>_. mret ())) (\<lambda>_. sound g ch) (\<lambda>_ r'. sound g ch r') r1"
        by simp
    qed
    then show ?thesis using fork by (simp add: PseudoState_dispatch_def)
  next
    case other
    then show ?thesis using plain by (simp add: PseudoState_dispatch_def)
  qed
qed

text \<open>The first entry: the start state becomes the current one and is activated.\<close>

lemma wp_enter_start:
  assumes S: "assured nr g ch rk R" and V: "act_spec nr g ch V k"
    and s: "s < n_states ch" and st: "startState (obj ch s) = Some st" and f: "nr \<or> 0 < k"
    and d: "getData r s = Some d" "currentState d = None"
    and I: "sound g ch r" "g \<Longrightarrow> isActive r s"
  shows "wp nr False (enter_start ch V s st p)
    (\<lambda>_ r'. sound g ch r' \<and> (g \<longrightarrow> isActive r' s)) (\<lambda>_ r'. sound g ch r') r"
proof -
  note wf = assuredD(1)[OF S]
  have k: "st < n_states ch" "parent_of ch st = Some s" "kind_of ch st = Pseudo Start"
    using assuredD(2)[OF S] s st by (auto simp: wf_slots_def)
  let ?r = "activateData ch st r"
  have "quiet ch s r" if g
    by (rule config_quiet_current[OF sound_config[OF I(1) that] wf sound_tidy[OF I(1)]])
      (use d in \<open>simp add: current_of_def\<close>)
  then have "entering ch st r" if g
    using that I(2) k by (auto simp: entering_def quiet_def)
  then have post: "act_post g ch st r ?r" by (rule sound_activateData[OF S k(1) I(1)])
  have out: "s \<notin> region ch st" by (rule parent_not_in_region[OF wf k(1,2)])
  have stay: "isActive r' s" if "g" "frame ch st r1 r'" "isActive r1 s" for r1 r'
    using frame_active[OF that(2) out] that(3) by simp
  have ent: "entering ch st ?r" if g
  proof -
    have "quiet ch s r" using \<open>g \<Longrightarrow> quiet ch s r\<close> that .
    then show ?thesis
      using k stay[OF that _ I(2)[OF that]] post that
      by (auto simp: entering_def quiet_def act_post_def isActive_activateData[OF parent_not_self[OF wf k(1)]])
  qed
  have gd: "getData ?r s = Some (d\<lparr>currentState := Some st\<rparr>)"
    using d k wf_parent(1)[OF wf k(1,2)] by (simp add: getData_activateData[OF parent_not_self[OF wf k(1)]])
  have "nr \<or> act_fuel ch st k" using f k(3) by (auto simp: act_fuel_def)
  then have "wp nr False (v_activate V st p) (\<lambda>_ r'. act_post g ch st ?r r') (\<lambda>_ r'. sound g ch r') ?r"
    using V k(1) post ent by (simp add: act_spec_def act_post_def)
  then have "wp nr False (v_activate V st p)
      (\<lambda>_ r'. data_valid s (rd_addr d) r' \<and> sound g ch r' \<and> (g \<longrightarrow> isActive r' s)) (\<lambda>_ r'. sound g ch r') ?r"
  proof (rule wp_mono)
    fix a r' assume r': "act_post g ch st ?r r'"
    then have fr: "frame ch st ?r r'" by (simp add: act_post_def)
    then have "but_current (getData r' s) = but_current (Some (d\<lparr>currentState := Some st\<rparr>))"
      using out gd by (simp add: frame_def)
    then have "data_valid s (rd_addr d) r'"
      by (rule but_current_fields) (simp add: data_valid_def)
    moreover have "isActive r' s" if g
      using stay[OF that fr] stay[OF that, of r ?r] post I(2)[OF that] by (simp add: act_post_def)
    ultimately show "data_valid s (rd_addr d) r' \<and> sound g ch r' \<and> (g \<longrightarrow> isActive r' s)"
      using r' by (simp add: act_post_def)
  qed
  then have "wp nr False (mbind (v_activate V st p) (\<lambda>_. mvalid (data_valid s (rd_addr d))))
      (\<lambda>_ r'. sound g ch r' \<and> (g \<longrightarrow> isActive r' s)) (\<lambda>_ r'. sound g ch r') ?r"
    unfolding wp_bind by (rule wp_mono) simp_all
  then show ?thesis using gd by (simp add: enter_start_def wp_def mbind_def)
qed

lemma wp_hierarchical_transition:
  assumes S: "assured nr g ch rk R"
    and V: "deact_spec nr g ch V k" "act_spec nr g ch V k" "look_spec nr ch rk V k"
    and s: "0 < s" "s < n_states ch" and t: "t \<in> set (transitions (obj ch s))"
    and f: "nr \<or> n_states ch < k \<and> R < k"
    and I: "sound g ch r" "g \<Longrightarrow> onpath ch s r"
  shows "wp nr False (hierarchical_transition ch V fin ev p t)
    (\<lambda>b r'. if b then sound g ch r' else r' = r) (\<lambda>_ r'. sound g ch r') r"
proof -
  note fire = wp_execute[OF S V s t f I]
  have "wp nr False (execute ch V t None p)
      (\<lambda>b. wp nr False (if b then mret True else execute ch V t ev p)
        (\<lambda>b r'. if b then sound g ch r' else r' = r) (\<lambda>_ r'. sound g ch r')) (\<lambda>_ r'. sound g ch r') r"
    by (rule wp_mono[OF fire]) (use fire in \<open>auto split: if_splits\<close>)
  then show ?thesis using fire by (simp add: hierarchical_transition_def)
qed

lemma wp_HierarchicalState_dispatch:
  assumes S: "assured nr g ch rk R"
    and V: "deact_spec nr g ch V k" "act_spec nr g ch V k" "look_spec nr ch rk V k" "disp_spec nr g ch R V k"
    and s: "0 < s" "s < n_states ch" "kind_of ch s = Hierarchical"
    and f: "nr \<or> 2 * n_states ch + R + 2 \<le> Suc k + s"
    and I: "sound g ch r"
  shows "wp nr False (HierarchicalState_dispatch ch V s ev p) (\<lambda>_ r'. sound g ch r') (\<lambda>_ r'. sound g ch r') r"
proof (cases "isActive r s")
  case False
  then show ?thesis using I by (simp add: HierarchicalState_dispatch_def)
next
  case True
  note wf = assuredD(1)[OF S]
  have f': "nr \<or> n_states ch < k \<and> R < k" using f s(2) by linarith
  have own: "wp nr False (for_until (transitions (obj ch s)) (hierarchical_transition ch V fin ev p))
      (\<lambda>_ r'. sound g ch r') (\<lambda>_ r'. sound g ch r') r1"
    if r1: "sound g ch r1" "isActive r1 s" for r1 fin
  proof -
    have "onpath ch s r1" if g
      using config_onpath[OF sound_config[OF r1(1) that] r1(2) _ s(1)] s(3) by simp
    then have "wp nr False (for_until (transitions (obj ch s)) (hierarchical_transition ch V fin ev p))
        (\<lambda>b r'. if b then sound g ch r' else r' = r1) (\<lambda>_ r'. sound g ch r') r1"
      by (intro wp_for_until_first wp_hierarchical_transition[OF S V(1,2,3) s(1,2) _ f' r1(1)])
    then show ?thesis by (rule wp_mono) (use r1(1) in \<open>auto split: if_splits\<close>)
  qed
  have sub: "wp nr False (case current_of r1 s of None \<Rightarrow> mret False | Some c \<Rightarrow> v_dispatch V c ev p)
      (\<lambda>_ r'. sound g ch r') (\<lambda>_ r'. sound g ch r') r1"
    if r1: "sound g ch r1" "g \<Longrightarrow> isActive r1 s" for r1
  proof (cases "current_of r1 s")
    case None
    then show ?thesis using r1 by simp
  next
    case (Some c)
    have c: "c < n_states ch" "parent_of ch c = Some s" using tidy_current[OF sound_tidy[OF r1(1)] Some] by auto
    have "s < c" by (rule wf_parent(1)[OF wf c])
    moreover have "g \<longrightarrow> onpath ch c r1" using r1(2) c(2) Some by (auto simp: onpath_def)
    ultimately have "wp nr False (v_dispatch V c ev p) (\<lambda>_ r'. sound g ch r') (\<lambda>_ r'. sound g ch r') r1"
      using V(4) c(1) f r1(1) by (auto simp: disp_spec_def)
    then show ?thesis using Some by simp
  qed
  define after where "after handled = mbind (mget (\<lambda>r. (isActive r s, current_of r s))) (\<lambda>(still, current).
       if \<not> still then mret handled
       else
         (let currentIsFinal = (case current of None \<Rightarrow> False | Some c \<Rightarrow> kind_of ch c = Final)
          in if handled \<and> \<not> currentIsFinal then mret handled
             else for_until (transitions (obj ch s))
                    (hierarchical_transition ch V currentIsFinal ev p)))" for handled
  have after: "wp nr False (after b) (\<lambda>_ r'. sound g ch r') (\<lambda>_ r'. sound g ch r') r1"
    if "sound g ch r1" for b r1
    using that own by (simp add: after_def Let_def)
  have body: "wp nr False (mbind (mget (\<lambda>r. current_of r s)) (\<lambda>cur.
       mbind (case cur of None \<Rightarrow> mret False | Some c \<Rightarrow> v_dispatch V c ev p) after))
      (\<lambda>_ r'. sound g ch r') (\<lambda>_ r'. sound g ch r') r1"
    if r1: "sound g ch r1" "g \<Longrightarrow> isActive r1 s" for r1
    unfolding wp_bind wp_get by (rule wp_mono[OF sub[OF r1]]) (use after in auto)
  obtain d where d: "getData r s = Some d" using True by (auto simp: isActive_iff)
  let ?start = "case (getData r s, startState (obj ch s)) of
            (Some d, Some st) \<Rightarrow>
              if currentState d \<noteq> None then mret () else enter_start ch V s st p
          | _ \<Rightarrow> mret ()"
  have start: "wp nr False ?start (\<lambda>_ r'. sound g ch r' \<and> (g \<longrightarrow> isActive r' s)) (\<lambda>_ r'. sound g ch r') r"
  proof (cases "startState (obj ch s)")
    case (Some st)
    then show ?thesis
      using I True d wp_enter_start[OF S V(2) s(2) Some _ d _ I] f' by auto
  qed (use I True d in simp)
  have "wp nr False (mbind ?start (\<lambda>_. mbind (mget (\<lambda>r. current_of r s)) (\<lambda>cur.
       mbind (case cur of None \<Rightarrow> mret False | Some c \<Rightarrow> v_dispatch V c ev p) after)))
      (\<lambda>_ r'. sound g ch r') (\<lambda>_ r'. sound g ch r') r"
    unfolding wp_bind[of _ _ ?start] by (rule wp_mono[OF start]) (use body in auto)
  then show ?thesis
    by (rule wp_step[rotated]) (use True in \<open>simp add: HierarchicalState_dispatch_def after_def[abs_def]\<close>)
qed

lemma disp_spec_vcalls:
  assumes S: "assured nr g ch rk R"
  shows "disp_spec nr g ch R (vcalls k ch) k"
proof (induction k)
  case 0
  then show ?case by (auto simp: disp_spec_def)
next
  case (Suc k)
  note V = deact_spec_vcalls[OF S, of k] act_spec_vcalls[OF S, of k] look_spec_vcalls[OF S, of k]
  show ?case
    unfolding disp_spec_def
  proof (intro allI impI, elim conjE)
    fix s ev p r
    assume s: "0 < s" "s < n_states ch" and f: "nr \<or> 2 * n_states ch + R + 2 \<le> Suc k + s"
      and I: "sound g ch r" "g \<longrightarrow> onpath ch s r"
    have f': "nr \<or> n_states ch < k \<and> R < k" using f s(2) by linarith
    have "wp nr False (call_dispatch ch (vcalls k ch) s ev p) (\<lambda>_ r'. sound g ch r') (\<lambda>_ r'. sound g ch r') r"
    proof (cases "kind_of ch s")
      case Chart
      then show ?thesis using wf_kind_Chart[OF assuredD(1)[OF S] s(2)] s(1) by simp
    next
      case Concurrent
      then show ?thesis using assuredD(5)[OF S s(2)] by simp
    next
      case Hierarchical
      then show ?thesis
        using wp_HierarchicalState_dispatch[OF S V Suc s _ f I(1)] by (simp add: call_dispatch_def)
    next
      case (Pseudo ty)
      then show ?thesis
        using wp_PseudoState_dispatch[OF S V Suc s f' I(1)] I(2) by (simp add: call_dispatch_def)
    qed (use wp_State_dispatch[OF S V s f' I(1)] I(2) in \<open>simp_all add: call_dispatch_def\<close>)
    then show "wp nr False (v_dispatch (vcalls (Suc k) ch) s ev p)
        (\<lambda>_ r'. sound g ch r') (\<lambda>_ r'. sound g ch r') r"
      by (simp add: vstep_def)
  qed
qed

section \<open>The statechart\<close>

lemma wp_current_of_chart:
  assumes S: "assured nr g ch rk R" and V: "disp_spec nr g ch R V k"
    and f: "nr \<or> 2 * n_states ch + R + 1 \<le> k" and I: "sound g ch r" and c: "current_of r 0 = Some c"
  shows "wp nr False (v_dispatch V c ev p) (\<lambda>_ r'. sound g ch r') (\<lambda>_ r'. sound g ch r') r"
proof -
  have b: "c < n_states ch" "parent_of ch c = Some 0" using tidy_current[OF sound_tidy[OF I] c] by auto
  have "0 < c" by (rule wf_parent(3)[OF assuredD(1)[OF S] b])
  moreover have "g \<longrightarrow> onpath ch c r" using sound_config[OF I] b(2) c by (auto simp: onpath_def config_def)
  ultimately show ?thesis using V b(1) f I by (auto simp: disp_spec_def)
qed

lemma wp_completion_loop:
  assumes S: "assured nr g ch rk R" and V: "disp_spec nr g ch R V k"
    and f: "nr \<or> 2 * n_states ch + R + 1 \<le> k"
  shows "sound g ch r \<Longrightarrow>
    wp nr False (completion_loop ch V 0 p steps) (\<lambda>_ r'. sound g ch r') (\<lambda>_ r'. sound g ch r') r"
proof (induction "loopThreshold ch - steps" arbitrary: steps r rule: less_induct)
  case less
  have "wp nr False (case current_of r 0 of None \<Rightarrow> mret () | Some c \<Rightarrow>
      mbind (v_dispatch V c None p) (\<lambda>fired.
         if \<not> fired then mret ()
         else if steps + 1 \<ge> loopThreshold ch
           then mthrow (InfiniteLoopException (infinite_loop_text ch 0))
         else completion_loop ch V 0 p (steps + 1)))
      (\<lambda>_ r'. sound g ch r') (\<lambda>_ r'. sound g ch r') r"
  proof (cases "current_of r 0")
    case None
    then show ?thesis using less.prems by simp
  next
    case (Some c)
    have "wp nr False (v_dispatch V c None p)
       (\<lambda>fired. wp nr False (if \<not> fired then mret ()
         else if steps + 1 \<ge> loopThreshold ch
           then mthrow (InfiniteLoopException (infinite_loop_text ch 0))
         else completion_loop ch V 0 p (steps + 1)) (\<lambda>_ r'. sound g ch r') (\<lambda>_ r'. sound g ch r'))
      (\<lambda>_ r'. sound g ch r') r"
      by (rule wp_mono[OF wp_current_of_chart[OF S V f less.prems Some]]) (use less.hyps in auto)
    then show ?thesis using Some by simp
  qed
  then show ?case by (subst completion_loop.simps) simp
qed

lemma wp_dispatch:
  assumes S: "assured nr g ch rk R" and f: "nr \<or> 2 * n_states ch + R + 2 \<le> n" and I: "sound g ch r"
  shows "wp nr False (dispatch n ch 0 ev p) (\<lambda>_ r'. sound g ch r') (\<lambda>_ r'. sound g ch r') r"
proof (cases n)
  case 0
  then show ?thesis using f by (simp add: dispatch_def)
next
  case (Suc k)
  have f': "nr \<or> 2 * n_states ch + R + 1 \<le> k" using f Suc by simp
  note V = disp_spec_vcalls[OF S, of k]
  have n0: "0 < n_states ch" using assuredD(1)[OF S] by (simp add: wf_tree_def)
  have "kind_of ch 0 = Chart" using wf_kind_Chart[OF assuredD(1)[OF S] n0] by simp
  then have eq: "dispatch n ch 0 ev p = Statechart_dispatch ch (vcalls k ch) 0 ev p"
    by (simp add: dispatch_def Suc vstep_def call_dispatch_def)
  show ?thesis
  proof (cases "getData r 0")
    case None
    then show ?thesis using I by (simp add: eq Statechart_dispatch_def)
  next
    case (Some d)
    have first: "wp nr False (case currentState d of None \<Rightarrow> mret False | Some c \<Rightarrow> v_dispatch (vcalls k ch) c ev p)
        (\<lambda>_ r'. sound g ch r') (\<lambda>_ r'. sound g ch r') r"
      using wp_current_of_chart[OF S V f' I] Some I by (simp add: current_of_def split: option.split)
    have "wp nr False (mbind (case currentState d of None \<Rightarrow> mret False | Some c \<Rightarrow> v_dispatch (vcalls k ch) c ev p)
          (\<lambda>rc. mbind (completion_loop ch (vcalls k ch) 0 p 0) (\<lambda>_. mret rc)))
        (\<lambda>_ r'. sound g ch r') (\<lambda>_ r'. sound g ch r') r"
      unfolding wp_bind by (rule wp_mono[OF first]) (use wp_completion_loop[OF S V f'] in simp_all)
    then show ?thesis
      by (rule wp_step[rotated]) (use Some in \<open>simp add: eq Statechart_dispatch_def\<close>)
  qed
qed

end
