(* ===== verification/Runs.thy ===== *)
theory Runs
  imports Safety
begin

text \<open>
  What the induction of theory \<open>Safety\<close> gives for a client: the states that \<open>start\<close>, \<open>dispatch\<close>
  and \<open>restoreState\<close> can reach on one \<open>Metadata\<close> object, whatever they return or throw, and
  whatever the client does to its own objects in between.
\<close>

section \<open>Calls of a client\<close>

datatype input =
    StartFresh
  | StartWith pref
  | Dispatch "event option"
  | DispatchWith "event option" pref
  | Restore sid pref

definition run_input :: "nat \<Rightarrow> 'e chart \<Rightarrow> input \<Rightarrow> (bool, 'e rt) prog" where
  "run_input n ch i =
     (case i of
        StartFresh \<Rightarrow> start n ch
      | StartWith p \<Rightarrow> start_with n ch p
      | Dispatch ev \<Rightarrow> dispatch_event n ch ev
      | DispatchWith ev p \<Rightarrow> dispatch n ch 0 ev p
      | Restore s p \<Rightarrow> restoreState n ch (if s < n_states ch then Some s else None) p)"

inductive reachable :: "nat \<Rightarrow> 'e chart \<Rightarrow> 'e rt \<Rightarrow> bool" for n ch where
  fresh: "reachable n ch (new_rt env now)"
| returned: "reachable n ch r \<Longrightarrow> run_input n ch i r = Ret b r' \<Longrightarrow> reachable n ch r'"
| thrown: "reachable n ch r \<Longrightarrow> run_input n ch i r = Exn e r' \<Longrightarrow> reachable n ch r'"
| outside: "reachable n ch r \<Longrightarrow> calm r r' \<Longrightarrow> reachable n ch r'"

lemma reachable_start:
  assumes "start n ch (new_rt env now) = Ret b r"
  shows "reachable n ch r"
proof -
  have "run_input n ch StartFresh (new_rt env now) = Ret b r" using assms by (simp add: run_input_def)
  then show ?thesis by (rule reachable.returned[OF reachable.fresh])
qed

text \<open>Several calls, one after the other.\<close>

definition run_inputs :: "nat \<Rightarrow> 'e chart \<Rightarrow> input list \<Rightarrow> (unit, 'e rt) prog" where
  "run_inputs n ch is = for_each is (\<lambda>i. mbind (run_input n ch i) (\<lambda>_. mret ()))"

lemma reachable_inputs:
  "reachable n ch r \<Longrightarrow> run_inputs n ch is r = Ret u r' \<Longrightarrow> reachable n ch r'"
proof (induction "is" arbitrary: r)
  case (Cons i "is")
  then obtain b r1 where "run_input n ch i r = Ret b r1" "run_inputs n ch is r1 = Ret u r'"
    by (auto simp: run_inputs_def mbind_def split: outcome.splits)
  then show ?case using Cons.IH reachable.returned[OF Cons.prems(1)] by blast
qed (simp add: run_inputs_def)

text \<open>Enough nested calls for a chart whose pseudo-states have ranks up to \<open>R\<close>.\<close>

definition depth :: "'e chart \<Rightarrow> nat \<Rightarrow> nat" where
  "depth ch R = 2 * n_states ch + R + 2"

section \<open>Stopped or running\<close>

definition stopped :: "'e rt \<Rightarrow> bool" where
  "stopped r \<longleftrightarrow> (\<forall>s. getData r s = None)"

definition steady :: "bool \<Rightarrow> 'e chart \<Rightarrow> 'e rt \<Rightarrow> bool" where
  "steady g ch r \<longleftrightarrow> stopped r \<or> sound g ch r"

lemma stopped_tidy: "stopped r \<Longrightarrow> tidy ch r"
  by (simp add: stopped_def tidy_def)

lemma steady_tidy: "steady g ch r \<Longrightarrow> tidy ch r"
  by (auto simp: steady_def sound_def stopped_tidy)

lemma steady_calm: "calm r r' \<Longrightarrow> steady g ch r' = steady g ch r"
  by (simp add: steady_def stopped_def calm_getData calm_sound)

lemma stopped_fresh: "stopped (new_rt env now)"
  by (simp add: stopped_def new_rt_def new_metadata_def getData_def)

lemma stopped_reset: "stopped (resetData r)"
  by (simp add: stopped_def resetData_def getData_def)

section \<open>Starting\<close>

text \<open>Entering the statechart itself makes it the only active state.\<close>

lemma sound_enter_chart:
  assumes S: "assured nr g ch rk R" and r: "stopped r"
  shows "sound g ch (activateData ch 0 r)" "isActive (activateData ch 0 r) 0"
    and "quiet ch q (activateData ch 0 r)"
proof -
  note wf = assuredD(1)[OF S]
  have n0: "0 < n_states ch" using wf by (simp add: wf_tree_def)
  have p0: "parent_of ch 0 = None" using wf by (simp add: wf_tree_def)
  have act: "isActive (activateData ch 0 r) x \<longleftrightarrow> x = 0" for x
    using r p0 by (simp add: isActive_activateData) (simp add: stopped_def isActive_def)
  show "isActive (activateData ch 0 r) 0" by (simp add: act)
  show "quiet ch q (activateData ch 0 r)" using p0 by (auto simp: quiet_def act)
  have "config ch (activateData ch 0 r)" by (simp add: config_def act)
  then show "sound g ch (activateData ch 0 r)"
    using tidy_activateData[OF stopped_tidy[OF r] wf n0] by (simp add: sound_def)
qed

lemma sound_init_data:
  assumes S: "assured nr g ch rk R"
  shows "sound g ch (init_data ch r)"
proof -
  let ?r = "activateData ch 0 (resetData r)"
  note e = sound_enter_chart[OF S stopped_reset]
  show ?thesis
  proof (cases "startState (obj ch 0)")
    case None
    then show ?thesis using e by (simp add: init_data_def)
  next
    case (Some st)
    have n0: "0 < n_states ch" using assuredD(1)[OF S] by (simp add: wf_tree_def)
    then have st: "st < n_states ch" "parent_of ch st = Some 0"
      using assuredD(2)[OF S] Some by (auto simp: wf_slots_def)
    have "entering ch st ?r" using st e(2) e(3)[of 0] by (auto simp: entering_def quiet_def)
    then have "act_post g ch st ?r (activateData ch st ?r)"
      by (intro sound_activateData[OF S st(1) e(1)])
    then show ?thesis using Some by (simp add: init_data_def act_post_def)
  qed
qed

section \<open>Parameters on the stack\<close>

lemma sound_locals:
  assumes "\<And>sv. pendingEntries (f sv) = pendingEntries sv" "\<And>sv. entries (f sv) = entries sv"
  shows "sound g ch (upd_sv f r) = sound g ch r"
proof -
  have "timers_of (f sv) s es = timers_of sv s es" for sv s es by (simp add: timers_of_def assms)
  moreover have "config ch (upd_sv f r) = config ch r"
    by (rule config_cong) (simp_all add: current_of_def)
  ultimately show ?thesis by (simp add: sound_def tidy_def)
qed

lemma steady_locals:
  assumes "\<And>sv. pendingEntries (f sv) = pendingEntries sv" "\<And>sv. entries (f sv) = entries sv"
  shows "steady g ch (upd_sv f r) = steady g ch r"
  by (simp add: steady_def stopped_def sound_locals[OF assms])

lemma wp_with_local:
  assumes "\<And>p r. steady g ch r \<Longrightarrow> wp nr ub (body p) (\<lambda>_. steady g ch) (\<lambda>_. steady g ch) r" "steady g ch r"
  shows "wp nr ub (with_local body) (\<lambda>_. steady g ch) (\<lambda>_. steady g ch) r"
proof -
  let ?p = "LocalParam (next_param (rt_sv r))"
  let ?r = "upd_sv (\<lambda>sv. sv\<lparr>locals := ?p # locals sv, next_param := Suc (next_param sv)\<rparr>) r"
  have drop: "steady g ch (upd_sv (drop_local ?p) r') = steady g ch r'" for r'
    by (rule steady_locals) (simp_all add: drop_local_def)
  have "steady g ch ?r" using assms(2) by (subst steady_locals) simp_all
  then have "wp nr ub (body ?p) (\<lambda>_. steady g ch) (\<lambda>_. steady g ch) ?r" by (rule assms(1))
  then show ?thesis
    by (auto simp: wp_def with_local_def Let_def drop split: outcome.split)
qed

section \<open>Restoring\<close>

lemma context_path_linked:
  assumes wf: "wf_tree ch"
  shows "x < n_states ch \<Longrightarrow> x < n \<Longrightarrow>
    \<exists>xs. context_path n ch (Some x) acc = 0 # xs @ acc \<and> linked ch 0 xs \<and> last (0 # xs) = x"
proof (induction n arbitrary: x acc)
  case (Suc n)
  show ?case
  proof (cases "x = 0")
    case True
    have "parent_of ch 0 = None" using wf by (simp add: wf_tree_def)
    then show ?thesis using True by (cases n) (auto intro: exI[of _ "[]"])
  next
    case False
    then obtain p where p: "parent_of ch x = Some p" "p < x"
      using wf_parent_ex[OF wf Suc.prems(1)] by blast
    obtain xs where xs: "context_path n ch (Some p) (x # acc) = 0 # xs @ x # acc"
        "linked ch 0 xs" "last (0 # xs) = p"
      using Suc.IH[of p "x # acc"] p(2) Suc.prems by auto
    then have "linked ch 0 (xs @ [x])" using p(1) Suc.prems(1) by (simp add: linked_append)
    then show ?thesis using p(1) xs(1) by (intro exI[of _ "xs @ [x]"]) simp
  qed
qed simp

lemma wp_restoreState:
  assumes S: "assured nr g ch rk R" and f: "nr \<or> depth ch R \<le> n" and I: "steady g ch r"
    and s: "s < n_states ch"
  shows "wp nr False (restoreState n ch (Some s) p)
    (\<lambda>b r'. steady g ch r' \<and> (b \<and> g \<longrightarrow> isActive r' s)) (\<lambda>_. steady g ch) r"
proof (cases "isActive r 0")
  case True
  then show ?thesis using I by (simp add: restoreState_def)
next
  case False
  let ?enter = "\<lambda>x. mbind (activate n ch x p) (\<lambda>_. mret ())"
  obtain xs where xs: "context_path (n_states ch) ch (Some s) [] = 0 # xs" "linked ch 0 xs" "last (0 # xs) = s"
    using context_path_linked[OF assuredD(1)[OF S] s s, of "[]"] by auto
  note V = act_spec_vcalls[OF S, of n]
  have n0: "0 < n_states ch" by (rule le_less_trans[OF _ s]) simp
  have k0: "kind_of ch 0 = Chart" using wf_kind_Chart[OF assuredD(1)[OF S] n0] by simp
  have rest: "wp nr False (for_each xs ?enter)
      (\<lambda>_ r'. sound g ch r' \<and> (g \<longrightarrow> isActive r' s)) (\<lambda>_ r'. sound g ch r') r1"
    if "sound g ch r1" "g \<Longrightarrow> isActive r1 0 \<and> quiet ch 0 r1" for r1
  proof -
    have "wp nr False (for_each xs ?enter) (\<lambda>_. descended g ch 0 xs r1) (\<lambda>_ r'. sound g ch r') r1"
      unfolding activate_def
    proof (rule wp_enter_path[OF S V _ that(1)])
      show "x < n_states ch \<and> (nr \<or> act_fuel ch x n)" if "x \<in> set xs" for x
        using linked_bounds(1)[OF assuredD(1)[OF S] xs(2) that] f n0 by (auto simp: act_fuel_def depth_def)
    qed (use that xs(2) in auto)
    then show ?thesis by (rule wp_mono) (use xs(3) in \<open>simp_all add: descended_def\<close>)
  qed
  let ?P = "\<lambda>r1. sound g ch r1 \<and> (g \<longrightarrow> isActive r1 0 \<and> quiet ch 0 r1)"
  have chart: "wp nr False (activate n ch 0 p) (\<lambda>_. ?P) (\<lambda>_. sound g ch) (resetData r)"
  proof (cases n)
    case 0
    then show ?thesis using f by (simp add: activate_def depth_def)
  next
    case (Suc m)
    note e = sound_enter_chart[OF S stopped_reset]
    have "wp nr False (State_activate ch 0 p) (\<lambda>_. ?P) (\<lambda>_. sound g ch) (resetData r)"
    proof (rule wp_enter_actions[OF S n0])
      show "\<not> isActive (resetData r) 0" using stopped_reset[of r] by (simp add: stopped_def isActive_def)
      let ?r = "arm_timers ch 0 p (activateData ch 0 (resetData r))"
      have "tidy ch ?r" using tidy_arm_timers[OF sound_tidy[OF e(1)]] k0 by simp
      then show "?P ?r" using e(1,2)[of r] e(3)[of 0 r] by (auto simp: sound_def quiet_def config_def)
    qed (auto simp: calm_sound quiet_def view_cong(1)[OF calm_getData])
    then show ?thesis using k0 by (simp add: activate_def Suc vstep_def call_activate_def)
  qed
  have "wp nr False (mbind (?enter 0) (\<lambda>_. mbind (for_each xs ?enter) (\<lambda>_. mret True)))
      (\<lambda>b r'. steady g ch r' \<and> (b \<and> g \<longrightarrow> isActive r' s)) (\<lambda>_. steady g ch) (resetData r)"
    unfolding wp_bind wp_fun
    by (rule wp_mono[OF chart]) (auto simp: steady_def intro: wp_mono[OF rest])
  then show ?thesis
    by (rule wp_step[rotated]) (use False xs(1) in \<open>simp add: restoreState_def mbind_assoc\<close>)
qed

section \<open>All calls\<close>

lemma wp_dispatch_steady:
  assumes S: "assured nr g ch rk R" and f: "nr \<or> depth ch R \<le> n" and I: "steady g ch r"
  shows "wp nr False (dispatch n ch 0 ev p) (\<lambda>_. steady g ch) (\<lambda>_. steady g ch) r"
proof (cases "stopped r")
  case False
  then have "sound g ch r" using I by (simp add: steady_def)
  then show ?thesis
    using wp_dispatch[OF S, of n r ev p] f by (auto simp: steady_def depth_def elim: wp_mono)
next
  case True
  have n0: "0 < n_states ch" using assuredD(1)[OF S] by (simp add: wf_tree_def)
  then have k0: "kind_of ch 0 = Chart" using wf_kind_Chart[OF assuredD(1)[OF S] n0] by simp
  show ?thesis
  proof (cases n)
    case 0
    then show ?thesis using f by (simp add: dispatch_def depth_def)
  next
    case (Suc m)
    have "getData r 0 = None" using True by (simp add: stopped_def)
    then have "dispatch n ch 0 ev p r = Ret False r"
      using k0 by (simp add: dispatch_def Suc vstep_def call_dispatch_def Statechart_dispatch_def)
    then show ?thesis using I by (simp add: wp_def)
  qed
qed

lemma wp_start_with:
  assumes S: "assured nr g ch rk R" and f: "nr \<or> depth ch R \<le> n"
  shows "wp nr False (start_with n ch p) (\<lambda>_. steady g ch) (\<lambda>_. steady g ch) r"
proof -
  have "steady g ch (init_data ch r)" using sound_init_data[OF S] by (simp add: steady_def)
  then show ?thesis using wp_dispatch_steady[OF S f] by (simp add: start_with_def)
qed

theorem wp_run_input:
  assumes S: "assured nr g ch rk R" and f: "nr \<or> depth ch R \<le> n" and I: "steady g ch r"
  shows "wp nr False (run_input n ch i) (\<lambda>_. steady g ch) (\<lambda>_. steady g ch) r"
proof (cases i)
  case StartFresh
  then show ?thesis using wp_with_local[OF wp_start_with[OF S f] I] by (simp add: run_input_def start_def)
next
  case (Dispatch ev)
  then show ?thesis
    using wp_with_local[OF wp_dispatch_steady[OF S f] I] by (simp add: run_input_def dispatch_event_def)
next
  case (Restore s p)
  show ?thesis
  proof (cases "s < n_states ch")
    case True
    then show ?thesis
      using wp_restoreState[OF S f I True, of p] Restore by (auto simp: run_input_def elim: wp_mono)
  next
    case False
    have "context_path m ch None [] = []" for m by (cases m) simp_all
    then show ?thesis
      using Restore False I by (simp add: run_input_def restoreState_def steady_def stopped_reset)
  qed
qed (use wp_start_with[OF S f] wp_dispatch_steady[OF S f I] in \<open>simp_all add: run_input_def\<close>)

lemma reachable_steady:
  assumes S: "assured nr g ch rk R" and f: "nr \<or> depth ch R \<le> n"
  shows "reachable n ch r \<Longrightarrow> steady g ch r"
proof (induction rule: reachable.induct)
  case (fresh env now)
  then show ?case by (simp add: steady_def stopped_fresh)
next
  case (returned r i b r')
  then show ?case using wp_conj_Ret[OF wp_run_input[OF S f]] by blast
next
  case (thrown r i e r')
  then show ?case using wp_conj_Exn[OF wp_run_input[OF S f]] by blast
next
  case (outside r r')
  then show ?case using steady_calm by blast
qed

section \<open>More nested calls change nothing\<close>

lemma le_dispatch: "n \<le> m \<Longrightarrow> le_prog (dispatch n ch s ev p) (dispatch m ch s ev p)"
  unfolding dispatch_def by (rule vleD(3)[OF vle_vcalls])

lemma le_run_input:
  assumes "n \<le> m"
  shows "le_prog (run_input n ch i) (run_input m ch i)"
proof (cases i)
  case StartFresh
  then show ?thesis
    unfolding run_input_def start_def start_with_def
    by (auto intro!: le_prog_with_local mono_rules le_dispatch[OF assms])
next
  case (StartWith p)
  then show ?thesis
    unfolding run_input_def start_with_def by (auto intro!: mono_rules le_dispatch[OF assms])
next
  case (Dispatch ev)
  then show ?thesis
    unfolding run_input_def dispatch_event_def
    by (auto intro!: le_prog_with_local le_dispatch[OF assms])
next
  case (DispatchWith ev p)
  then show ?thesis unfolding run_input_def by (auto intro!: le_dispatch[OF assms])
next
  case (Restore s p)
  then show ?thesis
    unfolding run_input_def restoreState_def activate_def
    by (auto intro!: mono_rules vleD(1)[OF vle_vcalls[OF assms]])
qed

lemma run_input_mono:
  "run_input n ch i r \<noteq> NoReturn \<Longrightarrow> n \<le> m \<Longrightarrow> run_input m ch i r = run_input n ch i r"
  by (rule le_progD[OF le_run_input])

end
