(* ===== verification/Completion.thy ===== *)
theory Completion
  imports Runs
begin

text \<open>
  The loop of \<open>Statechart::dispatch\<close> over trigger-less transitions, as a relation: how often a
  transition fired, and the last call, which fires none.
\<close>

inductive fires ::
  "'e chart \<Rightarrow> 'e vtable \<Rightarrow> sid \<Rightarrow> pref \<Rightarrow> nat \<Rightarrow> 'e rt \<Rightarrow> 'e rt \<Rightarrow> bool" for ch V s p
where
  none: "fires ch V s p 0 r r"
| more: "current_of r s = Some c \<Longrightarrow> v_dispatch V c None p r = Ret True r1 \<Longrightarrow>
    fires ch V s p k r1 r2 \<Longrightarrow> fires ch V s p (Suc k) r r2"

inductive_cases fires_0E: "fires ch V s p 0 r r'"
inductive_cases fires_SucE: "fires ch V s p (Suc k) r r'"

text \<open>Nothing fires: there is no current substate, or it does not handle \<open>nullptr\<close>.\<close>

definition idle :: "'e vtable \<Rightarrow> sid \<Rightarrow> pref \<Rightarrow> 'e rt \<Rightarrow> 'e rt \<Rightarrow> bool" where
  "idle V s p r r' \<longleftrightarrow> (case current_of r s of None \<Rightarrow> r' = r | Some c \<Rightarrow> v_dispatch V c None p r = Ret False r')"

lemma fires_0 [simp]: "fires ch V s p 0 r r' \<longleftrightarrow> r' = r"
  by (auto intro: fires.none elim: fires_0E)

lemma fires_Suc:
  "fires ch V s p (Suc k) r r' \<longleftrightarrow>
     (\<exists>c r1. current_of r s = Some c \<and> v_dispatch V c None p r = Ret True r1 \<and> fires ch V s p k r1 r')"
  by (auto intro: fires.more elim: fires_SucE)

lemma completion_loop_unfold:
  "completion_loop ch V s p n r =
     (case current_of r s of
        None \<Rightarrow> Ret () r
      | Some c \<Rightarrow> (case v_dispatch V c None p r of
            Ret fired r1 \<Rightarrow>
              if \<not> fired then Ret () r1
              else if n + 1 \<ge> loopThreshold ch then Exn (InfiniteLoopException (infinite_loop_text ch s)) r1
              else completion_loop ch V s p (n + 1) r1
          | Exn e r1 \<Rightarrow> Exn e r1 | NoReturn \<Rightarrow> NoReturn | Undef \<Rightarrow> Undef))"
  by (subst completion_loop.simps) (simp add: mbind_def split: option.split outcome.split)

lemma completion_returns_iff:
  "n < loopThreshold ch \<Longrightarrow>
   completion_loop ch V s p n r = Ret () r' \<longleftrightarrow>
     (\<exists>k < loopThreshold ch - n. \<exists>r1. fires ch V s p k r r1 \<and> idle V s p r1 r')"
proof (induction "loopThreshold ch - n" arbitrary: n r)
  case (Suc m)
  show ?case
  proof (cases "\<exists>c r1. current_of r s = Some c \<and> v_dispatch V c None p r = Ret True r1")
    case False
    then have "completion_loop ch V s p n r = Ret () r' \<longleftrightarrow> idle V s p r r'"
      by (subst completion_loop_unfold) (auto simp: idle_def split: option.splits outcome.splits)
    moreover have "fires ch V s p k r r1 \<longleftrightarrow> k = 0 \<and> r1 = r" for k r1
      using False by (cases k) (auto simp: fires_Suc)
    ultimately show ?thesis using Suc.prems by auto
  next
    case True
    then obtain c r1 where c: "current_of r s = Some c" "v_dispatch V c None p r = Ret True r1" by blast
    let ?P = "\<lambda>k. \<exists>r2. fires ch V s p k r r2 \<and> idle V s p r2 r'"
    have "\<not> ?P 0" using c by (simp add: idle_def)
    then have "(\<exists>k < loopThreshold ch - n. ?P k) \<longleftrightarrow> (\<exists>k. Suc k < loopThreshold ch - n \<and> ?P (Suc k))"
      by (metis not0_implies_Suc)
    moreover have "?P (Suc k) \<longleftrightarrow> (\<exists>r2. fires ch V s p k r1 r2 \<and> idle V s p r2 r')" for k
      using c by (simp add: fires_Suc)
    ultimately have iff: "(\<exists>k < loopThreshold ch - n. ?P k) \<longleftrightarrow>
        (\<exists>k. Suc k < loopThreshold ch - n \<and> (\<exists>r2. fires ch V s p k r1 r2 \<and> idle V s p r2 r'))"
      by simp
    show ?thesis
    proof (cases "n + 1 \<ge> loopThreshold ch")
      case True
      then show ?thesis unfolding iff using c by (subst completion_loop_unfold) auto
    next
      case False
      then have "completion_loop ch V s p n r = completion_loop ch V s p (n + 1) r1"
        using c by (subst completion_loop_unfold) simp
      moreover have "completion_loop ch V s p (n + 1) r1 = Ret () r' \<longleftrightarrow>
          (\<exists>k < loopThreshold ch - (n + 1). \<exists>r2. fires ch V s p k r1 r2 \<and> idle V s p r2 r')"
        by (rule Suc.hyps(1)) (use Suc.hyps(2) False in auto)
      moreover have "Suc k < loopThreshold ch - n \<longleftrightarrow> k < loopThreshold ch - (n + 1)" for k by arith
      ultimately show ?thesis unfolding iff by auto
    qed
  qed
qed simp

text \<open>As many firings as the threshold allows end in the exception.\<close>

lemma completion_throws:
  "fires ch V s p (Suc k) r r' \<Longrightarrow> loopThreshold ch = n + Suc k \<Longrightarrow>
   completion_loop ch V s p n r = Exn (InfiniteLoopException (infinite_loop_text ch s)) r'"
proof (induction k arbitrary: n r)
  case 0
  then show ?case by (subst completion_loop_unfold) (auto simp: fires_Suc)
next
  case (Suc k)
  then obtain c r1 where c: "current_of r s = Some c" "v_dispatch V c None p r = Ret True r1"
      "fires ch V s p (Suc k) r1 r'"
    by (auto simp: fires_Suc[of _ _ _ _ "Suc k"])
  then have "completion_loop ch V s p n r = completion_loop ch V s p (n + 1) r1"
    using Suc.prems(2) by (subst completion_loop_unfold) simp
  then show ?case using Suc.IH[OF c(3), of "n + 1"] Suc.prems(2) by simp
qed

end
