(* ===== verification/Service_Laws.thy ===== *)
theory Service_Laws
  imports Runs
begin

text \<open>
  What the methods of the states do to the rest of the statechart: they touch the timers, the
  pending entries and the parameters on the stack only through \<open>enqueueTimeout\<close>, \<open>cancelTimeout\<close>
  and \<open>with_local\<close>.  A property of the \<open>service\<close> part of the state that these keep is kept by every
  call, on every well-formed chart, concurrent states included: that is what the locale
  \<open>service_law\<close> proves once.
\<close>

section \<open>Programs that keep a property\<close>

named_theorems keep_rules \<open>rules that a program construct keeps a property of the state\<close>

definition keeps :: "('s \<Rightarrow> bool) \<Rightarrow> ('a, 's) prog \<Rightarrow> bool" where
  "keeps K m \<longleftrightarrow> (\<forall>r. K r \<longrightarrow> wp True True m (\<lambda>_. K) (\<lambda>_. K) r)"

lemma keepsD: "keeps K m \<Longrightarrow> K r \<Longrightarrow> wp True True m (\<lambda>_. K) (\<lambda>_. K) r"
  by (simp add: keeps_def)

lemma keeps_prims [keep_rules]:
  "keeps K (mret a)" "keeps K (mthrow e)" "keeps K mnoreturn" "keeps K mundef" "keeps K (mvalid c)" "keeps K (mget g)"
  by (simp_all add: keeps_def)

lemma keeps_mod [keep_rules]: "(\<And>r. K r \<Longrightarrow> K (h r)) \<Longrightarrow> keeps K (mmod h)"
  by (simp add: keeps_def)

text \<open>What was read is known to come from a state with the property.\<close>

lemma keeps_get [keep_rules]:
  assumes "\<And>r. K r \<Longrightarrow> keeps K (f (g r))"
  shows "keeps K (mbind (mget g) f)"
  using assms by (simp add: keeps_def)

lemma keeps_bind:
  assumes "keeps K m" "\<And>a. keeps K (f a)"
  shows "keeps K (mbind m f)"
  unfolding keeps_def
proof (intro allI impI)
  fix r assume "K r"
  with assms(1) have "wp True True m (\<lambda>_. K) (\<lambda>_. K) r" by (rule keepsD)
  then have "wp True True m (\<lambda>a. wp True True (f a) (\<lambda>_. K) (\<lambda>_. K)) (\<lambda>_. K) r"
    by (rule wp_mono) (use keepsD[OF assms(2)] in simp_all)
  then show "wp True True (mbind m f) (\<lambda>_. K) (\<lambda>_. K) r" by simp
qed

lemma keeps_if [keep_rules]:
  "(b \<Longrightarrow> keeps K m) \<Longrightarrow> (\<not> b \<Longrightarrow> keeps K m') \<Longrightarrow> keeps K (if b then m else m')"
  by simp

lemma keeps_option [keep_rules]:
  "(x = None \<Longrightarrow> keeps K m) \<Longrightarrow> (\<And>y. x = Some y \<Longrightarrow> keeps K (f y)) \<Longrightarrow>
   keeps K (case x of None \<Rightarrow> m | Some y \<Rightarrow> f y)"
  by (cases x) simp_all

lemma keeps_prod [keep_rules]: "(\<And>a b. x = (a, b) \<Longrightarrow> keeps K (f a b)) \<Longrightarrow> keeps K (case x of (a, b) \<Rightarrow> f a b)"
  by (cases x) simp

lemma keeps_Let [keep_rules]: "(\<And>a. a = x \<Longrightarrow> keeps K (f a)) \<Longrightarrow> keeps K (let a = x in f a)"
  by simp

lemma keeps_for_each [keep_rules]:
  assumes "\<And>x. x \<in> set xs \<Longrightarrow> keeps K (body x)"
  shows "keeps K (for_each xs body)"
  using assms by (induction xs) (auto intro!: keeps_prims keeps_bind)

lemma keeps_for_until [keep_rules]:
  assumes "\<And>x. x \<in> set xs \<Longrightarrow> keeps K (body x)"
  shows "keeps K (for_until xs body)"
  using assms by (induction xs) (auto intro!: keeps_prims keeps_bind keeps_if)

section \<open>Pointers to states stay within the chart\<close>

definition data_within :: "'e chart \<Rightarrow> runtimedata \<Rightarrow> bool" where
  "data_within ch d \<longleftrightarrow>
     (\<forall>c. currentState d = Some c \<longrightarrow> c < n_states ch) \<and> (\<forall>x \<in> set (stateset d). x < n_states ch)"

definition within :: "'e chart \<Rightarrow> 'e rt \<Rightarrow> bool" where
  "within ch r \<longleftrightarrow> (\<forall>s d. getData r s = Some d \<longrightarrow> data_within ch d)"

lemma withinD:
  assumes "within ch r" "getData r s = Some d"
  shows "currentState d = Some c \<Longrightarrow> c < n_states ch" "x \<in> set (stateset d) \<Longrightarrow> x < n_states ch"
  using assms by (auto simp: within_def data_within_def)

lemma within_current: "within ch r \<Longrightarrow> current_of r s = Some c \<Longrightarrow> c < n_states ch"
  by (auto simp: current_of_def dest: withinD split: option.splits)

lemma within_updData:
  assumes "within ch r" "\<And>d. data_within ch d \<Longrightarrow> data_within ch (f d)"
  shows "within ch (updData s f r)"
  using assms by (auto simp: within_def)

lemma within_createRuntimedata: "within ch r \<Longrightarrow> within ch (createRuntimedata s r)"
  by (auto simp: within_def data_within_def new_runtimedata_def split: option.split_asm if_splits)

lemma within_calm: "calm r r' \<Longrightarrow> within ch r' = within ch r"
  by (simp add: within_def calm_getData)

lemma within_sv [simp]: "within ch (upd_sv f r) = within ch r"
  by (simp add: within_def)

lemma within_activateData:
  assumes "within ch r" "s < n_states ch" "wf_tree ch"
  shows "within ch (activateData ch s r)"
  using assms
  by (auto simp: within_def data_within_def old_or_new_def new_runtimedata_def
      getData_activateData[OF parent_not_self[OF assms(3,2)]] split: option.split_asm if_splits)

lemma within_deactivateData: "within ch r \<Longrightarrow> within ch (deactivateData ch s r)"
  by (auto simp: within_def data_within_def getData_deactivateData split: if_splits)

lemma within_chain:
  assumes "within ch r" "set hist \<subseteq> {..<n_states ch}" "\<And>x. s = Some x \<Longrightarrow> x < n_states ch"
  shows "set (calculateHistoryChain n ch hist s r ty) \<subseteq> {..<n_states ch}"
  using assms(2,3)
proof (induction n arbitrary: hist s)
  case (Suc n)
  show ?case
    using Suc.prems Suc.IH withinD(1)[OF assms(1)]
    by (auto split: option.split option.split_asm)
qed simp

lemma within_storeHistory:
  assumes "within ch r"
  shows "within ch (storeHistory ch h r)"
proof -
  have r1: "within ch (updData h (\<lambda>d. d\<lparr>stateset := []\<rparr>) r)"
    by (rule within_updData[OF assms]) (simp add: data_within_def)
  have cur: "x < n_states ch" if "(case getData (updData h (\<lambda>d. d\<lparr>stateset := []\<rparr>) r) c of
      None \<Rightarrow> None | Some pd \<Rightarrow> currentState pd) = Some x" for c x
    using within_current[OF r1, of c x] that by (simp add: current_of_def)
  let ?r1 = "updData h (\<lambda>d. d\<lparr>stateset := []\<rparr>) r"
  have "x < n_states ch" if "x \<in> set (calculateHistoryChain n ch []
      (case getData ?r1 c of None \<Rightarrow> None | Some pd \<Rightarrow> currentState pd) ?r1 ty)" for x n c ty
    using within_chain[OF r1 _ cur, of "[]"] that by fastforce
  then show ?thesis
    using assms
    by (auto simp: within_def data_within_def storeHistory_data simp del: getData_updData split: if_splits)
qed

lemma within_register_region:
  assumes "within ch r" "h < n_states ch"
  shows "within ch (register_region conc h r)"
  unfolding register_region_def
  by (rule within_updData[OF within_createRuntimedata[OF assms(1)]]) (use assms(2) in \<open>simp add: data_within_def\<close>)

lemma within_register_regions:
  "within ch r \<Longrightarrow> set xs \<subseteq> {..<n_states ch} \<Longrightarrow> within ch (register_regions ch xs r)"
proof (induction ch xs r rule: register_regions.induct)
  case (1 ch s h rest r)
  have "within ch (if kind_of ch s = Concurrent then register_region s h r else r)"
    using 1(2,3) by (simp add: within_register_region)
  then show ?case using 1(1,3) by simp
qed simp_all

lemma register_region_sv [simp]: "rt_sv (register_region conc h r) = rt_sv r"
  by (simp add: register_region_def)

lemma register_regions_sv [simp]: "rt_sv (register_regions ch xs r) = rt_sv r"
  by (induction ch xs r rule: register_regions.induct) simp_all

section \<open>The law\<close>

text \<open>One timer of \<open>State::deactivate\<close>: \<open>markInvalid\<close> and \<open>cancelTimeout\<close> together.\<close>

definition cancel_one :: "eid \<Rightarrow> service \<Rightarrow> service" where
  "cancel_one e sv = (if e \<in> set (pendingEntries sv) then cancel_entry e sv else mark_invalid e sv)"

locale service_law =
  fixes J :: "service \<Rightarrow> bool"
  assumes J_clock: "J sv \<Longrightarrow> clock sv \<le> t \<Longrightarrow> J (sv\<lparr>clock := t\<rparr>)"
    and J_enqueue: "J sv \<Longrightarrow> J (snd (enqueueTimeout s md ev p ms sv))"
    and J_cancel: "J sv \<Longrightarrow> entry_alive sv e \<Longrightarrow> J (cancel_one e sv)"
    and J_locals: "J sv \<Longrightarrow> J (sv\<lparr>locals := ls, next_param := k\<rparr>)"
begin

definition K :: "'e chart \<Rightarrow> 'e rt \<Rightarrow> bool" where
  "K ch r \<longleftrightarrow> within ch r \<and> J (rt_sv r)"

lemma K_sv: "K ch r \<Longrightarrow> within ch r' \<Longrightarrow> rt_sv r' = rt_sv r \<Longrightarrow> K ch r'"
  by (simp add: K_def)

lemma K_calm: "K ch r \<Longrightarrow> calm r r' \<Longrightarrow> K ch r'"
  using within_calm[of r r' ch] J_clock by (auto simp: K_def calm_def)

lemma keeps_call [keep_rules]:
  assumes "\<And>a. act = Some a \<Longrightarrow> benign a"
  shows "keeps (K ch) (mcall act p)"
  unfolding keeps_def by (intro allI impI wp_call assms) (auto intro: K_calm)

lemma keeps_cancel [keep_rules]:
  "keeps (K ch) (mbind (mvalid (\<lambda>r. entry_alive (rt_sv r) e)) (\<lambda>_.
     mbind (mmod (upd_sv (mark_invalid e))) (\<lambda>_. cancelTimeout (Some e))))"
  unfolding keeps_def
proof (intro allI impI)
  fix r assume r: "K ch r"
  have "wp True True (cancelTimeout (Some e)) (\<lambda>_. K ch) (\<lambda>_. K ch) (upd_sv (mark_invalid e) r)"
    if "entry_alive (rt_sv r) e"
  proof -
    have "K ch (upd_sv (cancel_one e) r)" using r J_cancel that by (simp add: K_def)
    moreover have "cancelTimeout (Some e) (upd_sv (mark_invalid e) r) = Ret () (upd_sv (cancel_one e) r)"
      using that
      by (simp add: cancelTimeout_def mbind_def entry_alive_def upd_sv_def cancel_one_def cancel_entry_def Let_def)
    ultimately show ?thesis by (simp add: wp_def)
  qed
  then show "wp True True (mbind (mvalid (\<lambda>r. entry_alive (rt_sv r) e)) (\<lambda>_.
     mbind (mmod (upd_sv (mark_invalid e))) (\<lambda>_. cancelTimeout (Some e)))) (\<lambda>_. K ch) (\<lambda>_. K ch) r"
    by simp
qed

lemma K_activateData: "K ch r \<Longrightarrow> wf_tree ch \<Longrightarrow> s < n_states ch \<Longrightarrow> K ch (activateData ch s r)"
  by (simp add: K_def within_activateData)

lemma K_register: "K ch r \<Longrightarrow> h < n_states ch \<Longrightarrow> K ch (register_region s h r)"
  by (simp add: K_def within_register_region)

lemma keeps_State_activate [keep_rules]:
  assumes "wf_tree ch" "benign_chart ch" "s < n_states ch"
  shows "keeps (K ch) (State_activate ch s p)"
proof -
  have "keeps (K ch) (schedule_timeout ch s p t)" for t
  proof -
    have "K ch (arm_timer ch s p t r)" if "K ch r" for r
    proof (cases "\<exists>ev. tr_event (trans ch t) = Some ev \<and> is_timeout ev \<and> running (rt_sv r)")
      case False
      then have "arm_timer ch s p t r = r" by (auto simp: arm_timer_def split: option.split)
      then show ?thesis using that by simp
    next
      case True
      then show ?thesis
        using that J_enqueue by (auto simp: arm_timer_def K_def data_within_def intro!: within_updData)
    qed
    then show ?thesis by (simp add: keeps_def wp_def schedule_timeout_step)
  qed
  then show ?thesis
    unfolding State_activate_def using assms
    by (intro keep_rules keeps_bind benign_state[OF assms(2)]) (auto intro: K_activateData)
qed

lemma keeps_State_deactivate [keep_rules]:
  assumes "benign_chart ch" "s < n_states ch"
  shows "keeps (K ch) (State_deactivate ch s p)"
  unfolding State_deactivate_def
  by (intro keep_rules keeps_bind benign_state[OF assms]) (auto simp: K_def within_deactivateData)

text \<open>A table of virtual calls that keeps the property, for states of the chart.\<close>

definition vkeeps :: "'e chart \<Rightarrow> 'e vtable \<Rightarrow> bool" where
  "vkeeps ch V \<longleftrightarrow> (\<forall>s < n_states ch. \<forall>ev p. keeps (K ch) (v_activate V s p) \<and>
     keeps (K ch) (v_deactivate V s p) \<and> keeps (K ch) (v_dispatch V s ev p) \<and> keeps (K ch) (v_lookup V s p))"

lemma vkeepsD [keep_rules]:
  assumes "vkeeps ch V" "s < n_states ch"
  shows "keeps (K ch) (v_activate V s p)" "keeps (K ch) (v_deactivate V s p)"
    "keeps (K ch) (v_dispatch V s ev p)" "keeps (K ch) (v_lookup V s p)"
  using assms by (simp_all add: vkeeps_def)

end

text \<open>The states a transition of a state names.\<close>

lemma own_transition:
  assumes "wf_chart ch" "s < n_states ch" "t \<in> set (transitions (obj ch s))"
  shows "t < length (ownedTransitions ch)" "x \<in> set (tr_deactivate (trans ch t)) \<Longrightarrow> x < n_states ch"
    "x \<in> set (tr_activate (trans ch t)) \<Longrightarrow> x < n_states ch"
proof -
  have wf: "wf_tree ch" "wf_transitions ch" using assms(1) by (simp_all add: wf_chart_def wf_core_def)
  show "t < length (ownedTransitions ch)" using wf(2) assms(2,3) by (auto simp: wf_transitions_def)
  have "lists_ok ch (\<lambda>a. a = Some s) (trans ch t)" using wf(2) assms(2,3) by (auto simp: wf_transitions_def)
  note b = lists_bounds[OF wf(1) this]
  show "x \<in> set (tr_deactivate (trans ch t)) \<Longrightarrow> x < n_states ch"
    "x \<in> set (tr_activate (trans ch t)) \<Longrightarrow> x < n_states ch" using b by blast+
qed

lemma own_slots:
  assumes "wf_chart ch" "s < n_states ch"
  shows "startState (obj ch s) = Some x \<Longrightarrow> x < n_states ch" "history (obj ch s) = Some x \<Longrightarrow> x < n_states ch"
    "x \<in> set (regions (obj ch s)) \<Longrightarrow> x < n_states ch"
  using assms by (auto simp: wf_chart_def wf_core_def wf_slots_def)

context service_law begin

lemma keeps_activate_list [keep_rules]:
  "vkeeps ch V \<Longrightarrow> (\<And>x. x \<in> set xs \<Longrightarrow> x < n_states ch) \<Longrightarrow> keeps (K ch) (activate_list ch V p xs)"
proof (induction ch V p xs rule: activate_list.induct)
  case (3 ch V p s h rest)
  have "keeps (K ch) (activate_list ch V p (h # rest))" by (rule 3) (use 3 in auto)
  moreover have "s < n_states ch" "h < n_states ch" using 3 by auto
  ultimately show ?case
    unfolding activate_list.simps using 3(2)
    by (intro keep_rules keeps_bind) (auto intro: K_register)
qed (auto intro!: keep_rules keeps_bind)

lemma keeps_execute [keep_rules]:
  assumes "wf_chart ch" "benign_chart ch" "vkeeps ch V" "s < n_states ch" "t \<in> set (transitions (obj ch s))"
  shows "keeps (K ch) (execute ch V t ev p)" "keeps (K ch) (allowed ch V t p)"
proof -
  note own = own_transition[OF assms(1,4,5)]
  have act: "benign a" if "tr_action (trans ch t) = Some a" for a
    using assms(2) own(1) that by (auto simp: benign_chart_def)
  have look: "keeps (K ch) (Transition_allowed ch V (trans ch t) p)"
    unfolding Transition_allowed_def by (intro keep_rules vkeepsD[OF assms(3)] own(3)) simp
  then show "keeps (K ch) (allowed ch V t p)"
    unfolding allowed_def InternalTransition_allowed_def by (intro keep_rules)
  show "keeps (K ch) (execute ch V t ev p)"
    unfolding execute_def Transition_execute_def InternalTransition_execute_def InternalTransition_allowed_def
    by (intro keep_rules keeps_bind look vkeepsD[OF assms(3)] act own assms(3); assumption)
qed

lemma keeps_State_dispatch [keep_rules]:
  "wf_chart ch \<Longrightarrow> benign_chart ch \<Longrightarrow> vkeeps ch V \<Longrightarrow> s < n_states ch \<Longrightarrow>
   keeps (K ch) (State_dispatch ch V s ev p)"
  unfolding State_dispatch_def by (intro keep_rules)

lemma keeps_PseudoState_lookup [keep_rules]:
  "wf_chart ch \<Longrightarrow> benign_chart ch \<Longrightarrow> vkeeps ch V \<Longrightarrow> s < n_states ch \<Longrightarrow>
   keeps (K ch) (PseudoState_lookup ch V s p)"
  unfolding PseudoState_lookup_def by (intro keep_rules)

lemma keeps_PseudoState_activate [keep_rules]:
  assumes "wf_chart ch" "benign_chart ch" "vkeeps ch V" "s < n_states ch"
  shows "keeps (K ch) (PseudoState_activate ch V s p)"
proof -
  have wf: "wf_tree ch" using assms(1) by (simp add: wf_chart_def wf_core_def)
  have fork: "K ch (if guard_accepts (trans ch t) p r then register_regions ch (tr_activate (trans ch t)) r else r)"
    if "K ch r" "t \<in> set (transitions (obj ch s))" for t r
    using that own_transition(3)[OF assms(1,4) that(2)]
    by (auto simp: K_def intro!: within_register_regions)
  have restore: "x < n_states ch"
    if "K ch r" "x \<in> set (case getData r s of None \<Rightarrow> [] | Some d \<Rightarrow> stateset d)" for r x
    using that by (cases "getData r s") (auto simp: K_def dest: withinD)
  show ?thesis
    unfolding PseudoState_activate_def
    by (intro keep_rules keeps_bind benign_state[OF assms(2,4)] vkeepsD[OF assms(3)] K_activateData wf assms(4)
        fork; (assumption | rule restore, assumption+))
qed

lemma keeps_PseudoState_dispatch [keep_rules]:
  assumes "wf_chart ch" "benign_chart ch" "vkeeps ch V" "s < n_states ch"
  shows "keeps (K ch) (PseudoState_dispatch ch V s ev p)"
proof -
  have cur: "x < n_states ch"
    if "K ch r" "(case parent_of ch s of None \<Rightarrow> None
       | Some c \<Rightarrow> (case getData r c of None \<Rightarrow> None | Some d \<Rightarrow> currentState d)) = Some x" for r x
    using that by (auto simp: K_def dest: withinD split: option.splits)
  show ?thesis
    unfolding PseudoState_dispatch_def
    by (intro keeps_execute(1)[OF assms] keep_rules keeps_bind vkeepsD[OF assms(3)] assms;
        (assumption | rule cur, assumption+))
qed

lemma keeps_HierarchicalState_deactivate [keep_rules]:
  assumes "wf_chart ch" "benign_chart ch" "vkeeps ch V" "s < n_states ch"
  shows "keeps (K ch) (HierarchicalState_deactivate ch V s p)"
proof -
  have cur: "c < n_states ch" if "K ch r" "getData r s = Some d" "currentState d = Some c" for r d c
    using that by (auto simp: K_def dest: withinD)
  have hist: "K ch (storeHistory ch h r)" if "K ch r" for h r
    using that by (simp add: K_def within_storeHistory)
  have upd: "K ch (updData s (\<lambda>d. d\<lparr>currentState := None\<rparr>) r)" if "K ch r" for r
    using that by (auto simp: K_def data_within_def intro!: within_updData)
  show ?thesis
    unfolding HierarchicalState_deactivate_def
    by (intro keep_rules keeps_bind vkeepsD[OF assms(3)] assms hist upd; (assumption | rule cur, assumption+))
qed

lemma keeps_enter_start [keep_rules]:
  assumes "wf_chart ch" "vkeeps ch V" "s < n_states ch" "st < n_states ch"
  shows "keeps (K ch) (enter_start ch V s st p)"
proof -
  have wf: "wf_tree ch" using assms(1) by (simp add: wf_chart_def wf_core_def)
  have cur: "c < n_states ch" if "K ch r" "getData r s = Some d" "currentState d = Some c" for r d c
    using that by (auto simp: K_def dest: withinD)
  show ?thesis
    unfolding enter_start_def
    by (intro keep_rules keeps_bind vkeepsD[OF assms(2)] K_activateData wf assms; (assumption | rule cur, assumption+))
qed

lemma keeps_HierarchicalState_dispatch [keep_rules]:
  assumes "wf_chart ch" "benign_chart ch" "vkeeps ch V" "s < n_states ch"
  shows "keeps (K ch) (HierarchicalState_dispatch ch V s ev p)"
proof -
  have cur: "c < n_states ch" if "K ch r" "current_of r s = Some c" for r c
    using that by (auto simp: K_def dest: within_current)
  have own: "keeps (K ch) (hierarchical_transition ch V fin ev p t)"
    if "t \<in> set (transitions (obj ch s))" for fin t
    unfolding hierarchical_transition_def
    by (intro keeps_execute(1)[OF assms that] keep_rules keeps_bind)
  have start: "keeps (K ch) (case (statedata, startState (obj ch s)) of
            (Some d, Some st) \<Rightarrow>
              if currentState d \<noteq> None then mret () else enter_start ch V s st p
          | _ \<Rightarrow> mret ())" for statedata :: "runtimedata option"
    by (auto split: option.split intro!: keeps_prims keeps_enter_start assms own_slots(1)[OF assms(1,4)])
  show ?thesis
    unfolding HierarchicalState_dispatch_def
    by (intro own start keep_rules keeps_bind vkeepsD[OF assms(3)] assms; (assumption | rule cur, assumption+))
qed

lemma keeps_ConcurrentState [keep_rules]:
  assumes "wf_chart ch" "benign_chart ch" "vkeeps ch V" "s < n_states ch"
  shows "keeps (K ch) (ConcurrentState_activate ch V s p)"
    and "keeps (K ch) (ConcurrentState_deactivate ch V s p)"
    and "keeps (K ch) (ConcurrentState_dispatch ch V s ev p)"
proof -
  have wf: "wf_tree ch" using assms(1) by (simp add: wf_chart_def wf_core_def)
  note slots = own_slots(3)[OF assms(1,4)]
  show "keeps (K ch) (ConcurrentState_activate ch V s p)"
    unfolding ConcurrentState_activate_def
    by (intro keep_rules keeps_bind vkeepsD[OF assms(3)] wf assms slots; assumption)
  have upd: "K ch (updData s (\<lambda>d. d\<lparr>stateset := []\<rparr>) r)" if "K ch r" for r
    using that by (auto simp: K_def data_within_def intro!: within_updData)
  show "keeps (K ch) (ConcurrentState_deactivate ch V s p)"
    unfolding ConcurrentState_deactivate_def
    by (intro upd keep_rules keeps_bind vkeepsD[OF assms(3)] wf assms slots; assumption)
  have "keeps (K ch) (dispatch_regions V s ev p b hs)" if "set hs \<subseteq> {..<n_states ch}" for b hs
    using that by (induction hs arbitrary: b) (auto intro!: keep_rules keeps_bind vkeepsD[OF assms(3)])
  then have "keeps (K ch) (dispatch_regions V s ev p False (regions (obj ch s)))" using slots by blast
  moreover have "keeps (K ch) (concurrent_transitions ch V s ev p ts)" if "set ts \<subseteq> set (transitions (obj ch s))" for ts
    using that
    by (induction ts) (auto intro!: keep_rules keeps_bind keeps_execute(1)[OF assms])
  ultimately show "keeps (K ch) (ConcurrentState_dispatch ch V s ev p)"
    unfolding ConcurrentState_dispatch_def by (intro keep_rules keeps_bind) auto
qed

lemma keeps_Statechart_dispatch [keep_rules]:
  assumes "wf_chart ch" "benign_chart ch" "vkeeps ch V" "s < n_states ch"
  shows "keeps (K ch) (Statechart_dispatch ch V s ev p)"
proof -
  have cur: "c < n_states ch" if "K ch r" "current_of r s = Some c" for r c
    using that by (auto simp: K_def dest: within_current)
  have loop: "keeps (K ch) (completion_loop ch V s p n)" for n
  proof (induction "loopThreshold ch - n" arbitrary: n rule: less_induct)
    case less
    show ?case
      by (subst completion_loop.simps)
        (intro keep_rules keeps_bind vkeepsD[OF assms(3)] less; (assumption | rule cur, assumption+ | simp))
  qed
  have cur': "c < n_states ch" if "K ch r" "getData r s = Some d" "currentState d = Some c" for r d c
    using that by (auto simp: K_def dest: withinD)
  show ?thesis
    unfolding Statechart_dispatch_def
    by (intro loop keep_rules keeps_bind vkeepsD[OF assms(3)]; (assumption | rule cur', assumption+))
qed

section \<open>Every call\<close>

lemma vkeeps_vcalls:
  assumes "wf_chart ch" "benign_chart ch"
  shows "vkeeps ch (vcalls n ch)"
proof (induction n)
  case 0
  show ?case by (simp add: vkeeps_def keeps_prims)
next
  case (Suc n)
  have wf: "wf_tree ch" using assms(1) by (simp add: wf_chart_def wf_core_def)
  note rules = keeps_PseudoState_activate[OF assms Suc] keeps_ConcurrentState[OF assms Suc]
    keeps_State_activate[OF wf assms(2)] keeps_State_deactivate[OF assms(2)]
    keeps_HierarchicalState_deactivate[OF assms Suc] keeps_PseudoState_dispatch[OF assms Suc]
    keeps_HierarchicalState_dispatch[OF assms Suc] keeps_Statechart_dispatch[OF assms Suc]
    keeps_State_dispatch[OF assms Suc] keeps_PseudoState_lookup[OF assms Suc]
  show ?case
    unfolding vkeeps_def
    by (auto simp: vstep_def call_activate_def call_deactivate_def call_dispatch_def rules split: kind.split)
qed

lemma keeps_with_local:
  assumes "\<And>p. keeps (K ch) (body p)"
  shows "keeps (K ch) (with_local body)"
  unfolding keeps_def
proof (intro allI impI)
  fix r assume r: "K ch r"
  let ?p = "LocalParam (next_param (rt_sv r))"
  let ?r = "upd_sv (\<lambda>sv. sv\<lparr>locals := ?p # locals sv, next_param := Suc (next_param sv)\<rparr>) r"
  have drop: "K ch (upd_sv (drop_local ?p) r')" if "K ch r'" for r'
    using that J_locals[of "rt_sv r'" "next_param (rt_sv r')" "remove1 ?p (locals (rt_sv r'))"]
    by (simp add: K_def drop_local_def)
  have "K ch ?r" using r J_locals by (simp add: K_def)
  with assms have "wp True True (body ?p) (\<lambda>_. K ch) (\<lambda>_. K ch) ?r" by (rule keepsD)
  then show "wp True True (with_local body) (\<lambda>_. K ch) (\<lambda>_. K ch) r"
    by (auto simp: wp_def with_local_def Let_def drop split: outcome.split)
qed

theorem keeps_run_input:
  assumes "wf_chart ch" "benign_chart ch"
  shows "keeps (K ch) (run_input n ch i)"
proof -
  have wf: "wf_tree ch" using assms(1) by (simp add: wf_chart_def wf_core_def)
  then have n0: "0 < n_states ch" by (simp add: wf_tree_def)
  note V = vkeepsD[OF vkeeps_vcalls[OF assms]]
  have reset: "K ch (resetData r)" if "K ch r" for r
    using that by (simp add: K_def within_def resetData_def getData_def)
  have init: "K ch (init_data ch r)" if "K ch r" for r
    using K_activateData[OF reset[OF that] wf n0] own_slots(1)[OF assms(1) n0] K_activateData[OF _ wf]
    by (auto simp: init_data_def Let_def split: option.split)
  have start: "keeps (K ch) (start_with n ch p)" for p
    unfolding start_with_def dispatch_def by (intro keep_rules keeps_bind init V n0)
  have path: "y < n_states ch" if "ptr_ok ch s" "y \<in> set (context_path (n_states ch) ch s [])" for s y
  proof (cases s)
    case None
    have "context_path m ch None [] = []" for m by (cases m) simp_all
    then show ?thesis using None that(2) by simp
  next
    case (Some x)
    then have x: "x < n_states ch" using that(1) by (simp add: ptr_ok_def)
    from context_path_linked[OF wf x x, of "[]"] obtain xs
      where "context_path (n_states ch) ch s [] = 0 # xs" "linked ch 0 xs" using Some by auto
    then show ?thesis using that(2) n0 linked_bounds(1)[OF wf] by auto
  qed
  have restore: "keeps (K ch) (restoreState n ch s p)" if "ptr_ok ch s" for s p
    unfolding restoreState_def activate_def
    by (intro keep_rules keeps_bind reset V path[OF that])
  show ?thesis
  proof (cases i)
    case StartFresh
    then show ?thesis unfolding run_input_def start_def by (auto intro: keeps_with_local start)
  next
    case (StartWith p)
    then show ?thesis unfolding run_input_def by (auto intro: start)
  next
    case (Dispatch ev)
    then show ?thesis
      unfolding run_input_def dispatch_event_def dispatch_def by (auto intro!: keeps_with_local V n0)
  next
    case (DispatchWith ev p)
    then show ?thesis unfolding run_input_def dispatch_def by (auto intro!: V n0)
  next
    case (Restore s p)
    then show ?thesis unfolding run_input_def by (auto intro!: restore simp: ptr_ok_def)
  qed
qed

end

text \<open>A law that a new statechart satisfies holds in every reachable state.\<close>

locale service_invariant = service_law +
  assumes J_new: "J (new_service now)"
begin

lemma reachable_K:
  assumes "wf_chart ch" "benign_chart ch"
  shows "reachable n ch r \<Longrightarrow> K ch r"
proof (induction rule: reachable.induct)
  case (fresh env now)
  show ?case using J_new by (simp add: K_def within_def new_rt_def new_metadata_def getData_def)
next
  case (returned r i b r')
  then show ?case using wp_conj_Ret[OF keepsD[OF keeps_run_input[OF assms]]] by blast
next
  case (thrown r i e r')
  then show ?case using wp_conj_Exn[OF keepsD[OF keeps_run_input[OF assms]]] by blast
next
  case (outside r r')
  then show ?case by (blast intro: K_calm)
qed

lemma reachable_J: "wf_chart ch \<Longrightarrow> benign_chart ch \<Longrightarrow> reachable n ch r \<Longrightarrow> J (rt_sv r)"
  by (drule (2) reachable_K) (simp add: K_def)

end

end
