(* ===== verification/Timer_Service.thy ===== *)
theory Timer_Service
  imports Service_Laws
begin

text \<open>
  The laws of the timers: the timeout queue is sorted by deadline and holds only entries that are
  pending and valid, entries are numbered in the order of their construction, and the calls of the
  states leave the worker thread's tasks and the flags of a shutdown alone.
\<close>

section \<open>Sorted, pending, valid\<close>

definition queue_ok :: "service \<Rightarrow> bool" where
  "queue_ok sv \<longleftrightarrow> dq_sorted (deadline sv) (timeoutQueue sv) \<and>
     distinct (pendingEntries sv) \<and> distinct (m_items (timeoutQueue sv)) \<and>
     (\<forall>e \<in> set (pendingEntries sv). e < length (entries sv)) \<and>
     (\<forall>e \<in> set (m_items (timeoutQueue sv)). e \<in> set (pendingEntries sv) \<and> \<not> invalid sv e)"

lemma dq_sorted_cong:
  "(\<And>x. x \<in> set (m_items q) \<Longrightarrow> k x = k' x) \<Longrightarrow> dq_sorted k q = dq_sorted k' q"
  by (simp add: dq_sorted_def cong: map_cong)

lemma set_dq_add: "set (m_items (dq_add k x q)) = insert x (set (m_items q))"
  using mset_dq_add[of k x q] by (metis set_mset_add_mset_insert set_mset_mset)

lemma distinct_dq_add:
  "distinct (m_items q) \<Longrightarrow> x \<notin> set (m_items q) \<Longrightarrow> distinct (m_items (dq_add k x q))"
  using mset_dq_add[of k x q] by (metis distinct.simps(2) mset.simps(2) mset_eq_imp_distinct_iff)

lemma mark_invalid_nth:
  "deadline (mark_invalid e sv) x = deadline sv x"
  "x \<noteq> e \<Longrightarrow> invalid (mark_invalid e sv) x = invalid sv x"
  by (cases "e < length (entries sv)";
      auto simp: deadline_def invalid_def mark_invalid_def nth_list_update list_update_beyond)+

text \<open>Queueing an entry, by \<open>enqueueTimeout\<close> or \<open>dispatchAsynchron\<close>.\<close>

lemma queue_ok_add:
  assumes "queue_ok sv" and "new_entry s md ev p ms sv = (e, sv1)"
  shows "queue_ok (sv1\<lparr>pendingEntries := pendingEntries sv1 @ [e],
    timeoutQueue := dq_add (deadline sv1) e (timeoutQueue sv1)\<rparr>)"
proof -
  have e: "e = length (entries sv)" and sv1: "pendingEntries sv1 = pendingEntries sv"
    "timeoutQueue sv1 = timeoutQueue sv" "length (entries sv1) = Suc e" "\<not> invalid sv1 e"
    using assms(2) by (auto simp: new_entry_def invalid_def)
  have old: "deadline sv1 x = deadline sv x" "invalid sv1 x = invalid sv x" if "x < e" for x
    using assms(2) that by (auto simp: new_entry_def deadline_def invalid_def nth_append)
  have b: "x < e" if "x \<in> set (m_items (timeoutQueue sv)) \<or> x \<in> set (pendingEntries sv)" for x
    using assms(1) that e by (auto simp: queue_ok_def)
  let ?sv = "sv1\<lparr>pendingEntries := pendingEntries sv1 @ [e], timeoutQueue := dq_add (deadline sv1) e (timeoutQueue sv1)\<rparr>"
  have "dq_sorted (deadline sv1) (timeoutQueue sv)"
    using assms(1) dq_sorted_cong[of "timeoutQueue sv" "deadline sv1" "deadline sv"] old(1) b
    by (simp add: queue_ok_def)
  then have "dq_sorted (deadline ?sv) (timeoutQueue ?sv)"
    using dq_sorted_add[of "deadline sv1"] sv1(2) by (simp add: deadline_def[abs_def])
  moreover have "distinct (m_items (timeoutQueue ?sv))" "distinct (pendingEntries ?sv)"
    using assms(1) b sv1 by (auto simp: queue_ok_def intro!: distinct_dq_add)
  moreover have "invalid ?sv x = invalid sv1 x" for x by (simp add: invalid_def)
  ultimately show ?thesis
    using assms(1) b sv1 old(2) e by (fastforce simp: queue_ok_def set_dq_add)
qed

lemma queue_ok_enqueue: "queue_ok sv \<Longrightarrow> queue_ok (snd (enqueueTimeout s md ev p ms sv))"
proof (cases "running sv")
  case True
  assume ok: "queue_ok sv"
  obtain e sv1 where ne: "new_entry s md (Some ev) (Some p) ms sv = (e, sv1)" by fastforce
  show ?thesis
    using queue_ok_add[OF ok ne] True
    by (simp add: enqueueTimeout_def ne Let_def deadline_def[abs_def])
qed (simp add: enqueueTimeout_def)

lemma queue_ok_cancel:
  assumes ok: "queue_ok sv"
  shows "queue_ok (cancel_one e sv)"
proof (cases "e \<in> set (pendingEntries sv)")
  case True
  let ?sv = "cancel_entry e sv"
  have d: "deadline ?sv = deadline sv"
    by (rule ext) (simp add: cancel_entry_def Let_def deadline_def mark_invalid_nth[unfolded deadline_def])
  have i: "invalid ?sv x = invalid sv x" if "x \<noteq> e" for x
    using mark_invalid_nth(2)[OF that, of sv] by (simp add: cancel_entry_def Let_def invalid_def)
  show ?thesis
    using ok True dq_sorted_remove[of "deadline sv" "timeoutQueue sv" e] i
    by (auto simp: queue_ok_def cancel_one_def d dq_remove_def distinct_remove1
        dest: notin_set_remove1)
next
  case False
  then have "invalid (mark_invalid e sv) x = invalid sv x" if "x \<in> set (pendingEntries sv)" for x
    using that by (intro mark_invalid_nth(2)) auto
  then show ?thesis
    using ok False by (auto simp: queue_ok_def cancel_one_def mark_invalid_nth(1)[abs_def])
qed

interpretation timer_queue: service_invariant queue_ok
proof
  show "queue_ok (sv\<lparr>clock := t\<rparr>)" "queue_ok (sv\<lparr>locals := ls, next_param := k\<rparr>)" if "queue_ok sv" for sv t ls k
    using that by (simp_all add: queue_ok_def deadline_def[abs_def] invalid_def)
qed (simp_all add: queue_ok_enqueue queue_ok_cancel, simp add: queue_ok_def new_service_def dq_empty_def dq_sorted_def)

section \<open>Numbers\<close>

text \<open>The 64-bit counter: the entry constructed as the \<open>k\<close>-th one carries the number \<open>k + 1\<close>.\<close>

definition numbered :: "service \<Rightarrow> bool" where
  "numbered sv \<longleftrightarrow> idCounter sv = 1 + of_nat (length (entries sv)) \<and>
     (\<forall>e < length (entries sv). e_id (entries sv ! e) = 1 + of_nat e)"

lemma e_id_mark_invalid: "e_id (entries (mark_invalid e sv) ! x) = e_id (entries sv ! x)"
  by (cases "e < length (entries sv)") (auto simp: mark_invalid_def nth_list_update list_update_beyond)

lemma e_id_cancel_entry: "e_id (entries (cancel_entry e sv) ! x) = e_id (entries sv ! x)"
  using e_id_mark_invalid[of e sv x] by (simp add: cancel_entry_def Let_def)

lemma numbered_enqueue: "numbered sv \<Longrightarrow> numbered (snd (enqueueTimeout s md ev p ms sv))"
  by (auto simp: numbered_def enqueueTimeout_def new_entry_def Let_def nth_append less_Suc_eq)

interpretation entry_numbers: service_invariant numbered
  by unfold_locales
    (simp_all add: numbered_enqueue, simp_all add: numbered_def cancel_one_def e_id_mark_invalid
      e_id_cancel_entry new_service_def)

text \<open>Numbers repeat only after 2 ^ 64 entries.\<close>

lemma numbered_unique:
  assumes "numbered sv" "length (entries sv) \<le> 2 ^ 64" "e < length (entries sv)" "e' < length (entries sv)"
    and "e_id (entries sv ! e) = e_id (entries sv ! e')"
  shows "e = e'"
proof -
  have "(of_nat e :: 64 word) = of_nat e'" using assms by (simp add: numbered_def)
  then have "e mod 2 ^ 64 = e' mod 2 ^ 64" by (simp add: word_of_nat_eq_iff take_bit_eq_mod)
  then show ?thesis using assms(2-4) by simp
qed

lemma numbered_increasing:
  assumes "numbered sv" "length (entries sv) < 2 ^ 64" "e < e'" "e' < length (entries sv)"
  shows "e_id (entries sv ! e) < e_id (entries sv ! e')"
proof -
  have n: "e_id (entries sv ! x) = of_nat (Suc x)" if "x < length (entries sv)" for x
    using assms(1) that by (simp add: numbered_def)
  have "unat (of_nat (Suc x) :: 64 word) = Suc x" if "x < length (entries sv)" for x
    using that assms(2) by (simp add: unat_of_nat take_bit_eq_mod del: of_nat_Suc)
  then show ?thesis using assms(3,4) by (simp only: word_less_nat_alt n)
qed

section \<open>What the calls leave alone\<close>

definition same_pool :: "service \<Rightarrow> service \<Rightarrow> bool" where
  "same_pool sv0 sv \<longleftrightarrow> tasks sv = tasks sv0 \<and> held sv = held sv0 \<and> running sv = running sv0 \<and>
     pool_shutdown sv = pool_shutdown sv0 \<and> length (entries sv0) \<le> length (entries sv)"

interpretation pool_frame: service_law "same_pool sv0" for sv0
  by unfold_locales
    (auto simp: same_pool_def enqueueTimeout_def new_entry_def Let_def cancel_one_def)

end
