(* ===== verification/Timers.thy ===== *)
theory Timers
  imports Timer_Service Runs
begin

text \<open>
  What entering and leaving a state does to its timers: entering it queues one entry per timeout
  transition, leaving it cancels them.
\<close>

section \<open>Entering\<close>

text \<open>The timeout events of a state's transitions, in the order of the transitions.\<close>

definition timeout_triggers :: "'e chart \<Rightarrow> tid list \<Rightarrow> event list" where
  "timeout_triggers ch ts = filter is_timeout (List.map_filter (\<lambda>t. tr_event (trans ch t)) ts)"

lemma timeout_triggers_simps [simp]:
  "timeout_triggers ch [] = []"
  "timeout_triggers ch (t # ts) = (case tr_event (trans ch t) of
      Some ev \<Rightarrow> if is_timeout ev then ev # timeout_triggers ch ts else timeout_triggers ch ts
    | None \<Rightarrow> timeout_triggers ch ts)"
  by (simp_all add: timeout_triggers_def List.map_filter_simps split: option.split)

text \<open>\<open>r'\<close> has new timers of \<open>s\<close> for these events, and they are waiting.\<close>

definition armed :: "sid \<Rightarrow> event list \<Rightarrow> 'e rt \<Rightarrow> 'e rt \<Rightarrow> bool" where
  "armed s evs r r' \<longleftrightarrow> (\<exists>new. entries (rt_sv r') = entries (rt_sv r) @ new \<and>
     map e_deadline new = map (\<lambda>ev. clock (rt_sv r) + event_timeout ev) evs \<and>
     map e_event new = map Some evs \<and>
     (\<forall>e \<in> set new. e_state e = s \<and> \<not> e_invalid e) \<and>
     mset (m_items (timeoutQueue (rt_sv r'))) =
       mset (m_items (timeoutQueue (rt_sv r))) +
       mset [length (entries (rt_sv r)) ..< length (entries (rt_sv r)) + length evs]) \<and>
   map_option timeoutEvents (getData r' s) = map_option (\<lambda>d. timeoutEvents d @
      [length (entries (rt_sv r)) ..< length (entries (rt_sv r)) + length evs]) (getData r s) \<and>
   clock (rt_sv r') = clock (rt_sv r) \<and> running (rt_sv r')"

lemma armed_one:
  assumes "running (rt_sv r)" "tr_event (trans ch t) = Some ev" "is_timeout ev"
  shows "armed s [ev] r (arm_timer ch s p t r)"
  using assms
  by (auto simp: armed_def arm_timer_def enqueueTimeout_def new_entry_def Let_def mset_dq_add option.map_comp comp_def)

lemma armed_none:
  assumes "running (rt_sv r)" "\<And>ev. tr_event (trans ch t) = Some ev \<Longrightarrow> \<not> is_timeout ev"
  shows "arm_timer ch s p t r = r"
  using assms by (auto simp: arm_timer_def split: option.split)

lemma armed_append:
  assumes "armed s as a b" "armed s bs b c"
  shows "armed s (as @ bs) a c"
proof -
  obtain new where n: "entries (rt_sv b) = entries (rt_sv a) @ new"
    "map e_deadline new = map (\<lambda>ev. clock (rt_sv a) + event_timeout ev) as" "map e_event new = map Some as"
    "\<forall>e \<in> set new. e_state e = s \<and> \<not> e_invalid e"
    "mset (m_items (timeoutQueue (rt_sv b))) = mset (m_items (timeoutQueue (rt_sv a))) +
       mset [length (entries (rt_sv a)) ..< length (entries (rt_sv a)) + length as]"
    using assms(1) by (auto simp: armed_def)
  obtain new' where n': "entries (rt_sv c) = entries (rt_sv b) @ new'"
    "map e_deadline new' = map (\<lambda>ev. clock (rt_sv b) + event_timeout ev) bs" "map e_event new' = map Some bs"
    "\<forall>e \<in> set new'. e_state e = s \<and> \<not> e_invalid e"
    "mset (m_items (timeoutQueue (rt_sv c))) = mset (m_items (timeoutQueue (rt_sv b))) +
       mset [length (entries (rt_sv b)) ..< length (entries (rt_sv b)) + length bs]"
    using assms(2) by (auto simp: armed_def)
  have len: "length new = length as" using map_eq_imp_length_eq[OF n(3)] .
  have up: "[k ..< k + (length as + length bs)] = [k ..< k + length as] @ [k + length as ..< k + length as + length bs]" for k
    by (metis add.assoc le_add1 upt_add_eq_append)
  have clk: "clock (rt_sv b) = clock (rt_sv a)" "clock (rt_sv c) = clock (rt_sv b)" "running (rt_sv c)"
    using assms by (simp_all add: armed_def)
  have d: "map_option timeoutEvents (getData c s) = map_option (\<lambda>d. timeoutEvents d @
      [length (entries (rt_sv a)) ..< length (entries (rt_sv a)) + length (as @ bs)]) (getData a s)"
    using assms len n(1) by (cases "getData a s"; cases "getData b s") (auto simp: armed_def up)
  show ?thesis
    unfolding armed_def
    using n n' d clk len by (intro conjI exI[of _ "new @ new'"]) (auto simp: up)
qed

lemma armed_fold:
  "running (rt_sv r) \<Longrightarrow> armed s (timeout_triggers ch ts) r (fold (arm_timer ch s p) ts r)"
proof (induction ts arbitrary: r)
  case Nil
  then show ?case by (auto simp: armed_def option.map_comp comp_def intro: option.map_cong0)
next
  case (Cons t ts)
  show ?case
  proof (cases "\<exists>ev. tr_event (trans ch t) = Some ev \<and> is_timeout ev")
    case True
    then obtain ev where ev: "tr_event (trans ch t) = Some ev" "is_timeout ev" by blast
    note one = armed_one[OF Cons.prems ev, where s = s and p = p]
    then have "running (rt_sv (arm_timer ch s p t r))" by (simp add: armed_def)
    then show ?thesis using armed_append[OF one Cons.IH] ev by simp
  next
    case False
    then have "arm_timer ch s p t r = r" by (intro armed_none[OF Cons.prems]) blast
    moreover have "timeout_triggers ch (t # ts) = timeout_triggers ch ts"
      using False by (auto split: option.split)
    ultimately show ?thesis using Cons by simp
  qed
qed

section \<open>Leaving\<close>

definition forgotten :: "service \<Rightarrow> eid \<Rightarrow> bool" where
  "forgotten sv e \<longleftrightarrow> invalid sv e \<and> e \<notin> set (m_items (timeoutQueue sv)) \<and> e \<notin> set (pendingEntries sv)"

lemma forgotten_cancel:
  assumes "queue_ok sv" "e \<in> set (pendingEntries sv)"
  shows "forgotten (cancel_entry e sv) e"
proof -
  have "e < length (entries sv)" using assms by (simp add: queue_ok_def)
  then have "invalid (cancel_entry e sv) e"
    by (simp add: invalid_def cancel_entry_def Let_def mark_invalid_def)
  then show ?thesis using assms(1) by (simp add: forgotten_def queue_ok_def dq_remove_def)
qed

lemma forgotten_stays:
  assumes "forgotten sv x"
  shows "forgotten (cancel_entry e sv) x"
proof -
  have "invalid (cancel_entry e sv) x"
    using assms by (cases "e < length (entries sv)")
      (auto simp: forgotten_def invalid_def cancel_entry_def Let_def mark_invalid_def nth_list_update list_update_beyond)
  then show ?thesis using assms by (auto simp: forgotten_def dq_remove_def dest: notin_set_remove1)
qed

lemma forgotten_all:
  "queue_ok sv \<Longrightarrow> distinct es \<Longrightarrow> set es \<subseteq> set (pendingEntries sv) \<Longrightarrow> e \<in> set es \<or> forgotten sv e \<Longrightarrow>
   forgotten (cancel_all es sv) e"
proof (induction es arbitrary: sv)
  case (Cons x es)
  have x: "x \<in> set (pendingEntries sv)" using Cons.prems by simp
  have "queue_ok (cancel_entry x sv)" using queue_ok_cancel[OF Cons.prems(1), of x] x by (simp add: cancel_one_def)
  moreover have "set es \<subseteq> set (pendingEntries (cancel_entry x sv))"
  proof
    fix y assume "y \<in> set es"
    then have "y \<noteq> x" "y \<in> set (pendingEntries sv)" using Cons.prems(2,3) by auto
    then show "y \<in> set (pendingEntries (cancel_entry x sv))" by (simp add: in_set_remove1)
  qed
  moreover have "e \<in> set es \<or> forgotten (cancel_entry x sv) e"
    using Cons.prems(4) forgotten_cancel[OF Cons.prems(1) x] forgotten_stays by auto
  ultimately show ?case using Cons.IH Cons.prems(2) by simp
qed simp

end
