(* ===== verification/Test_Charts.thy ===== *)
theory Test_Charts
  imports Statechart
begin

text \<open>
  The charts of the repository's own test suite (\<open>tests/TestCharts.cpp\<close>) with the helper
  callbacks and events of \<open>tests/Helpers.cpp\<close>, built by the model's factory operations in the
  order of the source.  A pointer variable of the source is the number of the state it points to:
  the statechart is 0 and the states count from 1 in the order of their creation.
\<close>

section \<open>The test parameter, actions, guards and events\<close>

record test_env =
  path :: string
  guardvalue :: int

definition makeTestAction :: "string \<Rightarrow> string \<Rightarrow> test_env action" where
  "makeTestAction nm k = (\<lambda>p. mmod (\<lambda>r. r\<lparr>rt_env := (rt_env r)\<lparr>path :=
     (if path (rt_env r) \<noteq> [] then path (rt_env r) @ '' '' else path (rt_env r)) @ k @ '':'' @ nm\<rparr>\<rparr>))"

definition makeTestGuard :: "int \<Rightarrow> test_env guard" where
  "makeTestGuard v = (\<lambda>p r. guardvalue (rt_env r) = v)"

definition TestEvent :: "nat \<Rightarrow> event" where
  "TestEvent v = UserEvent ''TestEvent'' v"

definition TestEvent_equals :: "nat \<Rightarrow> event option \<Rightarrow> pref \<Rightarrow> test_env rt \<Rightarrow> bool" where
  "TestEvent_equals v ev p r = (case ev of Some (UserEvent _ v') \<Rightarrow> v' = v | _ \<Rightarrow> False)"

section \<open>Building\<close>

type_synonym 'e build = "'e chart \<Rightarrow> exn + 'e chart"

definition new_obj :: "string \<Rightarrow> sid \<Rightarrow> 'e ctor \<Rightarrow> 'e build" where
  "new_obj nm parent c ch =
     (case create nm (Some parent) c ch of Inl e \<Rightarrow> Inl e | Inr (ch', _) \<Rightarrow> Inr ch')"

text \<open>The last created state gets the two test actions.\<close>

definition with_actions :: "string \<Rightarrow> test_env build \<Rightarrow> test_env build" where
  "with_actions a b ch =
     (case b ch of
        Inl e \<Rightarrow> Inl e
      | Inr ch' \<Rightarrow>
          (let s = n_states ch
           in Inr (setExitAction s (Some (makeTestAction a ''D''))
                (setEntryAction s (Some (makeTestAction a ''A'')) ch'))))"

definition state :: "string \<Rightarrow> sid \<Rightarrow> string \<Rightarrow> test_env build" where
  "state nm parent a = new_obj nm parent
     (CState (Some (makeTestAction a ''A'')) None (Some (makeTestAction a ''D'')))"

definition pstart :: "string \<Rightarrow> sid \<Rightarrow> string \<Rightarrow> test_env build" where
  "pstart nm parent a = with_actions a (new_obj nm parent (CPseudo Start))"

definition pfinal :: "string \<Rightarrow> sid \<Rightarrow> string \<Rightarrow> test_env build" where
  "pfinal nm parent a = with_actions a (new_obj nm parent CFinal)"

definition pjunction :: "string \<Rightarrow> sid \<Rightarrow> string \<Rightarrow> test_env build" where
  "pjunction nm parent a = with_actions a (new_obj nm parent (CPseudo Junction))"

definition phier :: "string \<Rightarrow> sid \<Rightarrow> string \<Rightarrow> test_env build" where
  "phier nm parent a = new_obj nm parent
     (CHierarchical (Some (makeTestAction a ''A'')) None (Some (makeTestAction a ''D'')))"

definition pconc :: "string \<Rightarrow> sid \<Rightarrow> string \<Rightarrow> test_env build" where
  "pconc nm parent a = new_obj nm parent
     (CConcurrent (Some (makeTestAction a ''A'')) None (Some (makeTestAction a ''D'')))"

definition phistory :: "string \<Rightarrow> sid \<Rightarrow> pseudo_type \<Rightarrow> string \<Rightarrow> string \<Rightarrow> test_env build" where
  "phistory nm parent ty a k ch =
     (case new_obj nm parent (CPseudo ty) ch of
        Inl e \<Rightarrow> Inl e
      | Inr ch' \<Rightarrow> Inr (setExitAction (n_states ch) (Some (makeTestAction a k)) ch'))"

definition tr ::
  "sid \<Rightarrow> sid \<Rightarrow> event option \<Rightarrow> 'e guard option \<Rightarrow> 'e action option \<Rightarrow> 'e build"
where
  "tr s t ev g a ch =
     (let ch1 = (case ev of None \<Rightarrow> ch | Some e \<Rightarrow> fst (createEvent e ch))
      in Inr (fst (createTransition (Some s) (Some t) ev g a ch1)))"

definition internal :: "sid \<Rightarrow> event \<Rightarrow> 'e guard option \<Rightarrow> 'e action option \<Rightarrow> 'e build" where
  "internal s ev g a ch =
     Inr (fst (createInternalTransition (Some s) (Some ev) g a (fst (createEvent ev ch))))"

definition itr :: "sid \<Rightarrow> event \<Rightarrow> 'e action option \<Rightarrow> 'e build" where
  "itr s ev a = internal s ev None a"

definition rename :: "sid \<Rightarrow> string \<Rightarrow> 'e build" where
  "rename s nm ch = Inr (setName s nm ch)"

abbreviation on :: "nat \<Rightarrow> event option" where
  "on v \<equiv> Some (TestEvent v)"

fun run_build :: "'e chart \<Rightarrow> 'e build list \<Rightarrow> exn + 'e chart" where
  "run_build ch [] = Inr ch"
| "run_build ch (b # bs) = (case b ch of Inl e \<Rightarrow> Inl e | Inr ch' \<Rightarrow> run_build ch' bs)"

definition build_with ::
  "(nat \<Rightarrow> event option \<Rightarrow> pref \<Rightarrow> 'e rt \<Rightarrow> bool) \<Rightarrow> string \<Rightarrow> 'e build list \<Rightarrow> 'e chart"
where
  "build_with ueq nm bs =
     (case run_build (new_chart nm ueq) bs of Inl _ \<Rightarrow> new_chart nm ueq | Inr ch \<Rightarrow> ch)"

definition build :: "string \<Rightarrow> test_env build list \<Rightarrow> test_env chart" where
  "build = build_with TestEvent_equals"

section \<open>The charts\<close>

definition chart_t1 :: "test_env chart" where
  "chart_t1 = build ''t1''
    [state ''a'' 0 ''a'',
     state ''b'' 0 ''b'',
     pstart ''start'' 0 ''start'',
     pfinal ''end'' 0 ''end'',
     tr 3 1 None None None,
     tr 1 2 None None None,
     tr 2 4 None None None]"

definition chart_t2 :: "test_env chart" where
  "chart_t2 = build ''t2''
    [state ''a'' 0 ''a'',
     pstart ''start'' 0 ''start'',
     pfinal ''end'' 0 ''end'',
     tr 2 1 None None None,
     tr 1 1 (on 1) None None,
     tr 1 3 (on 2) None None,
     rename 1 ''s1'',
     rename 2 ''p1'',
     rename 3 ''p3'']"

definition chart_t3 :: "test_env chart" where
  "chart_t3 = build ''t3''
    [state ''a'' 0 ''a'',
     state ''b'' 0 ''b'',
     pstart ''start'' 0 ''start'',
     pfinal ''end'' 0 ''end'',
     tr 3 1 None None None,
     tr 1 2 (on 1) None None,
     tr 1 4 (Some (TimeoutEvent 1000 1 1)) None None,
     tr 2 4 None None None]"

definition chart_t4 :: "test_env chart" where
  "chart_t4 = build ''t4''
    [state ''a'' 0 ''a'',
     state ''b'' 0 ''b'',
     state ''c'' 0 ''c'',
     pstart ''start'' 0 ''start'',
     pfinal ''end'' 0 ''end'',
     pjunction ''j1'' 0 ''j1'',
     pjunction ''j2'' 0 ''j2'',
     pjunction ''j3'' 0 ''j3'',
     tr 4 1 None None None,
     tr 1 5 None (Some (makeTestGuard 0)) None,
     tr 1 6 None None None,
     tr 6 2 None (Some (makeTestGuard 1)) (Some (makeTestAction ''a1'' ''E'')),
     tr 6 3 None (Some (makeTestGuard 2)) (Some (makeTestAction ''a2'' ''E'')),
     tr 2 5 None None None,
     tr 3 7 None None None,
     tr 7 8 None None (Some (makeTestAction ''a3'' ''E'')),
     tr 8 5 None None (Some (makeTestAction ''a4'' ''E''))]"

definition chart_t5 :: "test_env chart" where
  "chart_t5 = build ''t1''
    [state ''a'' 0 ''a'',
     pstart ''start'' 0 ''start'',
     pfinal ''end'' 0 ''end'',
     tr 2 1 None None (Some (makeTestAction ''t1'' ''E'')),
     tr 1 1 (on 1) None (Some (makeTestAction ''t2'' ''E'')),
     itr 1 (TestEvent 2) (Some (makeTestAction ''t3'' ''E'')),
     tr 1 3 (on 3) None (Some (makeTestAction ''t4'' ''E''))]"

definition chart_h1 :: "test_env chart" where
  "chart_h1 = build ''h1''
    [phier ''p'' 0 ''p'',
     state ''a'' 1 ''a'',
     state ''b'' 1 ''b'',
     pstart ''start'' 0 ''start'',
     pfinal ''end'' 0 ''end'',
     pstart ''start p'' 1 ''start p'',
     pfinal ''end p'' 1 ''end p'',
     tr 4 1 None None None,
     tr 1 5 None None None,
     tr 6 2 None None None,
     tr 2 3 None None None,
     tr 3 7 None None None]"

definition chart_h2 :: "test_env chart" where
  "chart_h2 = build ''h2''
    [phier ''p'' 0 ''p'',
     state ''a'' 1 ''a'',
     state ''b'' 1 ''b'',
     pstart ''start'' 0 ''start'',
     pfinal ''end'' 0 ''end'',
     pstart ''start p'' 1 ''start p'',
     pfinal ''end p'' 1 ''end p'',
     tr 4 1 None None None,
     tr 1 5 None None None,
     tr 1 5 (on 1) None None,
     tr 6 2 None None None,
     tr 2 3 (on 1) None None,
     tr 3 7 None None None]"

definition chart_h3 :: "test_env chart" where
  "chart_h3 = build ''h3''
    [phier ''p'' 0 ''p'',
     state ''a'' 1 ''a'',
     state ''b'' 1 ''b'',
     pstart ''start'' 0 ''start'',
     pfinal ''end'' 0 ''end'',
     pstart ''start p'' 1 ''start p'',
     pfinal ''end p'' 1 ''end p'',
     tr 4 1 None None None,
     tr 1 5 None None None,
     tr 1 5 (on 2) None None,
     tr 6 2 None None None,
     tr 2 3 (on 1) None None,
     tr 3 7 None None None]"

definition chart_h4 :: "test_env chart" where
  "chart_h4 = build ''h4''
    [phier ''p'' 0 ''p'',
     state ''a'' 1 ''a'',
     state ''b'' 1 ''b'',
     pstart ''start'' 0 ''start'',
     pfinal ''end'' 0 ''end'',
     pstart ''start p'' 1 ''start p'',
     pfinal ''end p'' 1 ''end p'',
     phistory ''history p'' 1 History ''history p'' ''U'',
     tr 4 1 None None None,
     tr 1 1 (on 1) None None,
     tr 1 5 None None None,
     tr 6 8 None None None,
     tr 8 2 None None None,
     tr 2 3 (on 2) None None,
     tr 3 2 (on 2) None None,
     tr 3 7 (on 3) None None]"

definition chart_h5 :: "test_env chart" where
  "chart_h5 = build ''h5''
    [phier ''p'' 0 ''p'',
     phier ''q'' 1 ''q'',
     state ''a'' 1 ''a'',
     state ''b'' 2 ''b'',
     state ''c'' 2 ''c'',
     state ''d'' 0 ''d'',
     pstart ''start'' 0 ''start'',
     pfinal ''end'' 0 ''end'',
     pstart ''start p'' 1 ''start p'',
     pfinal ''end p'' 1 ''end p'',
     phistory ''history p'' 1 DeepHistory ''history p'' ''U'',
     pstart ''start q'' 2 ''start q'',
     tr 7 1 None None None,
     tr 1 1 (on 1) None None,
     tr 1 8 None None None,
     tr 9 11 None None None,
     tr 11 3 None None None,
     tr 3 2 (on 2) None None,
     tr 2 3 (on 2) None None,
     tr 2 10 (on 3) None None,
     tr 12 4 None None None,
     tr 4 5 (on 4) None None,
     tr 5 4 (on 4) None None,
     tr 5 6 (on 5) None None,
     tr 6 1 None None None]"

definition chart_h6 :: "test_env chart" where
  "chart_h6 = build ''h6''
    [phier ''p'' 0 ''p'',
     phier ''q'' 1 ''q'',
     phier ''x'' 0 ''x'',
     state ''a'' 2 ''r'',
     state ''b'' 3 ''y'',
     pstart ''start'' 0 ''start'',
     pfinal ''end'' 0 ''end'',
     tr 6 4 None None None,
     tr 4 5 None None None,
     tr 5 7 None None None]"

definition chart_c1 :: "test_env chart" where
  "chart_c1 = build ''c1''
    [pconc ''p'' 0 ''p'',
     phier ''p-r1'' 1 ''p-r1'',
     phier ''p-r2'' 1 ''p-r2'',
     state ''a'' 2 ''a'',
     state ''b'' 3 ''b'',
     pstart ''start'' 0 ''start'',
     pfinal ''end'' 0 ''end'',
     pstart ''start p-r1'' 2 ''start p-r1'',
     pfinal ''end p-r1'' 2 ''end p-r1'',
     pstart ''start p-r2'' 3 ''start p-r2'',
     pfinal ''end p-r2'' 3 ''end p-r2'',
     tr 6 1 None None None,
     tr 1 7 None None None,
     tr 8 4 None None None,
     tr 4 9 None None None,
     tr 10 5 None None None,
     tr 5 11 None None None]"

definition chart_c2 :: "test_env chart" where
  "chart_c2 = build ''c2''
    [pconc ''p'' 0 ''p'',
     phier ''p-r1'' 1 ''p-r1'',
     phier ''p-r2'' 1 ''p-r2'',
     state ''a'' 2 ''a'',
     state ''b'' 2 ''b'',
     state ''c'' 3 ''c'',
     state ''d'' 3 ''d'',
     state ''e'' 3 ''e'',
     pstart ''start'' 0 ''start'',
     pfinal ''end'' 0 ''end'',
     pstart ''start p-r1'' 2 ''start p-r1'',
     pfinal ''end p-r1'' 2 ''end p-r1'',
     pstart ''start p-r2'' 3 ''start p-r2'',
     pfinal ''end p-r2'' 3 ''end p-r2'',
     tr 9 1 None None None,
     tr 1 10 None None None,
     tr 1 10 (on 3) None None,
     tr 11 4 None None None,
     tr 4 5 (on 2) None None,
     tr 5 12 None None None,
     tr 13 6 None None None,
     tr 6 7 (on 1) None None,
     tr 7 8 (on 2) None None,
     tr 8 14 None None None]"

definition chart_c3 :: "test_env chart" where
  "chart_c3 = build ''c3''
    [pconc ''p'' 0 ''p'',
     phier ''p-r1'' 1 ''p-r1'',
     phier ''p-r2'' 1 ''p-r2'',
     state ''a'' 2 ''a'',
     state ''b'' 3 ''b'',
     pstart ''start'' 0 ''start'',
     pfinal ''end'' 0 ''end'',
     pfinal ''end p-r1'' 2 ''end p-r1'',
     pstart ''start p-r2'' 3 ''start p-r2'',
     pfinal ''end p-r2'' 3 ''end p-r2'',
     tr 6 4 None None None,
     tr 1 7 None None None,
     tr 4 8 None None None,
     tr 9 5 None None None,
     tr 5 10 None None None]"

definition chart_c4 :: "test_env chart" where
  "chart_c4 = build ''c4''
    [pconc ''p'' 0 ''p'',
     phier ''p-r1'' 1 ''p-r1'',
     phier ''p-r2'' 1 ''p-r2'',
     state ''a'' 2 ''a'',
     state ''b'' 3 ''b'',
     state ''c'' 3 ''c'',
     pstart ''start'' 0 ''start'',
     pfinal ''end'' 0 ''end'',
     pstart ''start p-r1'' 2 ''start p-r1'',
     pstart ''start p-r2'' 3 ''start p-r2'',
     tr 7 1 None None None,
     tr 9 4 None None None,
     tr 4 8 None None None,
     tr 10 5 None None None,
     tr 5 6 None None None]"

definition chart_c5 :: "test_env chart" where
  "chart_c5 = build ''c5''
    [pconc ''p'' 0 ''p'',
     phier ''p-r1'' 1 ''p-r1'',
     phier ''p-r2'' 1 ''p-r2'',
     state ''a'' 2 ''a'',
     state ''b'' 3 ''b'',
     state ''c'' 3 ''c'',
     pstart ''start'' 0 ''start'',
     pfinal ''end'' 0 ''end'',
     pstart ''start p-r1'' 2 ''start p-r1'',
     pstart ''start p-r2'' 3 ''start p-r2'',
     tr 7 1 None None None,
     tr 9 4 None None None,
     tr 4 8 (on 1) None None,
     tr 10 5 None None None,
     tr 5 6 (on 2) None None]"

definition chart_c6 :: "test_env chart" where
  "chart_c6 = build ''c6''
    [pconc ''p'' 0 ''p'',
     phier ''p-r1'' 1 ''p-r1'',
     phier ''p-r2'' 1 ''p-r2'',
     state ''a'' 2 ''a'',
     state ''b'' 3 ''b'',
     pstart ''start'' 0 ''start'',
     pfinal ''end'' 0 ''end'',
     pfinal ''end p-r1'' 2 ''end p-r1'',
     pfinal ''end p-r2'' 3 ''end p-r2'',
     with_actions ''fork'' (new_obj ''fork'' 0 (CPseudo Fork)),
     tr 6 10 None None None,
     tr 10 4 None None None,
     tr 10 5 None None None,
     tr 4 8 None None None,
     tr 5 9 None None None,
     tr 1 7 None None None]"

definition chart_c7 :: "test_env chart" where
  "chart_c7 = build ''c7''
    [pconc ''p'' 0 ''p'',
     phier ''p-r1'' 1 ''p-r1'',
     phier ''p-r2'' 1 ''p-r2'',
     phier ''p-r3'' 1 ''p-r3'',
     state ''a'' 2 ''a'',
     state ''b'' 3 ''b'',
     state ''c'' 4 ''c'',
     state ''d'' 4 ''d'',
     pstart ''start'' 0 ''start'',
     pfinal ''end'' 0 ''end'',
     pfinal ''end p-r1'' 2 ''end p-r1'',
     pfinal ''end p-r2'' 3 ''end p-r2'',
     with_actions ''fork'' (new_obj ''fork'' 0 (CPseudo Fork)),
     pstart ''start p-r3'' 4 ''start p-r3'',
     pfinal ''end p-r3'' 4 ''end p-r3'',
     tr 9 13 None None None,
     tr 13 5 None None None,
     tr 13 6 None None None,
     tr 13 7 None (Some (makeTestGuard 1)) None,
     tr 5 11 None None None,
     tr 6 12 None None None,
     tr 14 8 None None None,
     tr 7 15 None None None,
     tr 8 15 None None None,
     tr 1 10 None None None]"

definition chart_c8 :: "test_env chart" where
  "chart_c8 = build ''x8''
    [pconc ''p'' 0 ''p'',
     phier ''p-r1'' 1 ''p-r1'',
     phier ''p-r2'' 1 ''p-r2'',
     state ''a'' 2 ''a'',
     state ''b'' 3 ''b'',
     state ''c'' 3 ''c'',
     pstart ''start'' 0 ''start'',
     pfinal ''end'' 0 ''end'',
     pstart ''start p-r1'' 2 ''start p-r1'',
     pstart ''start p-r2'' 3 ''start p-r2'',
     with_actions ''join'' (new_obj ''join'' 0 (CPseudo Join)),
     tr 7 1 None None None,
     tr 9 4 None None None,
     tr 10 5 None None None,
     tr 5 6 None None None,
     tr 4 11 None None None,
     tr 6 11 None None None,
     tr 11 8 None None None]"

definition chart_c9 :: "test_env chart" where
  "chart_c9 = build ''c9''
    [pconc ''p'' 0 ''p'',
     phier ''p-r1'' 1 ''p-r1'',
     phier ''p-r2'' 1 ''p-r2'',
     phier ''p-r3'' 1 ''p-r3'',
     state ''a'' 2 ''a'',
     state ''b'' 3 ''b'',
     state ''c'' 3 ''c'',
     state ''d'' 4 ''d'',
     pstart ''start'' 0 ''start'',
     pfinal ''end'' 0 ''end'',
     pstart ''start p-r1'' 2 ''start p-r1'',
     pstart ''start p-r2'' 3 ''start p-r2'',
     with_actions ''join'' (new_obj ''join'' 0 (CPseudo Join)),
     pstart ''start p-r3'' 4 ''start p-r3'',
     tr 9 1 None None None,
     tr 11 5 None None None,
     tr 12 6 None None None,
     tr 6 7 (Some (TimeoutEvent 2000 1 1)) None None,
     tr 5 13 None None None,
     tr 7 13 None None None,
     tr 13 10 None None None,
     tr 14 8 None None None]"

definition chart_c10 :: "test_env chart" where
  "chart_c10 = build ''c10''
    [pconc ''p'' 0 ''p'',
     phier ''p-r1'' 1 ''p-r1'',
     phier ''p-r2'' 1 ''p-r2'',
     state ''a'' 3 ''a'',
     state ''b'' 3 ''b'',
     state ''c'' 0 ''c'',
     pstart ''start'' 0 ''start'',
     pfinal ''end'' 0 ''end'',
     pstart ''start p-r1'' 2 ''start p-r1'',
     pfinal ''end p-r1'' 2 ''end p-r1'',
     pstart ''start p-r2'' 3 ''start p-r2'',
     phistory ''history'' 3 History ''history'' ''E'',
     tr 7 6 None None None,
     tr 6 1 (on 1) None None,
     tr 6 8 (on 2) None None,
     tr 9 10 None None None,
     tr 11 12 None None None,
     tr 12 4 None None None,
     tr 4 5 (on 1) None None,
     tr 4 6 (on 2) None None,
     tr 5 4 (on 1) None None,
     tr 5 6 (on 2) None None]"

definition chart_c11 :: "test_env chart" where
  "chart_c11 = build ''c10''
    [pconc ''p'' 0 ''p'',
     phier ''p-r1'' 1 ''p-r1'',
     phier ''p-r2'' 1 ''p-r2'',
     state ''a'' 2 ''a'',
     state ''b'' 3 ''b'',
     pstart ''start'' 0 ''start'',
     pfinal ''end'' 0 ''end'',
     pstart ''start p-r1'' 2 ''start p-r1'',
     pfinal ''end p-r1'' 2 ''end p-r1'',
     pstart ''start p-r2'' 3 ''start p-r2'',
     pfinal ''end p-r2'' 3 ''end p-r2'',
     tr 6 1 None None None,
     tr 8 4 None None None,
     tr 4 9 (Some (TimeoutEvent 500 1 1)) None (Some (makeTestAction ''t1'' ''E'')),
     tr 10 5 None None None,
     tr 5 11 (Some (TimeoutEvent 250 2 2)) None (Some (makeTestAction ''t2'' ''E'')),
     tr 1 7 None None None]"

end
