(* ===== verification/Test_Built.thy ===== *)
theory Test_Built
  imports Test_Charts Building
begin

text \<open>
  The test charts as charts in the sense of theory \<open>Building\<close>: each build script of theory
  \<open>Test_Charts\<close> is a sequence of legal factory calls, and the chart it builds is the literal
  record given here, on which runs are evaluated.
\<close>

section \<open>Legal scripts\<close>

text \<open>
  Called on a built chart whose states have the classes \<open>ks\<close>, the script succeeds only with a
  built chart whose states have the classes \<open>ks'\<close>.
\<close>

definition legal :: "'e build \<Rightarrow> kind list \<Rightarrow> kind list \<Rightarrow> bool" where
  "legal b ks ks' \<longleftrightarrow>
     (\<forall>ch ch'. built ch \<and> map st_kind (ownedStates ch) = ks \<and> b ch = Inr ch' \<longrightarrow>
        built ch' \<and> map st_kind (ownedStates ch') = ks')"

lemma legalD:
  "legal b ks ks' \<Longrightarrow> built ch \<Longrightarrow> map st_kind (ownedStates ch) = ks \<Longrightarrow> b ch = Inr ch' \<Longrightarrow>
   built ch' \<and> map st_kind (ownedStates ch') = ks'"
  unfolding legal_def by blast

lemma kinds_nth:
  "map st_kind (ownedStates ch) = ks \<Longrightarrow> s < length ks \<Longrightarrow> s < n_states ch \<and> kind_of ch s = ks ! s"
  by (metis length_map nth_map)

lemma kinds_ext:
  assumes "tree_ext ch ch'" "n_states ch' = n_states ch"
  shows "map st_kind (ownedStates ch') = map st_kind (ownedStates ch)"
  using assms by (auto simp: tree_ext_def intro: nth_equalityI)

lemma kinds_snoc:
  assumes "tree_ext ch ch'" "n_states ch' = Suc (n_states ch)" "kind_of ch' (n_states ch) = k"
  shows "map st_kind (ownedStates ch') = map st_kind (ownedStates ch) @ [k]"
proof (rule nth_equalityI)
  fix i assume "i < length (map st_kind (ownedStates ch'))"
  then consider "i < n_states ch" | "i = n_states ch" using assms(2) by fastforce
  then show "map st_kind (ownedStates ch') ! i = (map st_kind (ownedStates ch) @ [k]) ! i"
    using assms by cases (auto simp: tree_ext_def nth_append)
qed (simp add: assms(2))

lemma legal_new_obj:
  assumes "p < length ks" "is_context (ks ! p)" "\<forall>g t e. c \<noteq> CCondition g t e"
  shows "legal (new_obj nm p c) ks (ks @ [ctor_kind c])"
  unfolding legal_def
proof (intro allI impI, elim conjE)
  fix ch ch' assume b: "built ch" and ks: "map st_kind (ownedStates ch) = ks"
    and n: "new_obj nm p c ch = Inr ch'"
  then obtain s where cr: "create nm (Some p) c ch = Inr (ch', s)"
    by (auto simp: new_obj_def split: sum.splits)
  have p: "p < n_states ch" "is_context (kind_of ch p)"
    using kinds_nth[OF ks assms(1)] assms(2) by simp_all
  have "ctor_ok ch c" using assms(3) by (cases c) auto
  from built.create[OF b p this cr] have "built ch'" .
  moreover obtain ch1 where "construct c nm (Some p) ch = Inr ch1"
    and ch': "ch' = ch1\<lparr>stateNames := AList.update nm (n_states ch) (stateNames ch1)\<rparr>"
    using cr by (rule create_parts)
  note r = construct_result[OF p(1) this(1)]
  have "map st_kind (ownedStates ch1) = ks @ [ctor_kind c]"
    using kinds_snoc[OF r(5,1,3)] ks by simp
  ultimately show "built ch' \<and> map st_kind (ownedStates ch') = ks @ [ctor_kind c]"
    by (simp add: ch')
qed

lemma kinds_upd_obj:
  "(\<And>ob. st_kind (f ob) = st_kind ob) \<Longrightarrow>
   map st_kind (ownedStates (upd_obj s f ch)) = map st_kind (ownedStates ch)"
  by (rule nth_equalityI) (simp_all add: obj_upd_obj)

lemma legal_set_actions:
  assumes "legal b ks (ks @ [k])"
  shows "legal (with_actions a b) ks (ks @ [k])"
  unfolding legal_def
proof (intro allI impI, elim conjE)
  fix ch ch' assume h: "built ch" "map st_kind (ownedStates ch) = ks" "with_actions a b ch = Inr ch'"
  then obtain ch1 where ch1: "b ch = Inr ch1"
    and ch': "ch' = setExitAction (n_states ch) (Some (makeTestAction a ''D''))
      (setEntryAction (n_states ch) (Some (makeTestAction a ''A'')) ch1)"
    by (auto simp: with_actions_def Let_def split: sum.splits)
  have 1: "built ch1" "map st_kind (ownedStates ch1) = ks @ [k]"
    using legalD[OF assms h(1,2) ch1] by simp_all
  have "length ks = n_states ch" using h(2) by auto
  then have s: "n_states ch < n_states ch1" using 1(2) by (metis length_append_singleton length_map lessI)
  then have "built ch'"
    unfolding ch' by (intro built.exit_action built.entry_action 1(1)) (simp_all add: setEntryAction_def)
  moreover have "map st_kind (ownedStates ch') = map st_kind (ownedStates ch1)"
    unfolding ch' setExitAction_def setEntryAction_def by (simp add: kinds_upd_obj)
  ultimately show "built ch' \<and> map st_kind (ownedStates ch') = ks @ [k]" using 1(2) by simp
qed

lemma legal_history:
  assumes "p < length ks" "is_context (ks ! p)"
  shows "legal (phistory nm p ty a k) ks (ks @ [Pseudo ty])"
  unfolding legal_def
proof (intro allI impI, elim conjE)
  fix ch ch' assume h: "built ch" "map st_kind (ownedStates ch) = ks" "phistory nm p ty a k ch = Inr ch'"
  then obtain ch1 where ch1: "new_obj nm p (CPseudo ty) ch = Inr ch1"
    and ch': "ch' = setExitAction (n_states ch) (Some (makeTestAction a k)) ch1"
    by (auto simp: phistory_def split: sum.splits)
  have 1: "built ch1" "map st_kind (ownedStates ch1) = ks @ [Pseudo ty]"
    using legalD[OF legal_new_obj[OF assms, of "CPseudo ty" nm] h(1,2) ch1] by simp_all
  have "length ks = n_states ch" using h(2) by auto
  then have "n_states ch < n_states ch1" using 1(2) by (metis length_append_singleton length_map lessI)
  then have "built ch'" unfolding ch' by (intro built.exit_action 1(1))
  moreover have "map st_kind (ownedStates ch') = map st_kind (ownedStates ch1)"
    unfolding ch' setExitAction_def by (simp add: kinds_upd_obj)
  ultimately show "built ch' \<and> map st_kind (ownedStates ch') = ks @ [Pseudo ty]" using 1(2) by simp
qed

lemma built_createEvent_option:
  "built ch \<Longrightarrow> built (case ev of None \<Rightarrow> ch | Some e \<Rightarrow> fst (createEvent e ch))"
  by (cases ev) (simp_all add: built.event)

lemma legal_tr:
  assumes "s < length ks" "t < length ks"
  shows "legal (tr s t ev g a) ks ks"
  unfolding legal_def
proof (intro allI impI, elim conjE)
  fix ch ch' assume h: "built ch" "map st_kind (ownedStates ch) = ks" "tr s t ev g a ch = Inr ch'"
  define ch1 where "ch1 = (case ev of None \<Rightarrow> ch | Some e \<Rightarrow> fst (createEvent e ch))"
  have 1: "built ch1" unfolding ch1_def by (rule built_createEvent_option[OF h(1)])
  have 2: "ownedStates ch1 = ownedStates ch" by (simp add: ch1_def createEvent_def split: option.split)
  have ch': "ch' = fst (createTransition (Some s) (Some t) ev g a ch1)"
    using h(3) by (simp add: tr_def ch1_def)
  have "n_states ch = length ks" using h(2) by auto
  then have "built ch'"
    unfolding ch' by (intro built.transition 1) (use assms 2 in \<open>simp_all add: ptr_ok_def\<close>)
  moreover have "map st_kind (ownedStates ch') = ks"
    unfolding ch' using kinds_ext[OF shape_ext_tree[OF shape_ext_createTransition] createTransition_shape(1)]
      2 h(2) by metis
  ultimately show "built ch' \<and> map st_kind (ownedStates ch') = ks" by simp
qed

lemma legal_internal:
  assumes "s < length ks"
  shows "legal (internal s ev g a) ks ks"
  unfolding legal_def
proof (intro allI impI, elim conjE)
  fix ch ch' assume h: "built ch" "map st_kind (ownedStates ch) = ks" "internal s ev g a ch = Inr ch'"
  let ?ch1 = "fst (createEvent ev ch)"
  have ch': "ch' = fst (createInternalTransition (Some s) (Some ev) g a ?ch1)"
    using h(3) by (simp add: internal_def)
  have 1: "built ?ch1" by (rule built.event[OF h(1)])
  have 2: "ownedStates ?ch1 = ownedStates ch" by (simp add: createEvent_def)
  have "n_states ch = length ks" using h(2) by auto
  then have "built ch'"
    unfolding ch' by (intro built.internal 1) (use assms 2 in \<open>simp_all add: ptr_ok_def\<close>)
  moreover have "map st_kind (ownedStates ch') = ks"
    unfolding ch' using kinds_ext[OF shape_ext_tree[OF shape_ext_createInternalTransition]
        shape_extD(1)[OF shape_ext_createInternalTransition]] 2 h(2) by metis
  ultimately show "built ch' \<and> map st_kind (ownedStates ch') = ks" by simp
qed

lemma legal_itr: "s < length ks \<Longrightarrow> legal (itr s ev a) ks ks"
  unfolding itr_def by (rule legal_internal)

text \<open>The scripts as a whole, checked step by step.\<close>

fun legal_list :: "'e build list \<Rightarrow> kind list \<Rightarrow> bool" where
  "legal_list [] ks = True"
| "legal_list (b # bs) ks = (\<exists>ks'. legal b ks ks' \<and> legal_list bs ks')"

lemma legal_list_built:
  "built ch \<Longrightarrow> map st_kind (ownedStates ch) = ks \<Longrightarrow> legal_list bs ks \<Longrightarrow> run_build ch bs = Inr ch' \<Longrightarrow> built ch'"
  by (induction bs arbitrary: ch ks) (auto split: sum.splits dest: legalD)

lemma built_build_with:
  assumes "legal_list bs [Chart]"
  shows "built (build_with ueq nm bs)"
  using legal_list_built[OF built.new _ assms] built.new
  by (auto simp: build_with_def new_chart_def new_state_def split: sum.split)

lemma built_build: "legal_list bs [Chart] \<Longrightarrow> built (build nm bs)"
  unfolding build_def by (rule built_build_with)

lemma legal_list_step: "legal b ks ks' \<Longrightarrow> legal_list bs ks' \<Longrightarrow> legal_list (b # bs) ks"
  by auto

lemmas legal_objs =
  legal_new_obj[where c = "CState a b c" for a b c]
  legal_new_obj[where c = CFinal]
  legal_new_obj[where c = "CPseudo ty" for ty]
  legal_new_obj[where c = "CHierarchical a b c" for a b c]
  legal_new_obj[where c = "CConcurrent a b c" for a b c]

lemmas legal_rules = legal_list_step legal_objs legal_set_actions legal_history legal_tr legal_itr

lemmas script_defs = state_def pstart_def pfinal_def pjunction_def phier_def pconc_def

section \<open>The charts as records\<close>

named_theorems chart_facts \<open>the parts of the test charts\<close>

definition lit_state ::
  "kind \<Rightarrow> string \<Rightarrow> sid option \<Rightarrow> 'e action option \<Rightarrow> 'e action option \<Rightarrow> tid list \<Rightarrow>
   sid option \<Rightarrow> sid option \<Rightarrow> sid list \<Rightarrow> tid list \<Rightarrow> 'e state_obj"
where
  "lit_state k nm par en ex ts st hi rg ic =
     \<lparr>st_kind = k, st_name = nm, st_context = par, st_statechart = Some 0, entryAction = en,
      doAction = None, exitAction = ex, transitions = ts, startState = st, history = hi,
      regions = rg, incoming = ic\<rparr>"

definition lit_trans ::
  "bool \<Rightarrow> event option \<Rightarrow> 'e guard option \<Rightarrow> 'e action option \<Rightarrow> sid list \<Rightarrow> sid list \<Rightarrow> 'e trans"
where
  "lit_trans i ev g a D A =
     \<lparr>tr_internal = i, tr_event = ev, tr_guard = g, tr_action = a, tr_deactivate = D,
      tr_activate = A\<rparr>"

lemma lit_state_simps [simp]:
  "st_kind (lit_state k nm par en ex ts st hi rg ic) = k"
  "st_name (lit_state k nm par en ex ts st hi rg ic) = nm"
  "st_context (lit_state k nm par en ex ts st hi rg ic) = par"
  "st_statechart (lit_state k nm par en ex ts st hi rg ic) = Some 0"
  "entryAction (lit_state k nm par en ex ts st hi rg ic) = en"
  "doAction (lit_state k nm par en ex ts st hi rg ic) = None"
  "exitAction (lit_state k nm par en ex ts st hi rg ic) = ex"
  "transitions (lit_state k nm par en ex ts st hi rg ic) = ts"
  "startState (lit_state k nm par en ex ts st hi rg ic) = st"
  "history (lit_state k nm par en ex ts st hi rg ic) = hi"
  "regions (lit_state k nm par en ex ts st hi rg ic) = rg"
  "incoming (lit_state k nm par en ex ts st hi rg ic) = ic"
  by (simp_all add: lit_state_def)

definition lit_do :: "'e action option \<Rightarrow> 'e state_obj \<Rightarrow> 'e state_obj" where
  "lit_do d ob = ob\<lparr>doAction := d\<rparr>"

lemma lit_do_simps [simp]:
  "st_kind (lit_do d ob) = st_kind ob" "st_name (lit_do d ob) = st_name ob"
  "st_context (lit_do d ob) = st_context ob" "st_statechart (lit_do d ob) = st_statechart ob"
  "entryAction (lit_do d ob) = entryAction ob" "doAction (lit_do d ob) = d"
  "exitAction (lit_do d ob) = exitAction ob" "transitions (lit_do d ob) = transitions ob"
  "startState (lit_do d ob) = startState ob" "history (lit_do d ob) = history ob"
  "regions (lit_do d ob) = regions ob" "incoming (lit_do d ob) = incoming ob"
  by (simp_all add: lit_do_def)

lemma lit_trans_simps [simp]:
  "tr_internal (lit_trans i ev g a D A) = i"
  "tr_event (lit_trans i ev g a D A) = ev"
  "tr_guard (lit_trans i ev g a D A) = g"
  "tr_action (lit_trans i ev g a D A) = a"
  "tr_deactivate (lit_trans i ev g a D A) = D"
  "tr_activate (lit_trans i ev g a D A) = A"
  by (simp_all add: lit_trans_def)

lemmas lit_defs = lit_state_def lit_do_def lit_trans_def

lemma construct_condition_eval:
  "construct_condition nm parent guard t e ch =
     (case construct_pseudo nm parent Junction ch of
        Inl x \<Rightarrow> Inl x
      | Inr ch1 \<Rightarrow>
          (case createTransition (Some (n_states ch)) t None guard None ch1 of (ch2, _) \<Rightarrow>
           case createTransition (Some (n_states ch)) e None None None ch2 of (ch3, _) \<Rightarrow> Inr ch3))"
  by (simp add: construct_condition_def Let_def case_prod_beta split: sum.split)

lemmas build_eval = build_def build_with_def run_build.simps new_chart_def new_state_def new_obj_def create_def
  construct_hierarchical_def construct_pseudo_def construct_condition_eval push_state_def
  addRegion_def upd_obj_def tr_def itr_def internal_def rename_def createTransition_def
  createInternalTransition_def calculateStateSet_def path_to_def lca_loop_rules addTransition_def
  addIncomingTransition_def createEvent_def setEntryAction_def setExitAction_def setName_def
  with_actions_def phistory_def script_defs Let_def

lemma chart_h4_literal:
  "chart_h4 =
    \<lparr>ownedStates =
       [lit_state Chart ''h4'' None None None [] (Some 4) None [] [],
        lit_state Hierarchical ''p'' (Some 0) (Some (makeTestAction ''p'' ''A'')) (Some
          (makeTestAction ''p'' ''D'')) [1, 2] (Some 6) (Some 8) [] [],
        lit_state Simple ''a'' (Some 1) (Some (makeTestAction ''a'' ''A'')) (Some
          (makeTestAction ''a'' ''D'')) [5] None None [] [],
        lit_state Simple ''b'' (Some 1) (Some (makeTestAction ''b'' ''A'')) (Some
          (makeTestAction ''b'' ''D'')) [6, 7] None None [] [],
        lit_state (Pseudo Start) ''start'' (Some 0) (Some (makeTestAction ''start'' ''A''))
          (Some (makeTestAction ''start'' ''D'')) [0] None None [] [],
        lit_state Final ''end'' (Some 0) (Some (makeTestAction ''end'' ''A'')) (Some
          (makeTestAction ''end'' ''D'')) [] None None [] [],
        lit_state (Pseudo Start) ''start p'' (Some 1) (Some (makeTestAction ''start p'' ''A''))
          (Some (makeTestAction ''start p'' ''D'')) [3] None None [] [],
        lit_state Final ''end p'' (Some 1) (Some (makeTestAction ''end p'' ''A'')) (Some
          (makeTestAction ''end p'' ''D'')) [] None None [] [],
        lit_state (Pseudo History) ''history p'' (Some 1) None (Some (makeTestAction
          ''history p'' ''U'')) [4] None None [] []],
     ownedTransitions =
       [lit_trans False None None None [4] [1],
        lit_trans False (on 1) None None [1] [1],
        lit_trans False None None None [1] [5],
        lit_trans False None None None [6] [8],
        lit_trans False None None None [8] [2],
        lit_trans False (on 2) None None [2] [3],
        lit_trans False (on 2) None None [3] [2],
        lit_trans False (on 3) None None [3] [7]],
     ownedEvents = [TestEvent 1, TestEvent 2, TestEvent 2, TestEvent 3],
     stateNames =
       [(''p'', 1), (''a'', 2), (''b'', 3), (''start'', 4), (''end'', 5), (''start p'', 6),
        (''end p'', 7), (''history p'', 8)],
     loopThreshold = 1000, user_equals = TestEvent_equals\<rparr>"
  by (simp add: chart_h4_def build_eval lit_defs)

lemma chart_h4_facts [chart_facts]:
  "n_states chart_h4 = 9" "length (ownedTransitions chart_h4) = 8"
  "loopThreshold chart_h4 = 1000" "user_equals chart_h4 = TestEvent_equals"
  "stateNames chart_h4 = [(''p'', 1), (''a'', 2), (''b'', 3), (''start'', 4), (''end'', 5), (''start p'', 6),
    (''end p'', 7), (''history p'', 8)]"
  "ownedStates chart_h4 ! 0 = lit_state Chart ''h4'' None None None [] (Some 4) None [] []"
  "ownedStates chart_h4 ! Suc 0 = lit_state Hierarchical ''p'' (Some 0) (Some (makeTestAction ''p'' ''A'')) (Some
    (makeTestAction ''p'' ''D'')) [1, 2] (Some 6) (Some 8) [] []"
  "ownedStates chart_h4 ! 2 = lit_state Simple ''a'' (Some 1) (Some (makeTestAction ''a'' ''A'')) (Some (makeTestAction
    ''a'' ''D'')) [5] None None [] []"
  "ownedStates chart_h4 ! 3 = lit_state Simple ''b'' (Some 1) (Some (makeTestAction ''b'' ''A'')) (Some (makeTestAction
    ''b'' ''D'')) [6, 7] None None [] []"
  "ownedStates chart_h4 ! 4 = lit_state (Pseudo Start) ''start'' (Some 0) (Some (makeTestAction ''start'' ''A'')) (Some
    (makeTestAction ''start'' ''D'')) [0] None None [] []"
  "ownedStates chart_h4 ! 5 = lit_state Final ''end'' (Some 0) (Some (makeTestAction ''end'' ''A'')) (Some (makeTestAction
    ''end'' ''D'')) [] None None [] []"
  "ownedStates chart_h4 ! 6 = lit_state (Pseudo Start) ''start p'' (Some 1) (Some (makeTestAction ''start p'' ''A'')) (Some
    (makeTestAction ''start p'' ''D'')) [3] None None [] []"
  "ownedStates chart_h4 ! 7 = lit_state Final ''end p'' (Some 1) (Some (makeTestAction ''end p'' ''A'')) (Some
    (makeTestAction ''end p'' ''D'')) [] None None [] []"
  "ownedStates chart_h4 ! 8 = lit_state (Pseudo History) ''history p'' (Some 1) None (Some (makeTestAction ''history p''
    ''U'')) [4] None None [] []"
  "ownedTransitions chart_h4 ! 0 = lit_trans False None None None [4] [1]"
  "ownedTransitions chart_h4 ! Suc 0 = lit_trans False (on 1) None None [1] [1]"
  "ownedTransitions chart_h4 ! 2 = lit_trans False None None None [1] [5]"
  "ownedTransitions chart_h4 ! 3 = lit_trans False None None None [6] [8]"
  "ownedTransitions chart_h4 ! 4 = lit_trans False None None None [8] [2]"
  "ownedTransitions chart_h4 ! 5 = lit_trans False (on 2) None None [2] [3]"
  "ownedTransitions chart_h4 ! 6 = lit_trans False (on 2) None None [3] [2]"
  "ownedTransitions chart_h4 ! 7 = lit_trans False (on 3) None None [3] [7]"
  by (simp_all add: chart_h4_literal)

lemma chart_t3_literal:
  "chart_t3 =
    \<lparr>ownedStates =
       [lit_state Chart ''t3'' None None None [] (Some 3) None [] [],
        lit_state Simple ''a'' (Some 0) (Some (makeTestAction ''a'' ''A'')) (Some
          (makeTestAction ''a'' ''D'')) [1, 2] None None [] [],
        lit_state Simple ''b'' (Some 0) (Some (makeTestAction ''b'' ''A'')) (Some
          (makeTestAction ''b'' ''D'')) [3] None None [] [],
        lit_state (Pseudo Start) ''start'' (Some 0) (Some (makeTestAction ''start'' ''A''))
          (Some (makeTestAction ''start'' ''D'')) [0] None None [] [],
        lit_state Final ''end'' (Some 0) (Some (makeTestAction ''end'' ''A'')) (Some
          (makeTestAction ''end'' ''D'')) [] None None [] []],
     ownedTransitions =
       [lit_trans False None None None [3] [1],
        lit_trans False (on 1) None None [1] [2],
        lit_trans False (Some (TimeoutEvent 1000 1 1)) None None [1] [4],
        lit_trans False None None None [2] [4]],
     ownedEvents = [TestEvent 1, TimeoutEvent 1000 1 1],
     stateNames =
       [(''a'', 1), (''b'', 2), (''start'', 3), (''end'', 4)],
     loopThreshold = 1000, user_equals = TestEvent_equals\<rparr>"
  by (simp add: chart_t3_def build_eval lit_defs)

lemma chart_t3_facts [chart_facts]:
  "n_states chart_t3 = 5" "length (ownedTransitions chart_t3) = 4"
  "loopThreshold chart_t3 = 1000" "user_equals chart_t3 = TestEvent_equals"
  "stateNames chart_t3 = [(''a'', 1), (''b'', 2), (''start'', 3), (''end'', 4)]"
  "ownedStates chart_t3 ! 0 = lit_state Chart ''t3'' None None None [] (Some 3) None [] []"
  "ownedStates chart_t3 ! Suc 0 = lit_state Simple ''a'' (Some 0) (Some (makeTestAction ''a'' ''A'')) (Some (makeTestAction
    ''a'' ''D'')) [1, 2] None None [] []"
  "ownedStates chart_t3 ! 2 = lit_state Simple ''b'' (Some 0) (Some (makeTestAction ''b'' ''A'')) (Some (makeTestAction
    ''b'' ''D'')) [3] None None [] []"
  "ownedStates chart_t3 ! 3 = lit_state (Pseudo Start) ''start'' (Some 0) (Some (makeTestAction ''start'' ''A'')) (Some
    (makeTestAction ''start'' ''D'')) [0] None None [] []"
  "ownedStates chart_t3 ! 4 = lit_state Final ''end'' (Some 0) (Some (makeTestAction ''end'' ''A'')) (Some (makeTestAction
    ''end'' ''D'')) [] None None [] []"
  "ownedTransitions chart_t3 ! 0 = lit_trans False None None None [3] [1]"
  "ownedTransitions chart_t3 ! Suc 0 = lit_trans False (on 1) None None [1] [2]"
  "ownedTransitions chart_t3 ! 2 = lit_trans False (Some (TimeoutEvent 1000 1 1)) None None [1] [4]"
  "ownedTransitions chart_t3 ! 3 = lit_trans False None None None [2] [4]"
  by (simp_all add: chart_t3_literal)

text \<open>The path and the lists of a pair of states are computed with numerals.\<close>

lemma walk_up_numeral:
  "walk_up (numeral k) ch s acc =
     (case s of
        None \<Rightarrow> acc
      | Some x \<Rightarrow>
          walk_up (pred_numeral k) ch
            (case parent_of ch x of
               None \<Rightarrow> None
             | Some c \<Rightarrow> if kind_of ch c = Chart then None else Some c)
            (x # acc))"
  by (simp add: numeral_eq_Suc)

lemmas path_eval = calculateStateSet_def path_to_def walk_up_numeral lca_loop_rules Let_def

lemma built_h4: "built chart_h4"
  unfolding chart_h4_def script_defs
  by (rule built_build) (rule legal_rules | simp)+

lemma built_t3: "built chart_t3"
  unfolding chart_t3_def script_defs
  by (rule built_build) (rule legal_rules | simp)+

end
