(* ===== verification/Evaluation.thy ===== *)
theory Evaluation
  imports Test_Built Fuel
begin

text \<open>
  Evaluation of the model inside the kernel: a run of a chart is computed by rewriting, one
  statement at a time.  The charts stay opaque; what the run reads of them are the facts in
  \<open>chart_facts\<close>.
\<close>

section \<open>One statement at a time\<close>

text \<open>A sequence is computed from the front; what follows is only looked at when it is reached.\<close>

lemma mbind_eval:
  "mbind m f s = (case m s of Ret a s' \<Rightarrow> f a s' | Exn e s' \<Rightarrow> Exn e s' | NoReturn \<Rightarrow> NoReturn | Undef \<Rightarrow> Undef)"
  by (simp add: mbind_def)

lemma stop_mbind: "mbind m f = mbind m f"
  by simp

lemma stop_for_each: "xs = ys \<Longrightarrow> for_each xs b = for_each ys b"
  by simp

lemma stop_for_until: "xs = ys \<Longrightarrow> for_until xs b = for_until ys b"
  by simp

lemmas stop_congs = stop_mbind stop_for_each stop_for_until let_weak_cong

text \<open>A virtual call unfolds one level of the table.\<close>

lemma vcalls_numeral:
  "v_activate (vcalls (numeral k) ch) = call_activate ch (vcalls (pred_numeral k) ch)"
  "v_deactivate (vcalls (numeral k) ch) = call_deactivate ch (vcalls (pred_numeral k) ch)"
  "v_dispatch (vcalls (numeral k) ch) = call_dispatch ch (vcalls (pred_numeral k) ch)"
  "v_lookup (vcalls (numeral k) ch) = PseudoState_lookup ch (vcalls (pred_numeral k) ch)"
  by (simp_all add: numeral_eq_Suc vstep_def)

lemma vcalls_Suc:
  "v_activate (vcalls (Suc k) ch) = call_activate ch (vcalls k ch)"
  "v_deactivate (vcalls (Suc k) ch) = call_deactivate ch (vcalls k ch)"
  "v_dispatch (vcalls (Suc k) ch) = call_dispatch ch (vcalls k ch)"
  "v_lookup (vcalls (Suc k) ch) = PseudoState_lookup ch (vcalls k ch)"
  by (simp_all add: vstep_def)

declare vcalls.simps [simp del]

lemmas call_defs = activate_def deactivate_def dispatch_def lookup_def
  call_activate_def call_deactivate_def call_dispatch_def vcalls_numeral vcalls_Suc

lemmas method_defs =
  State_activate_def State_deactivate_def State_dispatch_def
  execute_def Transition_execute_def InternalTransition_execute_def allowed_def
  Transition_allowed_def InternalTransition_allowed_def guard_accepts_def triggered_def trigger_equals_def
  PseudoState_activate_def PseudoState_dispatch_def PseudoState_lookup_def join_ready_def
  storeHistory_def HierarchicalState_deactivate_def HierarchicalState_dispatch_def enter_start_def
  hierarchical_transition_def ConcurrentState_activate_def ConcurrentState_deactivate_def
  ConcurrentState_dispatch_def finished_def register_region_def Statechart_dispatch_def
  completion_loop.simps current_of_def

lemmas data_defs = store_defs activateData_def deactivateData_def notifyActivate_def
  notifyDeactivate_def resetData_def new_runtimedata_def

text \<open>Queueing a timer on a service whose fields are known.\<close>

lemma enqueue_eval:
  "enqueueTimeout s md ev p ms
     \<lparr>clock = c, entries = es, idCounter = i, pendingEntries = ps, timeoutQueue = q, tasks = ts,
      pool_shutdown = sd, running = True, held = hs, locals = ls, next_param = n\<rparr> =
   (let es' = es @ [\<lparr>e_state = s, e_data = md, e_event = Some ev, e_param = Some p, relativeTimeoutMs = ms,
                     e_deadline = c + ms, e_id = i, e_invalid = False\<rparr>]
    in (Some (length es),
        \<lparr>clock = c, entries = es', idCounter = i + 1, pendingEntries = ps @ [length es],
         timeoutQueue = dq_add (\<lambda>e. e_deadline (es' ! e)) (length es) q, tasks = ts,
         pool_shutdown = sd, running = True, held = hs, locals = ls, next_param = n\<rparr>))"
  by (simp add: enqueueTimeout_def new_entry_def Let_def dq_add_def deadline_def[abs_def])

lemmas timer_defs = schedule_timeout_def enqueue_eval cancelTimeout_def
  mark_invalid_def entry_alive_def deadline_def dq_add_def dq_remove_def dq_empty_def
  lower_bound.simps insert_at_def event_equals.simps

lemmas client_defs = start_def start_with_def init_data_def dispatch_event_def with_local_def
  drop_local_def restoreState_def new_rt_def new_metadata_def new_service_def
  makeTestAction_def makeTestGuard_def TestEvent_def TestEvent_equals_def

lemmas run_defs = call_defs method_defs data_defs timer_defs client_defs mbind_eval Let_def

end
