(* ===== verification/Test_Runs.thy ===== *)
theory Test_Runs
  imports Runs Evaluation
begin

text \<open>
  The test charts \<open>h4\<close> and \<open>t3\<close> meet the assumptions of theory \<open>Runs\<close>, and some of their runs
  computed in the kernel.
\<close>

section \<open>Assumptions\<close>

lemma all_less_numeral:
  "(\<forall>s < numeral k. P s) \<longleftrightarrow> P (pred_numeral k) \<and> (\<forall>s < pred_numeral k. P s)"
  by (simp add: numeral_eq_Suc All_less_Suc)

lemmas all_less = all_less_numeral All_less_Suc

lemma calm_env [simp]: "calm r (r\<lparr>rt_env := x\<rparr>)"
  by (auto simp: calm_def intro: exI[of _ "clock (rt_sv r)"])

lemma benign_makeTestAction [simp]: "benign (makeTestAction nm k)"
  by (simp add: benign_def makeTestAction_def)

lemma sequential_h4: "sequential chart_h4"
  using built_wf[OF built_h4]
  by (simp add: sequential_def benign_chart_def chart_facts all_less all_conj_distrib)

lemma regular_h4: "regular chart_h4"
  by (simp add: regular_def chart_facts all_less)

lemma ranked_h4: "ranked chart_h4 (\<lambda>s. if s = 6 then 1 else 0) 1"
  by (simp add: ranked_def chart_facts all_less)

lemma sequential_t3: "sequential chart_t3"
  using built_wf[OF built_t3]
  by (simp add: sequential_def benign_chart_def chart_facts all_less all_conj_distrib)

lemma regular_t3: "regular chart_t3"
  by (simp add: regular_def chart_facts all_less)

section \<open>Runs\<close>

definition test_rt :: "test_env rt" where
  "test_rt = new_rt \<lparr>path = [], guardvalue = 0\<rparr> 0"

lemma reachable_test: "start n ch test_rt = Ret b r \<Longrightarrow> reachable n ch r"
  unfolding test_rt_def by (rule reachable_start)

lemma start_t3:
  obtains r where "start 12 chart_t3 test_rt = Ret True r"
    "path (rt_env r) = ''D:start A:a''" "isActive r 1" "timeoutQueue (rt_sv r) = \<lparr>m_items = [0], m_stop = False\<rparr>"
    "getData r 1 = Some \<lparr>rd_addr = 2, currentTime = 0, rd_active = True, currentState = None,
      stateset = [], timeoutEvents = [0]\<rparr>"
proof -
  have "\<exists>r. start 12 chart_t3 test_rt = Ret True r \<and> path (rt_env r) = ''D:start A:a'' \<and> isActive r 1 \<and>
      timeoutQueue (rt_sv r) = \<lparr>m_items = [0], m_stop = False\<rparr> \<and>
      getData r 1 = Some \<lparr>rd_addr = 2, currentTime = 0, rd_active = True, currentState = None,
        stateset = [], timeoutEvents = [0]\<rparr>"
    by (simp add: test_rt_def run_defs chart_facts cong: stop_congs)
  then show thesis using that by blast
qed

lemma start_h4:
  obtains r where "start 24 chart_h4 test_rt = Ret True r"
    "path (rt_env r) = ''D:start A:p A:start p D:start p U:history p A:a''" "isActive r 2" "current_of r 1 = Some 2"
proof -
  have "\<exists>r. start 24 chart_h4 test_rt = Ret True r \<and>
      path (rt_env r) = ''D:start A:p A:start p D:start p U:history p A:a'' \<and> isActive r 2 \<and> current_of r 1 = Some 2"
    by (simp add: test_rt_def run_defs chart_facts cong: stop_congs)
  then show thesis using that by blast
qed

end
