(* ===== verification/Console.thy ===== *)
theory Console
  imports Test_Runs
begin

text \<open>
  What the programs under \<open>doc/examples\<close> have in common.  Each builds one chart, keeps one
  \<open>Parameter\<close> object of a class of its own, passes it to every call, and prints.  So the outside
  world is that object and the lines printed; a line is one element, without its line break, and a
  leading line break is an empty line.
\<close>

section \<open>The outside world\<close>

record 'p console =
  cout :: "string list"
  parameter :: 'p

text \<open>\<open>std::cout << ...\<close> and writes to the parameter, as statements of \<open>main\<close>\<close>

definition print_lines :: "string list \<Rightarrow> (unit, 'p console rt) prog" where
  "print_lines ls = mmod (\<lambda>r. r\<lparr>rt_env := (rt_env r)\<lparr>cout := cout (rt_env r) @ ls\<rparr>\<rparr>)"

definition print_of :: "('p \<Rightarrow> string) \<Rightarrow> (unit, 'p console rt) prog" where
  "print_of f = mmod (\<lambda>r. r\<lparr>rt_env := (rt_env r)\<lparr>cout := cout (rt_env r) @ [f (parameter (rt_env r))]\<rparr>\<rparr>)"

definition assign :: "('p \<Rightarrow> 'p) \<Rightarrow> (unit, 'p console rt) prog" where
  "assign f = mmod (\<lambda>r. r\<lparr>rt_env := (rt_env r)\<lparr>parameter := f (parameter (rt_env r))\<rparr>\<rparr>)"

text \<open>Numbers and flags as \<open>operator<<\<close> prints them\<close>

definition show_int :: "int \<Rightarrow> string" where
  "show_int i = (if i < 0 then ''-'' @ to_string (nat (- i)) else to_string (nat i))"

definition show_flag :: "bool \<Rightarrow> string" where
  "show_flag b = (if b then ''1'' else ''0'')"

text \<open>Actions and guards; the parameter they get is the program's object.\<close>

definition says :: "string \<Rightarrow> 'p console action option" where
  "says s = Some (\<lambda>p. print_lines [s])"

definition reports :: "('p \<Rightarrow> string) \<Rightarrow> 'p console action option" where
  "reports f = Some (\<lambda>p. print_of f)"

definition sets :: "('p \<Rightarrow> 'p) \<Rightarrow> 'p console action option" where
  "sets f = Some (\<lambda>p. assign f)"

definition sets_reports :: "('p \<Rightarrow> 'p) \<Rightarrow> ('p \<Rightarrow> string) \<Rightarrow> 'p console action option" where
  "sets_reports f g = Some (\<lambda>p. mbind (assign f) (\<lambda>_. print_of g))"

definition whenever :: "('p \<Rightarrow> bool) \<Rightarrow> 'p console guard option" where
  "whenever P = Some (\<lambda>p r. P (parameter (rt_env r)))"

lemma whenever_is_guard [simp]: "\<exists>g. whenever P = Some g"
  by (simp add: whenever_def)

section \<open>Building\<close>

text \<open>The programs have no event class that overrides \<open>equals\<close>.\<close>

definition no_user_event :: "nat \<Rightarrow> event option \<Rightarrow> pref \<Rightarrow> 'e rt \<Rightarrow> bool" where
  "no_user_event v ev p r = False"

abbreviation build_chart :: "string \<Rightarrow> 'p console build list \<Rightarrow> 'p console chart" where
  "build_chart \<equiv> build_with no_user_event"

abbreviation start_state :: "string \<Rightarrow> sid \<Rightarrow> 'e build" where
  "start_state nm parent \<equiv> new_obj nm parent (CPseudo pseudo_type.Start)"

abbreviation simple_state ::
  "string \<Rightarrow> sid \<Rightarrow> 'e action option \<Rightarrow> 'e action option \<Rightarrow> 'e action option \<Rightarrow> 'e build"
where
  "simple_state nm parent en d ex \<equiv> new_obj nm parent (CState en d ex)"

abbreviation hierarchical_state ::
  "string \<Rightarrow> sid \<Rightarrow> 'e action option \<Rightarrow> 'e action option \<Rightarrow> 'e action option \<Rightarrow> 'e build"
where
  "hierarchical_state nm parent en d ex \<equiv> new_obj nm parent (CHierarchical en d ex)"

abbreviation concurrent_state ::
  "string \<Rightarrow> sid \<Rightarrow> 'e action option \<Rightarrow> 'e action option \<Rightarrow> 'e action option \<Rightarrow> 'e build"
where
  "concurrent_state nm parent en d ex \<equiv> new_obj nm parent (CConcurrent en d ex)"

definition threshold :: "nat \<Rightarrow> 'e build" where
  "threshold k ch = Inr (setInfiniteLoopThreshold k ch)"

section \<open>Running\<close>

text \<open>\<open>chart->start(data, parameter)\<close> and \<open>chart->dispatch(data, &event, parameter)\<close>, the result unused\<close>

definition launch :: "nat \<Rightarrow> 'e chart \<Rightarrow> (unit, 'e rt) prog" where
  "launch n ch = mbind (start_with n ch (CallerParam 0)) (\<lambda>_. mret ())"

definition send :: "nat \<Rightarrow> 'e chart \<Rightarrow> event option \<Rightarrow> (unit, 'e rt) prog" where
  "send n ch ev = mbind (dispatch n ch 0 ev (CallerParam 0)) (\<lambda>_. mret ())"

text \<open>A second \<open>Metadata\<close> object takes the place of the first.\<close>

definition new_data :: "nat \<Rightarrow> (unit, 'e rt) prog" where
  "new_data i = mmod (\<lambda>r. r\<lparr>rt_md := new_metadata i\<rparr>)"

text \<open>\<open>std::this_thread::sleep_for\<close>, with nothing happening meanwhile\<close>

definition sleep_for :: "int \<Rightarrow> (unit, 'e rt) prog" where
  "sleep_for ms = mmod (upd_sv (\<lambda>sv. sv\<lparr>clock := clock sv + ms\<rparr>))"

definition statements :: "(unit, 's) prog list \<Rightarrow> (unit, 's) prog" where
  "statements ms = for_each ms (\<lambda>m. m)"

text \<open>\<open>try { ... } catch\<close>\<close>

definition try_catch :: "('a, 's) prog \<Rightarrow> (exn \<Rightarrow> ('a, 's) prog) \<Rightarrow> ('a, 's) prog" where
  "try_catch m h s = (case m s of Exn e s' \<Rightarrow> h e s' | out \<Rightarrow> out)"

definition console_rt :: "'p \<Rightarrow> 'p console rt" where
  "console_rt x = new_rt \<lparr>cout = [], parameter = x\<rparr> 0"

text \<open>The lines a program printed.\<close>

definition prints :: "(unit, 'p console rt) prog \<Rightarrow> 'p \<Rightarrow> string list \<Rightarrow> bool" where
  "prints m x ls \<longleftrightarrow> (case m (console_rt x) of Ret _ r \<Rightarrow> cout (rt_env r) = ls | _ \<Rightarrow> False)"

section \<open>Evaluation\<close>

lemma benign_console [simp]:
  "benign (\<lambda>p. print_lines ls)" "benign (\<lambda>p. print_of f)" "benign (\<lambda>p. assign g)"
  "benign (\<lambda>p. mbind (assign g) (\<lambda>_. print_of f))"
  by (simp_all add: benign_def print_lines_def print_of_def assign_def mbind_def)

lemma legal_threshold: "legal (threshold k) ks ks"
  unfolding legal_def threshold_def
  by (auto intro: built.threshold) (simp add: setInfiniteLoopThreshold_def)

lemmas console_build = threshold_def setInfiniteLoopThreshold_def

lemma char_of_digit:
  "char_of (48 :: nat) = CHR ''0''" "char_of (49 :: nat) = CHR ''1''" "char_of (50 :: nat) = CHR ''2''"
  "char_of (51 :: nat) = CHR ''3''" "char_of (52 :: nat) = CHR ''4''" "char_of (53 :: nat) = CHR ''5''"
  "char_of (54 :: nat) = CHR ''6''" "char_of (55 :: nat) = CHR ''7''" "char_of (56 :: nat) = CHR ''8''"
  "char_of (57 :: nat) = CHR ''9''"
  by code_simp+

lemmas number_defs = show_int_def show_flag_def to_string.simps char_of_digit

lemmas console_defs = base_equals_def event_id.simps number_defs prints_def console_rt_def statements_def launch_def send_def new_data_def sleep_for_def
  try_catch_def print_lines_def print_of_def assign_def says_def reports_def sets_def sets_reports_def whenever_def
  no_user_event_def

end
