(* ===== verification/Example_Flat.thy ===== *)
theory Example_Flat
  imports Console
begin

text \<open>
  The programs of \<open>doc/examples\<close> whose states are not nested: the classes they declare, the chart
  each \<open>main\<close> builds, and the calls it makes.  States are numbered in the order of their creation,
  from 1.
\<close>

section \<open>InfiniteLoop\<close>

definition infinite_loop :: "unit console chart" where
  "infinite_loop = build_chart ''InfiniteLoop''
    [threshold 10,
     start_state ''start'' 0,
     simple_state ''State1'' 0 (says ''[State1]'') None None,
     simple_state ''State2'' 0 (says ''[State2]'') None None,
     simple_state ''State3'' 0 (says ''[State3]'') None None,
     tr 1 2 None None None,
     tr 2 3 None None None,
     tr 3 4 None None None,
     tr 4 2 None None None]"

definition infinite_loop_main :: "nat \<Rightarrow> (unit, unit console rt) prog" where
  "infinite_loop_main n = statements
    [print_lines [''=== Infinite-loop detection demo ===''],
     print_lines [''Threshold = '' @ to_string (loopThreshold infinite_loop) @
       '' trigger-less transitions per dispatch.'', ''''],
     try_catch
       (statements [launch n infinite_loop, print_lines [''ERROR: dispatch should have thrown!'']])
       (\<lambda>e. case e of
          InfiniteLoopException s \<Rightarrow> print_lines ['''', ''[OK] InfiniteLoopException caught:'', ''  '' @ s]
        | StatechartException s \<Rightarrow> print_lines ['''', ''[KO] Wrong exception caught:'', ''  '' @ s]
        | _ \<Rightarrow> mthrow e)]"

section \<open>SimpleFSM\<close>

record fsm_parameter =
  guard1 :: bool
  guard3 :: bool

definition simple_fsm :: "fsm_parameter console chart" where
  "simple_fsm = build_chart ''SimpleFSM''
    [start_state ''start'' 0,
     new_obj ''final'' 0 CFinal,
     simple_state ''State1'' 0 (says ''  [ACTION action7]'') None (says ''  [ACTION action8]''),
     simple_state ''State2'' 0 (says ''  [ACTION action9]'') None (says ''  [ACTION action10]''),
     tr 1 3 None None None,
     tr 3 4 (Some (Event ''event1'')) (whenever guard1) (says ''  [ACTION action1]''),
     tr 4 3 (Some (Event ''event2'')) None None,
     tr 4 2 (Some (Event ''event6'')) None None,
     internal 3 (Event ''event3'') (whenever guard3) (says ''  [ACTION action3]''),
     internal 4 (Event ''event5'') None (says ''  [ACTION action5]'')]"

definition simple_fsm_main :: "nat \<Rightarrow> (unit, fsm_parameter console rt) prog" where
  "simple_fsm_main n = statements
    [print_lines [''=== SimpleFSM cheat-sheet ===''],
     launch n simple_fsm,
     print_lines ['''', ''>> event3 (internal transition on State1)''],
     send n simple_fsm (Some (Event ''event3'')),
     print_lines ['''', ''>> event1 (State1 -> State2)''],
     send n simple_fsm (Some (Event ''event1'')),
     print_lines ['''', ''>> event5 (internal transition on State2)''],
     send n simple_fsm (Some (Event ''event5'')),
     print_lines ['''', ''>> event2 (State2 -> State1)''],
     send n simple_fsm (Some (Event ''event2'')),
     print_lines ['''', ''>> event1 then event6 to terminate''],
     send n simple_fsm (Some (Event ''event1'')),
     send n simple_fsm (Some (Event ''event6''))]"

section \<open>Gumball\<close>

record gumball_parameter =
  gumballs :: int

definition decrementGumballs :: "gumball_parameter console action option" where
  "decrementGumballs = sets_reports (\<lambda>p. p\<lparr>gumballs := gumballs p - 1\<rparr>)
     (\<lambda>p. ''  -> Remaining gumballs: '' @ show_int (gumballs p))"

definition hasGumballs :: "gumball_parameter console guard option" where
  "hasGumballs = whenever (\<lambda>p. gumballs p > 0)"

definition gumball :: "gumball_parameter console chart" where
  "gumball = build_chart ''Gumball''
    [start_state ''start'' 0,
     simple_state ''NoQuarter'' 0 (says ''[NoQuarter] Waiting for a coin...'') None None,
     simple_state ''HasQuarter'' 0 (says ''[HasQuarter] Waiting for the crank...'') None None,
     simple_state ''GumballSold'' 0 (says ''[GumballSold] A gumball is rolling...'') None None,
     simple_state ''OutOfGumballs'' 0 (says ''[OutOfGumballs] Sorry, no more gumballs.'') None None,
     new_obj ''initJunction'' 0 (CCondition hasGumballs (Some 2) (Some 5)),
     new_obj ''soldJunction'' 0 (CCondition hasGumballs (Some 2) (Some 5)),
     tr 1 6 None None None,
     tr 2 3 (Some (Event ''insertQuarter'')) None None,
     tr 3 2 (Some (Event ''ejectQuarter'')) None None,
     tr 3 4 (Some (Event ''turnCrank'')) None decrementGumballs,
     tr 4 7 None None None]"

definition gumball_main :: "nat \<Rightarrow> (unit, gumball_parameter console rt) prog" where
  "gumball_main n = statements
    [assign (\<lambda>p. p\<lparr>gumballs := 3\<rparr>),
     print_of (\<lambda>p. ''=== Gumball distributor (initial: '' @ show_int (gumballs p) @ '' gumballs) ===''),
     launch n gumball,
     print_lines ['''', ''>> Buy gumball #1''],
     send n gumball (Some (Event ''insertQuarter'')),
     send n gumball (Some (Event ''turnCrank'')),
     print_lines ['''', ''>> Buy gumball #2''],
     send n gumball (Some (Event ''insertQuarter'')),
     send n gumball (Some (Event ''turnCrank'')),
     print_lines ['''', ''>> Eject quarter test''],
     send n gumball (Some (Event ''insertQuarter'')),
     send n gumball (Some (Event ''ejectQuarter'')),
     print_lines ['''', ''>> Buy gumball #3 (last one)''],
     send n gumball (Some (Event ''insertQuarter'')),
     send n gumball (Some (Event ''turnCrank''))]"

section \<open>RichMan\<close>

record richman_parameter =
  quarters :: int

definition incrementQuarters :: "richman_parameter console action option" where
  "incrementQuarters = sets_reports (\<lambda>p. p\<lparr>quarters := quarters p + 1\<rparr>)
     (\<lambda>p. ''  Quarters: '' @ show_int (quarters p))"

definition resetQuarters :: "richman_parameter console action option" where
  "resetQuarters = sets (\<lambda>p. p\<lparr>quarters := 0\<rparr>)"

definition quartersLessThan :: "int \<Rightarrow> richman_parameter console guard option" where
  "quartersLessThan v = whenever (\<lambda>p. quarters p < v)"

definition quartersEqualsTo :: "int \<Rightarrow> richman_parameter console guard option" where
  "quartersEqualsTo v = whenever (\<lambda>p. quarters p = v)"

definition quartersGreaterThan :: "int \<Rightarrow> richman_parameter console guard option" where
  "quartersGreaterThan v = whenever (\<lambda>p. quarters p > v)"

definition count_line :: "richman_parameter \<Rightarrow> string" where
  "count_line p = ''[CountQuarter] Counting (current: '' @ show_int (quarters p) @ '')''"

definition richman :: "richman_parameter console chart" where
  "richman = build_chart ''RichMan''
    [start_state ''start'' 0,
     simple_state ''FindQuarter'' 0 (says ''[FindQuarter] Looking for coins on the ground...'') None None,
     simple_state ''CountQuarter'' 0
       (reports count_line) None None,
     simple_state ''Yeah'' 0 (says ''[Yeah] Yes! My first coin found!'') None None,
     tr 1 2 None None resetQuarters,
     tr 2 3 (Some (Event ''getQuarter'')) (quartersLessThan 10) incrementQuarters,
     tr 3 4 None (quartersEqualsTo 1) None,
     tr 3 2 None (quartersGreaterThan 1) None,
     tr 4 2 None None None]"

definition richman_main :: "nat \<Rightarrow> (unit, richman_parameter console rt) prog" where
  "richman_main n = statements
    [print_lines [''=== A punk gets rich, one quarter at a time ==='' ],
     launch n richman,
     for_each [0..<12] (\<lambda>i. statements
       [print_lines ['''', ''>> Get quarter (attempt '' @ to_string (i + 1) @ '')''],
        send n richman (Some (Event ''getQuarter''))])]"

section \<open>Triggers\<close>

record trigger_parameter =
  trigger_x :: int

definition xEqualsTo :: "int \<Rightarrow> trigger_parameter console guard option" where
  "xEqualsTo v = whenever (\<lambda>p. trigger_x p = v)"

definition xGreaterThan :: "int \<Rightarrow> trigger_parameter console guard option" where
  "xGreaterThan v = whenever (\<lambda>p. trigger_x p > v)"

definition x_line :: "trigger_parameter \<Rightarrow> string" where
  "x_line p = ''[A] x = '' @ show_int (trigger_x p)"

definition triggers :: "trigger_parameter console chart" where
  "triggers = build_chart ''Triggers''
    [start_state ''start'' 0,
     simple_state ''A'' 0 (reports x_line) None None,
     simple_state ''B'' 0 (says ''[B]'') None None,
     simple_state ''C'' 0 (says ''[C]'') None None,
     simple_state ''D'' 0 (says ''[D]'') None None,
     tr 1 2 None None None,
     tr 2 3 (Some (Event ''e'')) (xEqualsTo 10) None,
     tr 2 4 (Some (Event ''e'')) None None,
     tr 2 5 None (xGreaterThan 10) None]"

definition triggers_main :: "nat \<Rightarrow> (unit, trigger_parameter console rt) prog" where
  "triggers_main n = statements
    [print_lines [''=== Scenario 1: x=0, dispatch e -> C ===''],
     assign (\<lambda>p. p\<lparr>trigger_x := 0\<rparr>),
     launch n triggers,
     send n triggers (Some (Event ''e'')),
     print_lines ['''', ''=== Scenario 2: x=10, dispatch e -> B ===''],
     new_data 1,
     assign (\<lambda>p. p\<lparr>trigger_x := 10\<rparr>),
     launch n triggers,
     send n triggers (Some (Event ''e'')),
     print_lines ['''', ''=== Scenario 3: x=20, trigger-less transition fires -> D ===''],
     new_data 2,
     assign (\<lambda>p. p\<lparr>trigger_x := 20\<rparr>),
     launch n triggers]"

section \<open>The charts as records\<close>

text \<open>Guards are there.\<close>

lemma flat_guards [simp]:
  "\<exists>g. hasGumballs = Some g" "\<exists>g. quartersLessThan v = Some g" "\<exists>g. quartersEqualsTo v = Some g"
  "\<exists>g. quartersGreaterThan v = Some g" "\<exists>g. xEqualsTo v = Some g" "\<exists>g. xGreaterThan v = Some g"
  by (simp_all add: hasGumballs_def quartersLessThan_def quartersEqualsTo_def quartersGreaterThan_def
      xEqualsTo_def xGreaterThan_def)

lemma infinite_loop_literal:
  "infinite_loop =
    \<lparr>ownedStates =
       [lit_state Chart ''InfiniteLoop'' None None None [] (Some 1) None [] [],
        lit_state (Pseudo Start) ''start'' (Some 0) None None [0] None None [] [],
        lit_state Simple ''State1'' (Some 0) (says ''[State1]'') None [1] None None [] [],
        lit_state Simple ''State2'' (Some 0) (says ''[State2]'') None [2] None None [] [],
        lit_state Simple ''State3'' (Some 0) (says ''[State3]'') None [3] None None [] []],
     ownedTransitions =
       [lit_trans False None None None [1] [2],
        lit_trans False None None None [2] [3],
        lit_trans False None None None [3] [4],
        lit_trans False None None None [4] [2]],
     ownedEvents = [],
     stateNames =
       [(''start'', 1), (''State1'', 2), (''State2'', 3), (''State3'', 4)],
     loopThreshold = 10, user_equals = no_user_event\<rparr>"
  by (simp add: infinite_loop_def build_eval console_build lit_defs cong: let_weak_cong)

lemma infinite_loop_facts [chart_facts]:
  "n_states infinite_loop = 5" "length (ownedTransitions infinite_loop) = 4"
  "loopThreshold infinite_loop = 10" "user_equals infinite_loop = no_user_event"
  "ownedStates infinite_loop ! 0 = lit_state Chart ''InfiniteLoop'' None None None [] (Some 1) None [] []"
  "ownedStates infinite_loop ! Suc 0 = lit_state (Pseudo Start) ''start'' (Some 0) None None [0] None None [] []"
  "ownedStates infinite_loop ! 2 = lit_state Simple ''State1'' (Some 0) (says ''[State1]'') None [1] None None [] []"
  "ownedStates infinite_loop ! 3 = lit_state Simple ''State2'' (Some 0) (says ''[State2]'') None [2] None None [] []"
  "ownedStates infinite_loop ! 4 = lit_state Simple ''State3'' (Some 0) (says ''[State3]'') None [3] None None [] []"
  "ownedTransitions infinite_loop ! 0 = lit_trans False None None None [1] [2]"
  "ownedTransitions infinite_loop ! Suc 0 = lit_trans False None None None [2] [3]"
  "ownedTransitions infinite_loop ! 2 = lit_trans False None None None [3] [4]"
  "ownedTransitions infinite_loop ! 3 = lit_trans False None None None [4] [2]"
  by (simp_all add: infinite_loop_literal)

lemma simple_fsm_literal:
  "simple_fsm =
    \<lparr>ownedStates =
       [lit_state Chart ''SimpleFSM'' None None None [] (Some 1) None [] [],
        lit_state (Pseudo Start) ''start'' (Some 0) None None [0] None None [] [],
        lit_state Final ''final'' (Some 0) None None [] None None [] [],
        lit_state Simple ''State1'' (Some 0) (says ''  [ACTION action7]'') (says
          ''  [ACTION action8]'') [4, 1] None None [] [],
        lit_state Simple ''State2'' (Some 0) (says ''  [ACTION action9]'') (says
          ''  [ACTION action10]'') [2, 3, 5] None None [] []],
     ownedTransitions =
       [lit_trans False None None None [1] [3],
        lit_trans False (Some (Event ''event1'')) (whenever guard1) (says
          ''  [ACTION action1]'') [3] [4],
        lit_trans False (Some (Event ''event2'')) None None [4] [3],
        lit_trans False (Some (Event ''event6'')) None None [4] [2],
        lit_trans True (Some (Event ''event3'')) (whenever guard3) (says ''  [ACTION action3]'')
          [] [],
        lit_trans True (Some (Event ''event5'')) None (says ''  [ACTION action5]'') [] []],
     ownedEvents = [Event ''event1'', Event ''event2'', Event ''event6'', Event ''event3'', Event ''event5''],
     stateNames =
       [(''start'', 1), (''final'', 2), (''State1'', 3), (''State2'', 4)],
     loopThreshold = 1000, user_equals = no_user_event\<rparr>"
  by (simp add: simple_fsm_def build_eval console_build lit_defs cong: let_weak_cong)

lemma simple_fsm_facts [chart_facts]:
  "n_states simple_fsm = 5" "length (ownedTransitions simple_fsm) = 6"
  "loopThreshold simple_fsm = 1000" "user_equals simple_fsm = no_user_event"
  "ownedStates simple_fsm ! 0 = lit_state Chart ''SimpleFSM'' None None None [] (Some 1) None [] []"
  "ownedStates simple_fsm ! Suc 0 = lit_state (Pseudo Start) ''start'' (Some 0) None None [0] None None [] []"
  "ownedStates simple_fsm ! 2 = lit_state Final ''final'' (Some 0) None None [] None None [] []"
  "ownedStates simple_fsm ! 3 = lit_state Simple ''State1'' (Some 0) (says ''  [ACTION action7]'') (says
    ''  [ACTION action8]'') [4, 1] None None [] []"
  "ownedStates simple_fsm ! 4 = lit_state Simple ''State2'' (Some 0) (says ''  [ACTION action9]'') (says
    ''  [ACTION action10]'') [2, 3, 5] None None [] []"
  "ownedTransitions simple_fsm ! 0 = lit_trans False None None None [1] [3]"
  "ownedTransitions simple_fsm ! Suc 0 = lit_trans False (Some (Event ''event1'')) (whenever guard1) (says ''  [ACTION action1]'') [3]
    [4]"
  "ownedTransitions simple_fsm ! 2 = lit_trans False (Some (Event ''event2'')) None None [4] [3]"
  "ownedTransitions simple_fsm ! 3 = lit_trans False (Some (Event ''event6'')) None None [4] [2]"
  "ownedTransitions simple_fsm ! 4 = lit_trans True (Some (Event ''event3'')) (whenever guard3) (says ''  [ACTION action3]'') [] []"
  "ownedTransitions simple_fsm ! 5 = lit_trans True (Some (Event ''event5'')) None (says ''  [ACTION action5]'') [] []"
  by (simp_all add: simple_fsm_literal)

lemma gumball_literal:
  "gumball =
    \<lparr>ownedStates =
       [lit_state Chart ''Gumball'' None None None [] (Some 1) None [] [],
        lit_state (Pseudo Start) ''start'' (Some 0) None None [4] None None [] [],
        lit_state Simple ''NoQuarter'' (Some 0) (says ''[NoQuarter] Waiting for a coin...'')
          None [5] None None [] [],
        lit_state Simple ''HasQuarter'' (Some 0) (says
          ''[HasQuarter] Waiting for the crank...'') None [6, 7] None None [] [],
        lit_state Simple ''GumballSold'' (Some 0) (says
          ''[GumballSold] A gumball is rolling...'') None [8] None None [] [],
        lit_state Simple ''OutOfGumballs'' (Some 0) (says
          ''[OutOfGumballs] Sorry, no more gumballs.'') None [] None None [] [],
        lit_state (Pseudo Junction) ''initJunction'' (Some 0) None None [0, 1] None None [] [],
        lit_state (Pseudo Junction) ''soldJunction'' (Some 0) None None [2, 3] None None [] []],
     ownedTransitions =
       [lit_trans False None hasGumballs None [6] [2],
        lit_trans False None None None [6] [5],
        lit_trans False None hasGumballs None [7] [2],
        lit_trans False None None None [7] [5],
        lit_trans False None None None [1] [6],
        lit_trans False (Some (Event ''insertQuarter'')) None None [2] [3],
        lit_trans False (Some (Event ''ejectQuarter'')) None None [3] [2],
        lit_trans False (Some (Event ''turnCrank'')) None decrementGumballs [3] [4],
        lit_trans False None None None [4] [7]],
     ownedEvents = [Event ''insertQuarter'', Event ''ejectQuarter'', Event ''turnCrank''],
     stateNames =
       [(''start'', 1), (''NoQuarter'', 2), (''HasQuarter'', 3), (''GumballSold'', 4),
        (''OutOfGumballs'', 5), (''initJunction'', 6), (''soldJunction'', 7)],
     loopThreshold = 1000, user_equals = no_user_event\<rparr>"
  by (simp add: gumball_def build_eval console_build lit_defs cong: let_weak_cong)

lemma gumball_facts [chart_facts]:
  "n_states gumball = 8" "length (ownedTransitions gumball) = 9"
  "loopThreshold gumball = 1000" "user_equals gumball = no_user_event"
  "ownedStates gumball ! 0 = lit_state Chart ''Gumball'' None None None [] (Some 1) None [] []"
  "ownedStates gumball ! Suc 0 = lit_state (Pseudo Start) ''start'' (Some 0) None None [4] None None [] []"
  "ownedStates gumball ! 2 = lit_state Simple ''NoQuarter'' (Some 0) (says ''[NoQuarter] Waiting for a coin...'') None [5]
    None None [] []"
  "ownedStates gumball ! 3 = lit_state Simple ''HasQuarter'' (Some 0) (says ''[HasQuarter] Waiting for the crank...'') None
    [6, 7] None None [] []"
  "ownedStates gumball ! 4 = lit_state Simple ''GumballSold'' (Some 0) (says ''[GumballSold] A gumball is rolling...'')
    None [8] None None [] []"
  "ownedStates gumball ! 5 = lit_state Simple ''OutOfGumballs'' (Some 0) (says
    ''[OutOfGumballs] Sorry, no more gumballs.'') None [] None None [] []"
  "ownedStates gumball ! 6 = lit_state (Pseudo Junction) ''initJunction'' (Some 0) None None [0, 1] None None [] []"
  "ownedStates gumball ! 7 = lit_state (Pseudo Junction) ''soldJunction'' (Some 0) None None [2, 3] None None [] []"
  "ownedTransitions gumball ! 0 = lit_trans False None hasGumballs None [6] [2]"
  "ownedTransitions gumball ! Suc 0 = lit_trans False None None None [6] [5]"
  "ownedTransitions gumball ! 2 = lit_trans False None hasGumballs None [7] [2]"
  "ownedTransitions gumball ! 3 = lit_trans False None None None [7] [5]"
  "ownedTransitions gumball ! 4 = lit_trans False None None None [1] [6]"
  "ownedTransitions gumball ! 5 = lit_trans False (Some (Event ''insertQuarter'')) None None [2] [3]"
  "ownedTransitions gumball ! 6 = lit_trans False (Some (Event ''ejectQuarter'')) None None [3] [2]"
  "ownedTransitions gumball ! 7 = lit_trans False (Some (Event ''turnCrank'')) None decrementGumballs [3] [4]"
  "ownedTransitions gumball ! 8 = lit_trans False None None None [4] [7]"
  by (simp_all add: gumball_literal)

lemma richman_literal:
  "richman =
    \<lparr>ownedStates =
       [lit_state Chart ''RichMan'' None None None [] (Some 1) None [] [],
        lit_state (Pseudo Start) ''start'' (Some 0) None None [0] None None [] [],
        lit_state Simple ''FindQuarter'' (Some 0) (says
          ''[FindQuarter] Looking for coins on the ground...'') None [1] None None [] [],
        lit_state Simple ''CountQuarter'' (Some 0) (reports count_line) None [3, 2]
          None None [] [],
        lit_state Simple ''Yeah'' (Some 0) (says ''[Yeah] Yes! My first coin found!'') None [4]
          None None [] []],
     ownedTransitions =
       [lit_trans False None None resetQuarters [1] [2],
        lit_trans False (Some (Event ''getQuarter'')) (quartersLessThan 10) incrementQuarters
          [2] [3],
        lit_trans False None (quartersEqualsTo 1) None [3] [4],
        lit_trans False None (quartersGreaterThan 1) None [3] [2],
        lit_trans False None None None [4] [2]],
     ownedEvents = [Event ''getQuarter''],
     stateNames =
       [(''start'', 1), (''FindQuarter'', 2), (''CountQuarter'', 3), (''Yeah'', 4)],
     loopThreshold = 1000, user_equals = no_user_event\<rparr>"
  by (simp add: richman_def build_eval console_build lit_defs cong: let_weak_cong)

lemma richman_facts [chart_facts]:
  "n_states richman = 5" "length (ownedTransitions richman) = 5"
  "loopThreshold richman = 1000" "user_equals richman = no_user_event"
  "ownedStates richman ! 0 = lit_state Chart ''RichMan'' None None None [] (Some 1) None [] []"
  "ownedStates richman ! Suc 0 = lit_state (Pseudo Start) ''start'' (Some 0) None None [0] None None [] []"
  "ownedStates richman ! 2 = lit_state Simple ''FindQuarter'' (Some 0) (says
    ''[FindQuarter] Looking for coins on the ground...'') None [1] None None [] []"
  "ownedStates richman ! 3 = lit_state Simple ''CountQuarter'' (Some 0) (reports count_line) None [3, 2] None None [] []"
  "ownedStates richman ! 4 = lit_state Simple ''Yeah'' (Some 0) (says ''[Yeah] Yes! My first coin found!'') None [4] None
    None [] []"
  "ownedTransitions richman ! 0 = lit_trans False None None resetQuarters [1] [2]"
  "ownedTransitions richman ! Suc 0 = lit_trans False (Some (Event ''getQuarter'')) (quartersLessThan 10) incrementQuarters [2] [3]"
  "ownedTransitions richman ! 2 = lit_trans False None (quartersEqualsTo 1) None [3] [4]"
  "ownedTransitions richman ! 3 = lit_trans False None (quartersGreaterThan 1) None [3] [2]"
  "ownedTransitions richman ! 4 = lit_trans False None None None [4] [2]"
  by (simp_all add: richman_literal)

lemma triggers_literal:
  "triggers =
    \<lparr>ownedStates =
       [lit_state Chart ''Triggers'' None None None [] (Some 1) None [] [],
        lit_state (Pseudo Start) ''start'' (Some 0) None None [0] None None [] [],
        lit_state Simple ''A'' (Some 0) (reports x_line)
          None [3, 1, 2] None None [] [],
        lit_state Simple ''B'' (Some 0) (says ''[B]'') None [] None None [] [],
        lit_state Simple ''C'' (Some 0) (says ''[C]'') None [] None None [] [],
        lit_state Simple ''D'' (Some 0) (says ''[D]'') None [] None None [] []],
     ownedTransitions =
       [lit_trans False None None None [1] [2],
        lit_trans False (Some (Event ''e'')) (xEqualsTo 10) None [2] [3],
        lit_trans False (Some (Event ''e'')) None None [2] [4],
        lit_trans False None (xGreaterThan 10) None [2] [5]],
     ownedEvents = [Event ''e'', Event ''e''],
     stateNames =
       [(''start'', 1), (''A'', 2), (''B'', 3), (''C'', 4), (''D'', 5)],
     loopThreshold = 1000, user_equals = no_user_event\<rparr>"
  by (simp add: triggers_def build_eval console_build lit_defs cong: let_weak_cong)

lemma triggers_facts [chart_facts]:
  "n_states triggers = 6" "length (ownedTransitions triggers) = 4"
  "loopThreshold triggers = 1000" "user_equals triggers = no_user_event"
  "ownedStates triggers ! 0 = lit_state Chart ''Triggers'' None None None [] (Some 1) None [] []"
  "ownedStates triggers ! Suc 0 = lit_state (Pseudo Start) ''start'' (Some 0) None None [0] None None [] []"
  "ownedStates triggers ! 2 = lit_state Simple ''A'' (Some 0) (reports x_line) None [3, 1,
    2] None None [] []"
  "ownedStates triggers ! 3 = lit_state Simple ''B'' (Some 0) (says ''[B]'') None [] None None [] []"
  "ownedStates triggers ! 4 = lit_state Simple ''C'' (Some 0) (says ''[C]'') None [] None None [] []"
  "ownedStates triggers ! 5 = lit_state Simple ''D'' (Some 0) (says ''[D]'') None [] None None [] []"
  "ownedTransitions triggers ! 0 = lit_trans False None None None [1] [2]"
  "ownedTransitions triggers ! Suc 0 = lit_trans False (Some (Event ''e'')) (xEqualsTo 10) None [2] [3]"
  "ownedTransitions triggers ! 2 = lit_trans False (Some (Event ''e'')) None None [2] [4]"
  "ownedTransitions triggers ! 3 = lit_trans False None (xGreaterThan 10) None [2] [5]"
  by (simp_all add: triggers_literal)

section \<open>What they print\<close>

lemma infinite_loop_prints:
  "prints (infinite_loop_main 12) ()
    [''=== Infinite-loop detection demo ==='', ''Threshold = 10 trigger-less transitions per dispatch.'', '''',
     ''[State1]'', ''[State2]'', ''[State3]'', ''[State1]'', ''[State2]'', ''[State3]'', ''[State1]'',
     ''[State2]'', ''[State3]'', ''[State1]'', ''[State2]'', '''',
     ''[OK] InfiniteLoopException caught:'', ''  '' @ infinite_loop_text infinite_loop 0]"
  by (simp add: infinite_loop_main_def console_defs run_defs chart_facts cong: stop_congs)

lemma simple_fsm_prints:
  "prints (simple_fsm_main 12) \<lparr>guard1 = True, guard3 = True\<rparr>
    [''=== SimpleFSM cheat-sheet ==='', ''  [ACTION action7]'', '''',
     ''>> event3 (internal transition on State1)'', ''  [ACTION action3]'', '''',
     ''>> event1 (State1 -> State2)'', ''  [ACTION action8]'', ''  [ACTION action1]'', ''  [ACTION action9]'', '''',
     ''>> event5 (internal transition on State2)'', ''  [ACTION action5]'', '''',
     ''>> event2 (State2 -> State1)'', ''  [ACTION action10]'', ''  [ACTION action7]'', '''',
     ''>> event1 then event6 to terminate'', ''  [ACTION action8]'', ''  [ACTION action1]'',
     ''  [ACTION action9]'', ''  [ACTION action10]'']"
  by (simp add: simple_fsm_main_def console_defs run_defs chart_facts cong: stop_congs)

lemma gumball_prints:
  "prints (gumball_main 12) \<lparr>gumballs = 0\<rparr>
    [''=== Gumball distributor (initial: 3 gumballs) ==='', ''[NoQuarter] Waiting for a coin...'', '''',
     ''>> Buy gumball #1'', ''[HasQuarter] Waiting for the crank...'', ''  -> Remaining gumballs: 2'',
     ''[GumballSold] A gumball is rolling...'', ''[NoQuarter] Waiting for a coin...'', '''',
     ''>> Buy gumball #2'', ''[HasQuarter] Waiting for the crank...'', ''  -> Remaining gumballs: 1'',
     ''[GumballSold] A gumball is rolling...'', ''[NoQuarter] Waiting for a coin...'', '''',
     ''>> Eject quarter test'', ''[HasQuarter] Waiting for the crank...'', ''[NoQuarter] Waiting for a coin...'', '''',
     ''>> Buy gumball #3 (last one)'', ''[HasQuarter] Waiting for the crank...'', ''  -> Remaining gumballs: 0'',
     ''[GumballSold] A gumball is rolling...'', ''[OutOfGumballs] Sorry, no more gumballs.'']"
  by (simp add: gumball_main_def console_defs run_defs chart_facts decrementGumballs_def hasGumballs_def
      cong: stop_congs)

lemma triggers_prints:
  "prints (triggers_main 12) \<lparr>trigger_x = 0\<rparr>
    [''=== Scenario 1: x=0, dispatch e -> C ==='', ''[A] x = 0'', ''[C]'', '''',
     ''=== Scenario 2: x=10, dispatch e -> B ==='', ''[A] x = 10'', ''[B]'', '''',
     ''=== Scenario 3: x=20, trigger-less transition fires -> D ==='', ''[A] x = 20'', ''[D]'']"
  by (simp add: triggers_main_def console_defs run_defs chart_facts xEqualsTo_def xGreaterThan_def x_line_def
      cong: stop_congs)

end
