(* ===== verification/Example_Devices.thy ===== *)
theory Example_Devices
  imports Console
begin

text \<open>
  The device controllers of \<open>doc/examples\<close> with a flat chart: a motor, a digital watch, an Ethernet
  box, a lane keeping system and a park assistant.
\<close>

section \<open>Motor\<close>

record motor_parameter =
  reference_speed :: int
  m_reference_speed :: int

definition saveReferenceSpeed :: "motor_parameter console action option" where
  "saveReferenceSpeed = sets_reports (\<lambda>p. p\<lparr>m_reference_speed := reference_speed p\<rparr>)
     (\<lambda>p. ''  -> m_reference_speed = '' @ show_int (m_reference_speed p))"

definition refSpeedPositive :: "motor_parameter console guard option" where
  "refSpeedPositive = whenever (\<lambda>p. reference_speed p > 0)"

definition motor :: "motor_parameter console chart" where
  "motor = build_chart ''Motor''
    [start_state ''start'' 0,
     simple_state ''Idle'' 0 (says ''Motor is halted'') None (says ''Motor is started''),
     simple_state ''Start'' 0 None None None,
     simple_state ''Spinning'' 0 None None None,
     simple_state ''Stop'' 0 None None None,
     tr 1 2 None None None,
     tr 2 3 (Some (Event ''setSpeed'')) refSpeedPositive saveReferenceSpeed,
     tr 3 5 (Some (Event ''halt'')) None None,
     tr 3 4 (Some (Event ''setSpeed'')) refSpeedPositive saveReferenceSpeed,
     internal 4 (Event ''setSpeed'') None saveReferenceSpeed,
     tr 4 5 (Some (Event ''halt'')) None None,
     tr 5 2 None None None]"

definition motor_main :: "nat \<Rightarrow> (unit, motor_parameter console rt) prog" where
  "motor_main n = statements
    [print_lines [''=== Motor controller example ===''],
     launch n motor,
     print_lines ['''', ''>> setSpeed(100) : start motor''],
     assign (\<lambda>p. p\<lparr>reference_speed := 100\<rparr>),
     send n motor (Some (Event ''setSpeed'')),
     print_lines ['''', ''>> setSpeed(200) : update reference speed (Start -> Spinning)''],
     assign (\<lambda>p. p\<lparr>reference_speed := 200\<rparr>),
     send n motor (Some (Event ''setSpeed'')),
     print_lines ['''', ''>> setSpeed(150) : internal transition (Spinning stays Spinning)''],
     assign (\<lambda>p. p\<lparr>reference_speed := 150\<rparr>),
     send n motor (Some (Event ''setSpeed'')),
     print_lines ['''', ''>> halt : stop motor''],
     send n motor (Some (Event ''halt''))]"

section \<open>DigitalWatch\<close>

record watch_parameter =
  hours :: int
  minutes :: int

definition beep :: "watch_parameter console action option" where
  "beep = says ''  *beep*''"

definition incrementHours :: "watch_parameter console action option" where
  "incrementHours = sets_reports (\<lambda>p. p\<lparr>hours := (hours p + 1) mod 24\<rparr>)
     (\<lambda>p. ''  Hours -> '' @ show_int (hours p))"

definition incrementMinutes :: "watch_parameter console action option" where
  "incrementMinutes = sets_reports (\<lambda>p. p\<lparr>minutes := (minutes p + 1) mod 60\<rparr>)
     (\<lambda>p. ''  Minutes -> '' @ show_int (minutes p))"

definition timeIsZero :: "watch_parameter console guard option" where
  "timeIsZero = whenever (\<lambda>p. hours p = 0 \<and> minutes p = 0)"

definition display_line :: "watch_parameter \<Rightarrow> string" where
  "display_line p = ''  Display: '' @ show_int (hours p) @ ''h'' @ show_int (minutes p) @ ''min''"

definition hours_line :: "watch_parameter \<Rightarrow> string" where
  "hours_line p = ''  Setting hours = '' @ show_int (hours p)"

definition minutes_line :: "watch_parameter \<Rightarrow> string" where
  "minutes_line p = ''  Setting minutes = '' @ show_int (minutes p)"

definition digital_watch :: "watch_parameter console chart" where
  "digital_watch = build_chart ''DigitalWatch''
    [start_state ''start'' 0,
     simple_state ''Idle'' 0 None
       (reports display_line) None,
     simple_state ''SettingHours'' 0 beep (reports hours_line) None,
     simple_state ''SettingMinutes'' 0 beep
       (reports minutes_line) None,
     new_obj ''initJunction'' 0 (CCondition timeIsZero (Some 3) (Some 2)),
     tr 1 5 None None None,
     tr 2 3 (Some (Event ''set'')) None None,
     tr 3 4 (Some (Event ''set'')) None None,
     tr 4 2 (Some (Event ''set'')) None None,
     internal 3 (Event ''incr'') None incrementHours,
     internal 4 (Event ''incr'') None incrementMinutes]"

definition digital_watch_main :: "nat \<Rightarrow> (unit, watch_parameter console rt) prog" where
  "digital_watch_main n = statements
    [print_lines [''=== Digital watch (initial: 0h0min => SettingHours) ===''],
     launch n digital_watch,
     print_lines ['''', ''>> Increment hours 3 times''],
     send n digital_watch (Some (Event ''incr'')),
     send n digital_watch (Some (Event ''incr'')),
     send n digital_watch (Some (Event ''incr'')),
     print_lines ['''', ''>> set : SettingHours -> SettingMinutes''],
     send n digital_watch (Some (Event ''set'')),
     print_lines ['''', ''>> Increment minutes 5 times''],
     for_each [0..<5] (\<lambda>i. send n digital_watch (Some (Event ''incr''))),
     print_lines ['''', ''>> set : SettingMinutes -> Idle''],
     send n digital_watch (Some (Event ''set''))]"

section \<open>EthernetBox\<close>

definition ledOff :: "unit console action option" where
  "ledOff = says ''  LED: off''"

definition ledBlinking :: "unit console action option" where
  "ledBlinking = says ''  LED: blinking''"

definition ledGlow :: "unit console action option" where
  "ledGlow = says ''  LED: glow''"

definition ledConstantGlow :: "unit console action option" where
  "ledConstantGlow = says ''  LED: constant glow''"

definition pairingPhone :: "unit console action option" where
  "pairingPhone = says ''  ACTION: pairing phone''"

definition launchHome :: "unit console action option" where
  "launchHome = says ''  ACTION: launch home screen''"

definition ethernet_box :: "unit console chart" where
  "ethernet_box = build_chart ''EthernetBox''
    [start_state ''start'' 0,
     simple_state ''EthernetBoxOff'' 0 ledOff None None,
     simple_state ''WifiDiscoverable'' 0 ledBlinking None None,
     simple_state ''WifiConnected'' 0 ledConstantGlow None None,
     simple_state ''WifiDisconnected'' 0 ledGlow None None,
     tr 1 2 None None None,
     tr 2 3 (Some (Event ''wifi_powered_on'')) None None,
     tr 3 2 (Some (Event ''wifi_powered_off'')) None None,
     tr 5 2 (Some (Event ''wifi_powered_off'')) None None,
     tr 3 4 (Some (Event ''pairing_successful'')) None None,
     tr 4 3 (Some (Event ''long_button_press'')) None pairingPhone,
     tr 3 5 (Some (Event ''wifi_failure'')) None None,
     tr 5 3 (Some (Event ''long_button_press'')) None pairingPhone,
     tr 4 5 (Some (Event ''phone_disconnected'')) None None,
     internal 4 (Event ''short_button_press'') None launchHome]"

definition ethernet_box_main :: "nat \<Rightarrow> (unit, unit console rt) prog" where
  "ethernet_box_main n = statements
    [print_lines [''=== Ethernet box manager ===''],
     launch n ethernet_box,
     print_lines ['''', ''>> Wi-Fi powered on''],
     send n ethernet_box (Some (Event ''wifi_powered_on'')),
     print_lines ['''', ''>> Pairing successful''],
     send n ethernet_box (Some (Event ''pairing_successful'')),
     print_lines ['''', ''>> Short press => launch home''],
     send n ethernet_box (Some (Event ''short_button_press'')),
     print_lines ['''', ''>> Phone disconnects''],
     send n ethernet_box (Some (Event ''phone_disconnected'')),
     print_lines ['''', ''>> Long press => re-pair''],
     send n ethernet_box (Some (Event ''long_button_press'')),
     print_lines ['''', ''>> Wi-Fi powered off''],
     send n ethernet_box (Some (Event ''wifi_powered_off''))]"

section \<open>LaneKeeping\<close>

record lks_parameter =
  LED_LKS :: bool
  LED_lane :: bool
  LED_steering :: bool
  servoing :: bool

definition lks_dump :: "lks_parameter \<Rightarrow> string" where
  "lks_dump p = ''  LKS='' @ show_flag (LED_LKS p) @ '' lane='' @ show_flag (LED_lane p) @
     '' steering='' @ show_flag (LED_steering p) @ '' servoing='' @ show_flag (servoing p)"

definition setFlags :: "bool \<Rightarrow> bool \<Rightarrow> bool \<Rightarrow> bool \<Rightarrow> lks_parameter console action option" where
  "setFlags a b c d = sets_reports
     (\<lambda>p. p\<lparr>LED_LKS := a, LED_lane := b, LED_steering := c, servoing := d\<rparr>) lks_dump"

definition lane_keeping :: "lks_parameter console chart" where
  "lane_keeping = build_chart ''LaneKeeping''
    [start_state ''start'' 0,
     simple_state ''LKSModeOff'' 0 None None None,
     simple_state ''LKSModeOn'' 0 None None None,
     simple_state ''DetectLane'' 0 None None None,
     simple_state ''FollowLane'' 0 None None None,
     simple_state ''WaitDetect'' 0 None None None,
     tr 1 2 None None None,
     tr 2 3 (Some (Event ''btn_LKS'')) None (setFlags True False False False),
     tr 3 2 (Some (Event ''btn_LKS'')) None (setFlags False False False False),
     tr 3 4 (Some (Event ''detect'')) None (setFlags True True False False),
     tr 4 2 (Some (Event ''btn_LKS'')) None (setFlags False False False False),
     tr 4 6 (Some (Event ''not_detect'')) None (setFlags True False False False),
     tr 4 5 (Some (Event ''set'')) None (setFlags True True True True),
     tr 5 6 (Some (Event ''not_detect'')) None (setFlags True False False False),
     tr 5 2 (Some (Event ''btn_LKS'')) None (setFlags False False False False),
     tr 5 4 (Some (Event ''cancel'')) None (setFlags True True False False),
     tr 6 4 (Some (Event ''detect'')) None (setFlags True True False False),
     tr 6 2 (Some (Event ''btn_LKS'')) None (setFlags False False False False)]"

definition lane_keeping_main :: "nat \<Rightarrow> (unit, lks_parameter console rt) prog" where
  "lane_keeping_main n = statements
    [print_lines [''=== Lane Keeping System ===''],
     launch n lane_keeping,
     print_lines ['''', ''>> Driver presses btn_LKS''],
     send n lane_keeping (Some (Event ''btn_LKS'')),
     print_lines ['''', ''>> Lane detected''],
     send n lane_keeping (Some (Event ''detect'')),
     print_lines ['''', ''>> Driver activates set (follow lane)''],
     send n lane_keeping (Some (Event ''set'')),
     print_lines ['''', ''>> Lane lost''],
     send n lane_keeping (Some (Event ''not_detect'')),
     print_lines ['''', ''>> Lane re-detected''],
     send n lane_keeping (Some (Event ''detect'')),
     print_lines ['''', ''>> Driver disables LKS''],
     send n lane_keeping (Some (Event ''btn_LKS''))]"

section \<open>SelfParking\<close>

datatype ScanStatus = SEARCHING | SLOT_FOUND | SLOT_NOT_FOUND

record park_parameter =
  isParked :: bool
  hasTrajectory :: bool
  canPark :: bool
  canDrive :: bool
  scanStatus :: ScanStatus

definition statusToString :: "ScanStatus \<Rightarrow> string" where
  "statusToString s =
     (case s of SEARCHING \<Rightarrow> ''SEARCHING'' | SLOT_FOUND \<Rightarrow> ''SLOT_FOUND'' | SLOT_NOT_FOUND \<Rightarrow> ''SLOT_NOT_FOUND'')"

definition boolalpha :: "bool \<Rightarrow> string" where
  "boolalpha b = (if b then ''true'' else ''false'')"

definition park_dump :: "park_parameter \<Rightarrow> string" where
  "park_dump p = ''    -> isParked='' @ boolalpha (isParked p) @ '' scan='' @ statusToString (scanStatus p) @
     '' hasTrajectory='' @ boolalpha (hasTrajectory p) @ '' canPark='' @ boolalpha (canPark p) @
     '' canDrive='' @ boolalpha (canDrive p)"

definition self_parking :: "park_parameter console chart" where
  "self_parking = build_chart ''SelfParking''
    [start_state ''start'' 0,
     simple_state ''IDLE'' 0 (says ''[IDLE]'') None None,
     simple_state ''SCAN_PARKING_SPOTS'' 0 (says ''  [SCAN_PARKING_SPOTS] entering'')
       (says ''  (scanning slots ...)'') None,
     simple_state ''COMPUTE_ENTERING_TRAJECTORY'' 0
       (says ''  [COMPUTE_ENTERING_TRAJECTORY] computeTrajectoryEnteringSlot()'') None None,
     simple_state ''COMPUTE_LEAVING_TRAJECTORY'' 0
       (says ''  [COMPUTE_LEAVING_TRAJECTORY] computeTrajectoryLeavingSlot()'') None None,
     simple_state ''DRIVE_ALONG_TRAJECTORY'' 0 (says ''  [DRIVE_ALONG_TRAJECTORY] entering'')
       (says ''  (driving along trajectory)'') None,
     simple_state ''TRAJECTORY_DONE'' 0
       (says ''[TRAJECTORY_DONE] setRefSpeed(0) turning_indicator(false,false)'') None None,
     tr 1 2 None None None,
     tr 2 3 (Some (Event ''turning_indicator'')) (whenever (\<lambda>p. \<not> isParked p)) None,
     tr 2 5 (Some (Event ''turning_indicator'')) (whenever isParked) None,
     tr 3 4 None (whenever (\<lambda>p. scanStatus p = SLOT_FOUND)) None,
     tr 3 7 None (whenever (\<lambda>p. scanStatus p = SLOT_NOT_FOUND)) None,
     tr 4 6 None (whenever hasTrajectory) None,
     tr 4 2 None (whenever (\<lambda>p. \<not> canPark p)) None,
     tr 4 7 None (whenever (\<lambda>p. \<not> hasTrajectory p)) None,
     tr 5 6 None (whenever hasTrajectory) None,
     tr 5 7 None (whenever (\<lambda>p. \<not> hasTrajectory p)) None,
     tr 6 7 (Some (Event ''update'')) (whenever (\<lambda>p. \<not> canDrive p)) None,
     tr 7 2 None None None]"

definition self_parking_main :: "nat \<Rightarrow> (unit, park_parameter console rt) prog" where
  "self_parking_main n = statements
    [print_lines [''=== Scenario 1: park into the next free slot ===''],
     assign (\<lambda>p. p\<lparr>isParked := False, scanStatus := SEARCHING, hasTrajectory := True, canPark := True,
       canDrive := True\<rparr>),
     launch n self_parking,
     print_of park_dump,
     print_lines [''>> turning indicator on''],
     send n self_parking (Some (Event ''turning_indicator'')),
     print_of park_dump,
     print_lines [''>> scanner reports SLOT_FOUND''],
     assign (\<lambda>p. p\<lparr>scanStatus := SLOT_FOUND\<rparr>),
     send n self_parking None,
     print_lines [''>> tick (dt) - keep driving''],
     send n self_parking (Some (Event ''update'')),
     print_lines [''>> tick (dt) - canDrive becomes false''],
     assign (\<lambda>p. p\<lparr>canDrive := False\<rparr>),
     send n self_parking (Some (Event ''update''))]"

section \<open>The charts as records\<close>

lemma device_guards [simp]:
  "\<exists>g. refSpeedPositive = Some g" "\<exists>g. timeIsZero = Some g"
  by (simp_all add: refSpeedPositive_def timeIsZero_def)

lemma motor_literal:
  "motor =
    \<lparr>ownedStates =
       [lit_state Chart ''Motor'' None None None [] (Some 1) None [] [],
        lit_state (Pseudo Start) ''start'' (Some 0) None None [0] None None [] [],
        lit_state Simple ''Idle'' (Some 0) (says ''Motor is halted'') (says
          ''Motor is started'') [1] None None [] [],
        lit_state Simple ''Start'' (Some 0) None None [3, 2] None None [] [],
        lit_state Simple ''Spinning'' (Some 0) None None [4, 5] None None [] [],
        lit_state Simple ''Stop'' (Some 0) None None [6] None None [] []],
     ownedTransitions =
       [lit_trans False None None None [1] [2],
        lit_trans False (Some (Event ''setSpeed'')) refSpeedPositive saveReferenceSpeed [2] [3],
        lit_trans False (Some (Event ''halt'')) None None [3] [5],
        lit_trans False (Some (Event ''setSpeed'')) refSpeedPositive saveReferenceSpeed [3] [4],
        lit_trans True (Some (Event ''setSpeed'')) None saveReferenceSpeed [] [],
        lit_trans False (Some (Event ''halt'')) None None [4] [5],
        lit_trans False None None None [5] [2]],
     ownedEvents = [Event ''setSpeed'', Event ''halt'', Event ''setSpeed'', Event ''setSpeed'', Event ''halt''],
     stateNames =
       [(''start'', 1), (''Idle'', 2), (''Start'', 3), (''Spinning'', 4), (''Stop'', 5)],
     loopThreshold = 1000, user_equals = no_user_event\<rparr>"
  by (simp add: motor_def build_eval console_build lit_defs cong: let_weak_cong)

lemma motor_facts [chart_facts]:
  "n_states motor = 6" "length (ownedTransitions motor) = 7"
  "loopThreshold motor = 1000" "user_equals motor = no_user_event"
  "ownedStates motor ! 0 = lit_state Chart ''Motor'' None None None [] (Some 1) None [] []"
  "ownedStates motor ! Suc 0 = lit_state (Pseudo Start) ''start'' (Some 0) None None [0] None None [] []"
  "ownedStates motor ! 2 = lit_state Simple ''Idle'' (Some 0) (says ''Motor is halted'') (says ''Motor is started'') [1]
    None None [] []"
  "ownedStates motor ! 3 = lit_state Simple ''Start'' (Some 0) None None [3, 2] None None [] []"
  "ownedStates motor ! 4 = lit_state Simple ''Spinning'' (Some 0) None None [4, 5] None None [] []"
  "ownedStates motor ! 5 = lit_state Simple ''Stop'' (Some 0) None None [6] None None [] []"
  "ownedTransitions motor ! 0 = lit_trans False None None None [1] [2]"
  "ownedTransitions motor ! Suc 0 = lit_trans False (Some (Event ''setSpeed'')) refSpeedPositive saveReferenceSpeed [2] [3]"
  "ownedTransitions motor ! 2 = lit_trans False (Some (Event ''halt'')) None None [3] [5]"
  "ownedTransitions motor ! 3 = lit_trans False (Some (Event ''setSpeed'')) refSpeedPositive saveReferenceSpeed [3] [4]"
  "ownedTransitions motor ! 4 = lit_trans True (Some (Event ''setSpeed'')) None saveReferenceSpeed [] []"
  "ownedTransitions motor ! 5 = lit_trans False (Some (Event ''halt'')) None None [4] [5]"
  "ownedTransitions motor ! 6 = lit_trans False None None None [5] [2]"
  by (simp_all add: motor_literal)

lemma digital_watch_literal:
  "digital_watch =
    \<lparr>ownedStates =
       [lit_state Chart ''DigitalWatch'' None None None [] (Some 1) None [] [],
        lit_state (Pseudo Start) ''start'' (Some 0) None None [2] None None [] [],
        lit_do (reports display_line) (lit_state Simple ''Idle'' (Some 0)
          None None [3] None None [] []),
        lit_do (reports hours_line)
          (lit_state Simple ''SettingHours'' (Some 0) beep None [4, 6] None None [] []),
        lit_do (reports minutes_line) (lit_state Simple ''SettingMinutes'' (Some 0) beep None
          [5, 7] None None [] []),
        lit_state (Pseudo Junction) ''initJunction'' (Some 0) None None [0, 1] None None [] []],
     ownedTransitions =
       [lit_trans False None timeIsZero None [5] [3],
        lit_trans False None None None [5] [2],
        lit_trans False None None None [1] [5],
        lit_trans False (Some (Event ''set'')) None None [2] [3],
        lit_trans False (Some (Event ''set'')) None None [3] [4],
        lit_trans False (Some (Event ''set'')) None None [4] [2],
        lit_trans True (Some (Event ''incr'')) None incrementHours [] [],
        lit_trans True (Some (Event ''incr'')) None incrementMinutes [] []],
     ownedEvents = [Event ''set'', Event ''set'', Event ''set'', Event ''incr'', Event ''incr''],
     stateNames =
       [(''start'', 1), (''Idle'', 2), (''SettingHours'', 3), (''SettingMinutes'', 4),
        (''initJunction'', 5)],
     loopThreshold = 1000, user_equals = no_user_event\<rparr>"
  by (simp add: digital_watch_def build_eval console_build lit_defs cong: let_weak_cong)

lemma digital_watch_facts [chart_facts]:
  "n_states digital_watch = 6" "length (ownedTransitions digital_watch) = 8"
  "loopThreshold digital_watch = 1000" "user_equals digital_watch = no_user_event"
  "ownedStates digital_watch ! 0 = lit_state Chart ''DigitalWatch'' None None None [] (Some 1) None [] []"
  "ownedStates digital_watch ! Suc 0 = lit_state (Pseudo Start) ''start'' (Some 0) None None [2] None None [] []"
  "ownedStates digital_watch ! 2 = lit_do (reports display_line) (lit_state Simple ''Idle'' (Some 0) None None [3]
    None None [] [])"
  "ownedStates digital_watch ! 3 = lit_do (reports hours_line) (lit_state
    Simple ''SettingHours'' (Some 0) beep None [4, 6] None None [] [])"
  "ownedStates digital_watch ! 4 = lit_do (reports minutes_line) (lit_state Simple ''SettingMinutes'' (Some 0) beep None [5, 7] None None [] [])"
  "ownedStates digital_watch ! 5 = lit_state (Pseudo Junction) ''initJunction'' (Some 0) None None [0, 1] None None [] []"
  "ownedTransitions digital_watch ! 0 = lit_trans False None timeIsZero None [5] [3]"
  "ownedTransitions digital_watch ! Suc 0 = lit_trans False None None None [5] [2]"
  "ownedTransitions digital_watch ! 2 = lit_trans False None None None [1] [5]"
  "ownedTransitions digital_watch ! 3 = lit_trans False (Some (Event ''set'')) None None [2] [3]"
  "ownedTransitions digital_watch ! 4 = lit_trans False (Some (Event ''set'')) None None [3] [4]"
  "ownedTransitions digital_watch ! 5 = lit_trans False (Some (Event ''set'')) None None [4] [2]"
  "ownedTransitions digital_watch ! 6 = lit_trans True (Some (Event ''incr'')) None incrementHours [] []"
  "ownedTransitions digital_watch ! 7 = lit_trans True (Some (Event ''incr'')) None incrementMinutes [] []"
  by (simp_all add: digital_watch_literal)

lemma ethernet_box_literal:
  "ethernet_box =
    \<lparr>ownedStates =
       [lit_state Chart ''EthernetBox'' None None None [] (Some 1) None [] [],
        lit_state (Pseudo Start) ''start'' (Some 0) None None [0] None None [] [],
        lit_state Simple ''EthernetBoxOff'' (Some 0) ledOff None [1] None None [] [],
        lit_state Simple ''WifiDiscoverable'' (Some 0) ledBlinking None [2, 4, 6] None None []
          [],
        lit_state Simple ''WifiConnected'' (Some 0) ledConstantGlow None [5, 8, 9] None None []
          [],
        lit_state Simple ''WifiDisconnected'' (Some 0) ledGlow None [3, 7] None None [] []],
     ownedTransitions =
       [lit_trans False None None None [1] [2],
        lit_trans False (Some (Event ''wifi_powered_on'')) None None [2] [3],
        lit_trans False (Some (Event ''wifi_powered_off'')) None None [3] [2],
        lit_trans False (Some (Event ''wifi_powered_off'')) None None [5] [2],
        lit_trans False (Some (Event ''pairing_successful'')) None None [3] [4],
        lit_trans False (Some (Event ''long_button_press'')) None pairingPhone [4] [3],
        lit_trans False (Some (Event ''wifi_failure'')) None None [3] [5],
        lit_trans False (Some (Event ''long_button_press'')) None pairingPhone [5] [3],
        lit_trans False (Some (Event ''phone_disconnected'')) None None [4] [5],
        lit_trans True (Some (Event ''short_button_press'')) None launchHome [] []],
     ownedEvents = [Event ''wifi_powered_on'', Event ''wifi_powered_off'', Event ''wifi_powered_off'', Event
        ''pairing_successful'', Event ''long_button_press'', Event ''wifi_failure'', Event
        ''long_button_press'', Event ''phone_disconnected'', Event ''short_button_press''],
     stateNames =
       [(''start'', 1), (''EthernetBoxOff'', 2), (''WifiDiscoverable'', 3), (''WifiConnected'',
        4), (''WifiDisconnected'', 5)],
     loopThreshold = 1000, user_equals = no_user_event\<rparr>"
  by (simp add: ethernet_box_def build_eval console_build lit_defs cong: let_weak_cong)

lemma ethernet_box_facts [chart_facts]:
  "n_states ethernet_box = 6" "length (ownedTransitions ethernet_box) = 10"
  "loopThreshold ethernet_box = 1000" "user_equals ethernet_box = no_user_event"
  "ownedStates ethernet_box ! 0 = lit_state Chart ''EthernetBox'' None None None [] (Some 1) None [] []"
  "ownedStates ethernet_box ! Suc 0 = lit_state (Pseudo Start) ''start'' (Some 0) None None [0] None None [] []"
  "ownedStates ethernet_box ! 2 = lit_state Simple ''EthernetBoxOff'' (Some 0) ledOff None [1] None None [] []"
  "ownedStates ethernet_box ! 3 = lit_state Simple ''WifiDiscoverable'' (Some 0) ledBlinking None [2, 4, 6] None None [] []"
  "ownedStates ethernet_box ! 4 = lit_state Simple ''WifiConnected'' (Some 0) ledConstantGlow None [5, 8, 9] None None [] []"
  "ownedStates ethernet_box ! 5 = lit_state Simple ''WifiDisconnected'' (Some 0) ledGlow None [3, 7] None None [] []"
  "ownedTransitions ethernet_box ! 0 = lit_trans False None None None [1] [2]"
  "ownedTransitions ethernet_box ! Suc 0 = lit_trans False (Some (Event ''wifi_powered_on'')) None None [2] [3]"
  "ownedTransitions ethernet_box ! 2 = lit_trans False (Some (Event ''wifi_powered_off'')) None None [3] [2]"
  "ownedTransitions ethernet_box ! 3 = lit_trans False (Some (Event ''wifi_powered_off'')) None None [5] [2]"
  "ownedTransitions ethernet_box ! 4 = lit_trans False (Some (Event ''pairing_successful'')) None None [3] [4]"
  "ownedTransitions ethernet_box ! 5 = lit_trans False (Some (Event ''long_button_press'')) None pairingPhone [4] [3]"
  "ownedTransitions ethernet_box ! 6 = lit_trans False (Some (Event ''wifi_failure'')) None None [3] [5]"
  "ownedTransitions ethernet_box ! 7 = lit_trans False (Some (Event ''long_button_press'')) None pairingPhone [5] [3]"
  "ownedTransitions ethernet_box ! 8 = lit_trans False (Some (Event ''phone_disconnected'')) None None [4] [5]"
  "ownedTransitions ethernet_box ! 9 = lit_trans True (Some (Event ''short_button_press'')) None launchHome [] []"
  by (simp_all add: ethernet_box_literal)

lemma lane_keeping_literal:
  "lane_keeping =
    \<lparr>ownedStates =
       [lit_state Chart ''LaneKeeping'' None None None [] (Some 1) None [] [],
        lit_state (Pseudo Start) ''start'' (Some 0) None None [0] None None [] [],
        lit_state Simple ''LKSModeOff'' (Some 0) None None [1] None None [] [],
        lit_state Simple ''LKSModeOn'' (Some 0) None None [2, 3] None None [] [],
        lit_state Simple ''DetectLane'' (Some 0) None None [4, 5, 6] None None [] [],
        lit_state Simple ''FollowLane'' (Some 0) None None [7, 8, 9] None None [] [],
        lit_state Simple ''WaitDetect'' (Some 0) None None [10, 11] None None [] []],
     ownedTransitions =
       [lit_trans False None None None [1] [2],
        lit_trans False (Some (Event ''btn_LKS'')) None (setFlags True False False False) [2]
          [3],
        lit_trans False (Some (Event ''btn_LKS'')) None (setFlags False False False False) [3]
          [2],
        lit_trans False (Some (Event ''detect'')) None (setFlags True True False False) [3] [4],
        lit_trans False (Some (Event ''btn_LKS'')) None (setFlags False False False False) [4]
          [2],
        lit_trans False (Some (Event ''not_detect'')) None (setFlags True False False False) [4]
          [6],
        lit_trans False (Some (Event ''set'')) None (setFlags True True True True) [4] [5],
        lit_trans False (Some (Event ''not_detect'')) None (setFlags True False False False) [5]
          [6],
        lit_trans False (Some (Event ''btn_LKS'')) None (setFlags False False False False) [5]
          [2],
        lit_trans False (Some (Event ''cancel'')) None (setFlags True True False False) [5] [4],
        lit_trans False (Some (Event ''detect'')) None (setFlags True True False False) [6] [4],
        lit_trans False (Some (Event ''btn_LKS'')) None (setFlags False False False False) [6]
          [2]],
     ownedEvents = [Event ''btn_LKS'', Event ''btn_LKS'', Event ''detect'', Event ''btn_LKS'', Event
        ''not_detect'', Event ''set'', Event ''not_detect'', Event ''btn_LKS'', Event ''cancel'',
        Event ''detect'', Event ''btn_LKS''],
     stateNames =
       [(''start'', 1), (''LKSModeOff'', 2), (''LKSModeOn'', 3), (''DetectLane'', 4),
        (''FollowLane'', 5), (''WaitDetect'', 6)],
     loopThreshold = 1000, user_equals = no_user_event\<rparr>"
  by (simp add: lane_keeping_def build_eval console_build lit_defs cong: let_weak_cong)

lemma lane_keeping_facts [chart_facts]:
  "n_states lane_keeping = 7" "length (ownedTransitions lane_keeping) = 12"
  "loopThreshold lane_keeping = 1000" "user_equals lane_keeping = no_user_event"
  "ownedStates lane_keeping ! 0 = lit_state Chart ''LaneKeeping'' None None None [] (Some 1) None [] []"
  "ownedStates lane_keeping ! Suc 0 = lit_state (Pseudo Start) ''start'' (Some 0) None None [0] None None [] []"
  "ownedStates lane_keeping ! 2 = lit_state Simple ''LKSModeOff'' (Some 0) None None [1] None None [] []"
  "ownedStates lane_keeping ! 3 = lit_state Simple ''LKSModeOn'' (Some 0) None None [2, 3] None None [] []"
  "ownedStates lane_keeping ! 4 = lit_state Simple ''DetectLane'' (Some 0) None None [4, 5, 6] None None [] []"
  "ownedStates lane_keeping ! 5 = lit_state Simple ''FollowLane'' (Some 0) None None [7, 8, 9] None None [] []"
  "ownedStates lane_keeping ! 6 = lit_state Simple ''WaitDetect'' (Some 0) None None [10, 11] None None [] []"
  "ownedTransitions lane_keeping ! 0 = lit_trans False None None None [1] [2]"
  "ownedTransitions lane_keeping ! Suc 0 = lit_trans False (Some (Event ''btn_LKS'')) None (setFlags True False False False) [2] [3]"
  "ownedTransitions lane_keeping ! 2 = lit_trans False (Some (Event ''btn_LKS'')) None (setFlags False False False False) [3] [2]"
  "ownedTransitions lane_keeping ! 3 = lit_trans False (Some (Event ''detect'')) None (setFlags True True False False) [3] [4]"
  "ownedTransitions lane_keeping ! 4 = lit_trans False (Some (Event ''btn_LKS'')) None (setFlags False False False False) [4] [2]"
  "ownedTransitions lane_keeping ! 5 = lit_trans False (Some (Event ''not_detect'')) None (setFlags True False False False) [4] [6]"
  "ownedTransitions lane_keeping ! 6 = lit_trans False (Some (Event ''set'')) None (setFlags True True True True) [4] [5]"
  "ownedTransitions lane_keeping ! 7 = lit_trans False (Some (Event ''not_detect'')) None (setFlags True False False False) [5] [6]"
  "ownedTransitions lane_keeping ! 8 = lit_trans False (Some (Event ''btn_LKS'')) None (setFlags False False False False) [5] [2]"
  "ownedTransitions lane_keeping ! 9 = lit_trans False (Some (Event ''cancel'')) None (setFlags True True False False) [5] [4]"
  "ownedTransitions lane_keeping ! 10 = lit_trans False (Some (Event ''detect'')) None (setFlags True True False False) [6] [4]"
  "ownedTransitions lane_keeping ! 11 = lit_trans False (Some (Event ''btn_LKS'')) None (setFlags False False False False) [6] [2]"
  by (simp_all add: lane_keeping_literal)

lemma self_parking_literal:
  "self_parking =
    \<lparr>ownedStates =
       [lit_state Chart ''SelfParking'' None None None [] (Some 1) None [] [],
        lit_state (Pseudo Start) ''start'' (Some 0) None None [0] None None [] [],
        lit_state Simple ''IDLE'' (Some 0) (says ''[IDLE]'') None [2, 1] None None [] [],
        lit_do (says ''  (scanning slots ...)'') (lit_state Simple ''SCAN_PARKING_SPOTS'' (Some
          0) (says ''  [SCAN_PARKING_SPOTS] entering'') None [4, 3] None None [] []),
        lit_state Simple ''COMPUTE_ENTERING_TRAJECTORY'' (Some 0) (says
          ''  [COMPUTE_ENTERING_TRAJECTORY] computeTrajectoryEnteringSlot()'') None [7, 6, 5] None
          None [] [],
        lit_state Simple ''COMPUTE_LEAVING_TRAJECTORY'' (Some 0) (says
          ''  [COMPUTE_LEAVING_TRAJECTORY] computeTrajectoryLeavingSlot()'') None [9, 8] None None
          [] [],
        lit_do (says ''  (driving along trajectory)'') (lit_state Simple
          ''DRIVE_ALONG_TRAJECTORY'' (Some 0) (says ''  [DRIVE_ALONG_TRAJECTORY] entering'') None
          [10] None None [] []),
        lit_state Simple ''TRAJECTORY_DONE'' (Some 0) (says
          ''[TRAJECTORY_DONE] setRefSpeed(0) turning_indicator(false,false)'') None [11] None None
          [] []],
     ownedTransitions =
       [lit_trans False None None None [1] [2],
        lit_trans False (Some (Event ''turning_indicator'')) (whenever (\<lambda>p. \<not>
          isParked p)) None [2] [3],
        lit_trans False (Some (Event ''turning_indicator'')) (whenever isParked) None [2] [5],
        lit_trans False None (whenever (\<lambda>p. scanStatus p = SLOT_FOUND)) None [3] [4],
        lit_trans False None (whenever (\<lambda>p. scanStatus p = SLOT_NOT_FOUND)) None [3] [7],
        lit_trans False None (whenever hasTrajectory) None [4] [6],
        lit_trans False None (whenever (\<lambda>p. \<not> canPark p)) None [4] [2],
        lit_trans False None (whenever (\<lambda>p. \<not> hasTrajectory p)) None [4] [7],
        lit_trans False None (whenever hasTrajectory) None [5] [6],
        lit_trans False None (whenever (\<lambda>p. \<not> hasTrajectory p)) None [5] [7],
        lit_trans False (Some (Event ''update'')) (whenever (\<lambda>p. \<not> canDrive p)) None
          [6] [7],
        lit_trans False None None None [7] [2]],
     ownedEvents = [Event ''turning_indicator'', Event ''turning_indicator'', Event ''update''],
     stateNames =
       [(''start'', 1), (''IDLE'', 2), (''SCAN_PARKING_SPOTS'', 3),
        (''COMPUTE_ENTERING_TRAJECTORY'', 4), (''COMPUTE_LEAVING_TRAJECTORY'', 5),
        (''DRIVE_ALONG_TRAJECTORY'', 6), (''TRAJECTORY_DONE'', 7)],
     loopThreshold = 1000, user_equals = no_user_event\<rparr>"
  by (simp add: self_parking_def build_eval console_build lit_defs cong: let_weak_cong)

lemma self_parking_facts [chart_facts]:
  "n_states self_parking = 8" "length (ownedTransitions self_parking) = 12"
  "loopThreshold self_parking = 1000" "user_equals self_parking = no_user_event"
  "ownedStates self_parking ! 0 = lit_state Chart ''SelfParking'' None None None [] (Some 1) None [] []"
  "ownedStates self_parking ! Suc 0 = lit_state (Pseudo Start) ''start'' (Some 0) None None [0] None None [] []"
  "ownedStates self_parking ! 2 = lit_state Simple ''IDLE'' (Some 0) (says ''[IDLE]'') None [2, 1] None None [] []"
  "ownedStates self_parking ! 3 = lit_do (says ''  (scanning slots ...)'') (lit_state Simple ''SCAN_PARKING_SPOTS'' (Some 0)
    (says ''  [SCAN_PARKING_SPOTS] entering'') None [4, 3] None None [] [])"
  "ownedStates self_parking ! 4 = lit_state Simple ''COMPUTE_ENTERING_TRAJECTORY'' (Some 0) (says
    ''  [COMPUTE_ENTERING_TRAJECTORY] computeTrajectoryEnteringSlot()'') None [7, 6, 5] None None
    [] []"
  "ownedStates self_parking ! 5 = lit_state Simple ''COMPUTE_LEAVING_TRAJECTORY'' (Some 0) (says
    ''  [COMPUTE_LEAVING_TRAJECTORY] computeTrajectoryLeavingSlot()'') None [9, 8] None None [] []"
  "ownedStates self_parking ! 6 = lit_do (says ''  (driving along trajectory)'') (lit_state Simple ''DRIVE_ALONG_TRAJECTORY''
    (Some 0) (says ''  [DRIVE_ALONG_TRAJECTORY] entering'') None [10] None None [] [])"
  "ownedStates self_parking ! 7 = lit_state Simple ''TRAJECTORY_DONE'' (Some 0) (says
    ''[TRAJECTORY_DONE] setRefSpeed(0) turning_indicator(false,false)'') None [11] None None [] []"
  "ownedTransitions self_parking ! 0 = lit_trans False None None None [1] [2]"
  "ownedTransitions self_parking ! Suc 0 = lit_trans False (Some (Event ''turning_indicator'')) (whenever (\<lambda>p. \<not> isParked p))
    None [2] [3]"
  "ownedTransitions self_parking ! 2 = lit_trans False (Some (Event ''turning_indicator'')) (whenever isParked) None [2] [5]"
  "ownedTransitions self_parking ! 3 = lit_trans False None (whenever (\<lambda>p. scanStatus p = SLOT_FOUND)) None [3] [4]"
  "ownedTransitions self_parking ! 4 = lit_trans False None (whenever (\<lambda>p. scanStatus p = SLOT_NOT_FOUND)) None [3] [7]"
  "ownedTransitions self_parking ! 5 = lit_trans False None (whenever hasTrajectory) None [4] [6]"
  "ownedTransitions self_parking ! 6 = lit_trans False None (whenever (\<lambda>p. \<not> canPark p)) None [4] [2]"
  "ownedTransitions self_parking ! 7 = lit_trans False None (whenever (\<lambda>p. \<not> hasTrajectory p)) None [4] [7]"
  "ownedTransitions self_parking ! 8 = lit_trans False None (whenever hasTrajectory) None [5] [6]"
  "ownedTransitions self_parking ! 9 = lit_trans False None (whenever (\<lambda>p. \<not> hasTrajectory p)) None [5] [7]"
  "ownedTransitions self_parking ! 10 = lit_trans False (Some (Event ''update'')) (whenever (\<lambda>p. \<not> canDrive p)) None [6]
    [7]"
  "ownedTransitions self_parking ! 11 = lit_trans False None None None [7] [2]"
  by (simp_all add: self_parking_literal)

section \<open>What they print\<close>

lemmas device_defs = saveReferenceSpeed_def refSpeedPositive_def beep_def incrementHours_def incrementMinutes_def
  timeIsZero_def display_line_def hours_line_def minutes_line_def ledOff_def ledBlinking_def ledGlow_def
  ledConstantGlow_def pairingPhone_def launchHome_def setFlags_def lks_dump_def statusToString_def boolalpha_def
  park_dump_def

lemma motor_prints:
  "prints (motor_main 12) \<lparr>reference_speed = 0, m_reference_speed = 0\<rparr>
    [''=== Motor controller example ==='', ''Motor is halted'', '''',
     ''>> setSpeed(100) : start motor'', ''Motor is started'', ''  -> m_reference_speed = 100'', '''',
     ''>> setSpeed(200) : update reference speed (Start -> Spinning)'', ''  -> m_reference_speed = 200'', '''',
     ''>> setSpeed(150) : internal transition (Spinning stays Spinning)'', ''  -> m_reference_speed = 150'', '''',
     ''>> halt : stop motor'', ''Motor is halted'']"
  by (simp add: motor_main_def console_defs run_defs chart_facts device_defs cong: stop_congs)

lemma digital_watch_prints:
  "prints (digital_watch_main 12) \<lparr>hours = 0, minutes = 0\<rparr>
    [''=== Digital watch (initial: 0h0min => SettingHours) ==='', ''  *beep*'', ''  Setting hours = 0'', '''',
     ''>> Increment hours 3 times'', ''  Hours -> 1'', ''  Hours -> 2'', ''  Hours -> 3'', '''',
     ''>> set : SettingHours -> SettingMinutes'', ''  *beep*'', ''  Setting minutes = 0'', '''',
     ''>> Increment minutes 5 times'', ''  Minutes -> 1'', ''  Minutes -> 2'', ''  Minutes -> 3'',
     ''  Minutes -> 4'', ''  Minutes -> 5'', '''',
     ''>> set : SettingMinutes -> Idle'', ''  Display: 3h5min'']"
  by (simp add: digital_watch_main_def console_defs run_defs chart_facts device_defs upt_rec cong: stop_congs)

lemma ethernet_box_prints:
  "prints (ethernet_box_main 12) ()
    [''=== Ethernet box manager ==='', ''  LED: off'', '''',
     ''>> Wi-Fi powered on'', ''  LED: blinking'', '''',
     ''>> Pairing successful'', ''  LED: constant glow'', '''',
     ''>> Short press => launch home'', ''  ACTION: launch home screen'', '''',
     ''>> Phone disconnects'', ''  LED: glow'', '''',
     ''>> Long press => re-pair'', ''  ACTION: pairing phone'', ''  LED: blinking'', '''',
     ''>> Wi-Fi powered off'', ''  LED: off'']"
  by (simp add: ethernet_box_main_def console_defs run_defs chart_facts device_defs cong: stop_congs)

lemma lane_keeping_prints:
  "prints (lane_keeping_main 12) \<lparr>LED_LKS = False, LED_lane = False, LED_steering = False, servoing = False\<rparr>
    [''=== Lane Keeping System ==='', '''',
     ''>> Driver presses btn_LKS'', ''  LKS=1 lane=0 steering=0 servoing=0'', '''',
     ''>> Lane detected'', ''  LKS=1 lane=1 steering=0 servoing=0'', '''',
     ''>> Driver activates set (follow lane)'', ''  LKS=1 lane=1 steering=1 servoing=1'', '''',
     ''>> Lane lost'', ''  LKS=1 lane=0 steering=0 servoing=0'', '''',
     ''>> Lane re-detected'', ''  LKS=1 lane=1 steering=0 servoing=0'', '''',
     ''>> Driver disables LKS'', ''  LKS=0 lane=0 steering=0 servoing=0'']"
  by (simp add: lane_keeping_main_def console_defs run_defs chart_facts device_defs cong: stop_congs)

lemma self_parking_prints:
  "prints (self_parking_main 12)
    \<lparr>isParked = False, hasTrajectory = False, canPark = False, canDrive = False, scanStatus = SEARCHING\<rparr>
    [''=== Scenario 1: park into the next free slot ==='', ''[IDLE]'',
     ''    -> isParked=false scan=SEARCHING hasTrajectory=true canPark=true canDrive=true'',
     ''>> turning indicator on'', ''  [SCAN_PARKING_SPOTS] entering'', ''  (scanning slots ...)'',
     ''    -> isParked=false scan=SEARCHING hasTrajectory=true canPark=true canDrive=true'',
     ''>> scanner reports SLOT_FOUND'', ''  [COMPUTE_ENTERING_TRAJECTORY] computeTrajectoryEnteringSlot()'',
     ''  [DRIVE_ALONG_TRAJECTORY] entering'', ''  (driving along trajectory)'',
     ''>> tick (dt) - keep driving'', ''>> tick (dt) - canDrive becomes false'',
     ''[TRAJECTORY_DONE] setRefSpeed(0) turning_indicator(false,false)'', ''[IDLE]'']"
  by (simp add: self_parking_main_def console_defs run_defs chart_facts device_defs cong: stop_congs)

end
