(* ===== verification/Machines.thy ===== *)
theory Machines
  imports Example_Flat Example_Devices
begin

text \<open>
  Example charts against reference automata: a flat chart with one timeless state active and no
  observers is a pair of that state and the parameter, and every dispatch of a named event is one
  step of a function on such pairs, whatever the event and however long the run.
\<close>

section \<open>Resting states\<close>

definition rest ::
  "sid \<Rightarrow> 'p \<Rightarrow> nat \<Rightarrow> nat \<Rightarrow> nat \<Rightarrow> int \<Rightarrow> int \<Rightarrow> nat \<Rightarrow> string list \<Rightarrow> service \<Rightarrow> 'p console rt"
where
  "rest s x i a b t u k ls sv =
    \<lparr>rt_md = \<lparr>md_id = i, md_statechart = Some 0,
            activeStates =
              [(0, \<lparr>rd_addr = a, currentTime = t, rd_active = True, currentState = Some s,
                   stateset = [], timeoutEvents = []\<rparr>),
               (s, \<lparr>rd_addr = b, currentTime = u, rd_active = True, currentState = None,
                   stateset = [], timeoutEvents = []\<rparr>)],
            md_next = k, activateObservers = [], deactivateObservers = []\<rparr>,
     rt_env = \<lparr>cout = ls, parameter = x\<rparr>, rt_sv = sv\<rparr>"

definition resting :: "sid \<times> 'p \<Rightarrow> 'p console rt \<Rightarrow> bool" where
  "resting sx r \<longleftrightarrow> (\<exists>i a b t u k ls sv. r = rest (fst sx) (snd sx) i a b t u k ls sv)"

lemma resting_parameter: "resting sx r \<Longrightarrow> parameter (rt_env r) = snd sx"
  by (auto simp: resting_def rest_def)

lemma resting_active: "resting sx r \<Longrightarrow> 0 < fst sx \<Longrightarrow> isActive r y \<longleftrightarrow> y = 0 \<or> y = fst sx"
  by (auto simp: resting_def rest_def isActive_def getData_def split: if_split_asm)

text \<open>A call that returns and leaves the run resting in the given pair.\<close>

definition moves :: "('a, 'p console rt) outcome \<Rightarrow> sid \<times> 'p \<Rightarrow> bool" where
  "moves out sx = (case out of Ret c r \<Rightarrow> resting sx r | _ \<Rightarrow> False)"

lemma movesE:
  assumes "moves out sx"
  obtains c r where "out = Ret c r" "resting sx r"
  using assms by (auto simp: moves_def split: outcome.splits)

lemma moves_views:
  assumes "moves out sx" "0 < fst sx"
  obtains c r where "out = Ret c r" "parameter (rt_env r) = snd sx" "\<And>y. isActive r y \<longleftrightarrow> y = 0 \<or> y = fst sx"
  using movesE[OF assms(1)] resting_parameter resting_active assms(2) by metis

definition events_sent :: "'p console chart \<Rightarrow> 'p \<Rightarrow> string list \<Rightarrow> (unit, 'p console rt) outcome" where
  "events_sent ch x nms =
     statements [launch 12 ch, for_each nms (\<lambda>nm. send 12 ch (Some (Event nm)))] (console_rt x)"

locale machine =
  fixes ch :: "'p console chart" and first :: "'p \<Rightarrow> sid \<times> 'p"
    and delta :: "string \<Rightarrow> sid \<times> 'p \<Rightarrow> sid \<times> 'p" and ok :: "sid \<times> 'p \<Rightarrow> bool"
  assumes begins: "moves (start_with 12 ch q (console_rt x)) (first x)"
    and steps: "ok sx \<Longrightarrow> resting sx r \<Longrightarrow> moves (dispatch 12 ch 0 (Some (Event nm)) q r) (delta nm sx)"
    and delta_ok: "ok sx \<Longrightarrow> ok (delta nm sx)"
begin

lemma sends_simulate:
  "ok sx \<Longrightarrow> resting sx r \<Longrightarrow>
   moves (for_each nms (\<lambda>nm. send 12 ch (Some (Event nm))) r) (fold delta nms sx)"
proof (induction nms arbitrary: sx r)
  case (Cons nm nms)
  obtain c r1 where r1: "dispatch 12 ch 0 (Some (Event nm)) (CallerParam 0) r = Ret c r1" "resting (delta nm sx) r1"
    using steps[OF Cons.prems] by (blast elim: movesE)
  then have "send 12 ch (Some (Event nm)) r = Ret () r1" by (simp add: send_def mbind_eval)
  then show ?case using Cons.IH[OF delta_ok[OF Cons.prems(1)] r1(2)] by (simp add: mbind_eval)
qed (simp add: moves_def)

lemma runs:
  assumes "ok (first x)"
  shows "moves (events_sent ch x nms) (fold delta nms (first x))" "ok (fold delta nms (first x))"
proof -
  obtain c r1 where r1: "start_with 12 ch (CallerParam 0) (console_rt x) = Ret c r1" "resting (first x) r1"
    using begins by (blast elim: movesE)
  then have l: "launch 12 ch (console_rt x) = Ret () r1" by (simp add: launch_def mbind_eval)
  obtain c2 r2 where r2: "for_each nms (\<lambda>nm. send 12 ch (Some (Event nm))) r1 = Ret c2 r2"
      "resting (fold delta nms (first x)) r2"
    using sends_simulate[OF assms r1(2)] by (blast elim: movesE)
  then show "moves (events_sent ch x nms) (fold delta nms (first x))"
    by (simp add: events_sent_def moves_def statements_def mbind_eval l)
  have "ok (fold delta nms sx)" if "ok sx" for sx
    using that by (induction nms arbitrary: sx) (auto simp: delta_ok)
  then show "ok (fold delta nms (first x))" using assms by blast
qed

end

text \<open>A step of a concrete chart, computed; the printed numbers stay as they are.\<close>

lemmas machine_eval = moves_def resting_def rest_def ex_bool_eq console_rt_def base_equals_def event_id.simps
  print_lines_def print_of_def assign_def says_def reports_def sets_def sets_reports_def whenever_def
  no_user_event_def run_defs chart_facts

section \<open>Lane keeping\<close>

text \<open>The state table of the program's header comment, with the lamps each state shows.\<close>

definition lks_flags :: "sid \<Rightarrow> lks_parameter" where
  "lks_flags s =
     (if s = 3 \<or> s = 6 then \<lparr>LED_LKS = True, LED_lane = False, LED_steering = False, servoing = False\<rparr>
      else if s = 4 then \<lparr>LED_LKS = True, LED_lane = True, LED_steering = False, servoing = False\<rparr>
      else if s = 5 then \<lparr>LED_LKS = True, LED_lane = True, LED_steering = True, servoing = True\<rparr>
      else \<lparr>LED_LKS = False, LED_lane = False, LED_steering = False, servoing = False\<rparr>)"

definition lks_next :: "string \<Rightarrow> sid \<Rightarrow> sid" where
  "lks_next nm s =
     (if nm = ''btn_LKS'' then if s = 2 then 3 else 2
      else if nm = ''detect'' \<and> (s = 3 \<or> s = 6) then 4
      else if nm = ''not_detect'' \<and> (s = 4 \<or> s = 5) then 6
      else if nm = ''set'' \<and> s = 4 then 5
      else if nm = ''cancel'' \<and> s = 5 then 4
      else s)"

definition lks_delta :: "string \<Rightarrow> sid \<times> lks_parameter \<Rightarrow> sid \<times> lks_parameter" where
  "lks_delta nm sx = (let s = lks_next nm (fst sx) in (s, if s = fst sx then snd sx else lks_flags s))"

lemma lks_events [case_names button found lost set cancel other]:
  assumes "nm = ''btn_LKS'' \<Longrightarrow> P" "nm = ''detect'' \<Longrightarrow> P" "nm = ''not_detect'' \<Longrightarrow> P"
    "nm = ''set'' \<Longrightarrow> P" "nm = ''cancel'' \<Longrightarrow> P"
    "(\<And>e. e \<in> set [''btn_LKS'', ''detect'', ''not_detect'', ''set'', ''cancel''] \<Longrightarrow> nm \<noteq> e \<and> e \<noteq> nm) \<Longrightarrow> P"
  shows P
  using assms by fastforce

lemmas lks_eval = machine_eval setFlags_def lks_delta_def lks_next_def lks_flags_def

lemma lks_off: "moves (dispatch 12 lane_keeping 0 (Some (Event nm)) q (rest 2 x i a b t u k ls sv)) (lks_delta nm (2, x))"
  by (cases nm rule: lks_events; simp add: lks_eval cong: stop_congs)

lemma lks_on: "moves (dispatch 12 lane_keeping 0 (Some (Event nm)) q (rest 3 x i a b t u k ls sv)) (lks_delta nm (3, x))"
  by (cases nm rule: lks_events; simp add: lks_eval cong: stop_congs)

lemma lks_lane: "moves (dispatch 12 lane_keeping 0 (Some (Event nm)) q (rest 4 x i a b t u k ls sv)) (lks_delta nm (4, x))"
  by (cases nm rule: lks_events; simp add: lks_eval cong: stop_congs)

lemma lks_follow: "moves (dispatch 12 lane_keeping 0 (Some (Event nm)) q (rest 5 x i a b t u k ls sv)) (lks_delta nm (5, x))"
  by (cases nm rule: lks_events; simp add: lks_eval cong: stop_congs)

lemma lks_wait: "moves (dispatch 12 lane_keeping 0 (Some (Event nm)) q (rest 6 x i a b t u k ls sv)) (lks_delta nm (6, x))"
  by (cases nm rule: lks_events; simp add: lks_eval cong: stop_congs)

definition lks_ok :: "sid \<times> lks_parameter \<Rightarrow> bool" where
  "lks_ok sx \<longleftrightarrow> fst sx \<in> {2, 3, 4, 5, 6}"

interpretation lks: machine lane_keeping "\<lambda>x. (2, x)" lks_delta lks_ok
proof
  show "moves (start_with 12 lane_keeping q (console_rt x)) (2, x)" for q x
    by (simp add: lks_eval cong: stop_congs)
next
  fix sx :: "sid \<times> lks_parameter" and r nm q
  assume "lks_ok sx" "resting sx r"
  then show "moves (dispatch 12 lane_keeping 0 (Some (Event nm)) q r) (lks_delta nm sx)"
    by (cases sx) (auto simp: lks_ok_def resting_def lks_off lks_on lks_lane lks_follow lks_wait)
qed (auto simp: lks_ok_def lks_delta_def lks_next_def Let_def)

lemma lks_fold: "fold lks_delta nms (s, lks_flags s) = (fold lks_next nms s, lks_flags (fold lks_next nms s))"
  by (induction nms arbitrary: s) (auto simp: lks_delta_def Let_def)

section \<open>Gumball distributor\<close>

definition gumball_shelf :: "gumball_parameter \<Rightarrow> sid" where
  "gumball_shelf p = (if gumballs p > 0 then 2 else 5)"

definition gumball_delta :: "string \<Rightarrow> sid \<times> gumball_parameter \<Rightarrow> sid \<times> gumball_parameter" where
  "gumball_delta nm sx =
     (if nm = ''insertQuarter'' \<and> fst sx = 2 then (3, snd sx)
      else if nm = ''ejectQuarter'' \<and> fst sx = 3 then (2, snd sx)
      else if nm = ''turnCrank'' \<and> fst sx = 3 then
        let p = (snd sx)\<lparr>gumballs := gumballs (snd sx) - 1\<rparr> in (gumball_shelf p, p)
      else sx)"

definition gumball_ok :: "sid \<times> gumball_parameter \<Rightarrow> bool" where
  "gumball_ok sx \<longleftrightarrow>
     fst sx \<in> {2, 3} \<and> gumballs (snd sx) > 0 \<or> fst sx = 5 \<and> gumballs (snd sx) \<le> 0"

lemmas gumball_eval = machine_eval decrementGumballs_def hasGumballs_def gumball_delta_def gumball_shelf_def

lemma gumball_events [case_names insert eject crank other]:
  assumes "nm = ''insertQuarter'' \<Longrightarrow> P" "nm = ''ejectQuarter'' \<Longrightarrow> P" "nm = ''turnCrank'' \<Longrightarrow> P"
    "(\<And>e. e \<in> set [''insertQuarter'', ''ejectQuarter'', ''turnCrank''] \<Longrightarrow> nm \<noteq> e \<and> e \<noteq> nm) \<Longrightarrow> P"
  shows P
  using assms by fastforce

lemma gumball_begins: "moves (start_with 12 gumball q (console_rt x)) (gumball_shelf x, x)"
  by (cases "gumballs x > 0"; simp add: gumball_eval cong: stop_congs)

lemma gumball_waiting:
  "moves (dispatch 12 gumball 0 (Some (Event nm)) q (rest 2 x i a b t u k ls sv)) (gumball_delta nm (2, x))"
  by (cases nm rule: gumball_events; simp add: gumball_eval cong: stop_congs)

lemma gumball_paid:
  "moves (dispatch 12 gumball 0 (Some (Event nm)) q (rest 3 x i a b t u k ls sv)) (gumball_delta nm (3, x))"
  by (cases "gumballs x > 1"; cases nm rule: gumball_events; simp add: gumball_eval cong: stop_congs)

lemma gumball_empty:
  "moves (dispatch 12 gumball 0 (Some (Event nm)) q (rest 5 x i a b t u k ls sv)) (gumball_delta nm (5, x))"
  by (cases nm rule: gumball_events; simp add: gumball_eval cong: stop_congs)

interpretation gumball_machine: machine gumball "\<lambda>x. (gumball_shelf x, x)" gumball_delta gumball_ok
proof
  fix sx :: "sid \<times> gumball_parameter" and r nm q
  assume "gumball_ok sx" "resting sx r"
  then show "moves (dispatch 12 gumball 0 (Some (Event nm)) q r) (gumball_delta nm sx)"
    by (cases sx) (auto simp: gumball_ok_def resting_def gumball_waiting gumball_paid gumball_empty)
next
  show "moves (start_with 12 gumball q (console_rt x)) (gumball_shelf x, x)" for q x
    by (rule gumball_begins)
next
  show "gumball_ok sx \<Longrightarrow> gumball_ok (gumball_delta nm sx)" for sx nm
    by (simp add: gumball_ok_def gumball_delta_def gumball_shelf_def Let_def split: if_split_asm) arith?
qed

lemma gumball_fold:
  "gumballs (snd (fold gumball_delta nms sx)) \<le> gumballs (snd sx)"
proof (induction nms arbitrary: sx)
  case (Cons nm nms)
  have "gumballs (snd (gumball_delta nm sx)) \<le> gumballs (snd sx)"
    by (simp add: gumball_delta_def Let_def)
  then show ?case using Cons[of "gumball_delta nm sx"] by simp
qed simp

definition gumball_stocked :: "sid \<times> gumball_parameter \<Rightarrow> bool" where
  "gumball_stocked sx \<longleftrightarrow> fst sx \<in> {2, 3} \<and> gumballs (snd sx) > 0 \<or> fst sx = 5 \<and> gumballs (snd sx) = 0"

lemma gumball_stocked_fold: "gumball_stocked sx \<Longrightarrow> gumball_stocked (fold gumball_delta nms sx)"
proof (induction nms arbitrary: sx)
  case (Cons nm nms)
  have "gumball_stocked (gumball_delta nm sx)"
    using Cons.prems by (simp add: gumball_stocked_def gumball_delta_def gumball_shelf_def Let_def split: if_split_asm) arith?
  then show ?case using Cons.IH by simp
qed simp

section \<open>Rich man\<close>

definition richman_delta :: "string \<Rightarrow> sid \<times> richman_parameter \<Rightarrow> sid \<times> richman_parameter" where
  "richman_delta nm sx =
     (if nm = ''getQuarter'' \<and> quarters (snd sx) < 10
      then (fst sx, (snd sx)\<lparr>quarters := quarters (snd sx) + 1\<rparr>) else sx)"

definition richman_ok :: "sid \<times> richman_parameter \<Rightarrow> bool" where
  "richman_ok sx \<longleftrightarrow> fst sx = 2 \<and> 0 \<le> quarters (snd sx) \<and> quarters (snd sx) \<le> 10"

lemmas richman_eval = machine_eval incrementQuarters_def resetQuarters_def quartersLessThan_def
  quartersEqualsTo_def quartersGreaterThan_def richman_delta_def

lemma richman_first:
  "quarters x = 0 \<Longrightarrow>
   moves (dispatch 12 richman 0 (Some (Event nm)) q (rest 2 x i a b t u k ls sv)) (richman_delta nm (2, x))"
  by (cases "nm = ''getQuarter''"; simp add: richman_eval cong: stop_congs)

lemma richman_more:
  "0 < quarters x \<Longrightarrow> quarters x < 10 \<Longrightarrow>
   moves (dispatch 12 richman 0 (Some (Event nm)) q (rest 2 x i a b t u k ls sv)) (richman_delta nm (2, x))"
  by (cases "nm = ''getQuarter''"; simp add: richman_eval cong: stop_congs)

lemma richman_rich:
  "quarters x = 10 \<Longrightarrow>
   moves (dispatch 12 richman 0 (Some (Event nm)) q (rest 2 x i a b t u k ls sv)) (richman_delta nm (2, x))"
  by (cases "nm = ''getQuarter''"; simp add: richman_eval cong: stop_congs)

interpretation richman_machine: machine richman "\<lambda>x. (2, x\<lparr>quarters := 0\<rparr>)" richman_delta richman_ok
proof
  show "moves (start_with 12 richman q (console_rt x)) (2, x\<lparr>quarters := 0\<rparr>)" for q x
    by (simp add: richman_eval cong: stop_congs)
next
  fix sx :: "sid \<times> richman_parameter" and r nm q
  assume "richman_ok sx" "resting sx r"
  moreover have "quarters (snd sx) = 0 \<or> 0 < quarters (snd sx) \<and> quarters (snd sx) < 10 \<or> quarters (snd sx) = 10"
    if "richman_ok sx" using that by (auto simp: richman_ok_def)
  ultimately show "moves (dispatch 12 richman 0 (Some (Event nm)) q r) (richman_delta nm sx)"
    by (cases sx) (auto simp: richman_ok_def resting_def richman_first richman_more richman_rich)
qed (auto simp: richman_ok_def richman_delta_def)

lemma richman_fold:
  "quarters x \<le> 10 \<Longrightarrow> fst (fold richman_delta nms (s, x)) = s \<and>
   quarters (snd (fold richman_delta nms (s, x))) = min 10 (quarters x + int (count_list nms ''getQuarter''))"
proof (induction nms arbitrary: x)
  case (Cons nm nms)
  show ?case
  proof (cases "nm = ''getQuarter'' \<and> quarters x < 10")
    case True
    then have "richman_delta nm (s, x) = (s, x\<lparr>quarters := quarters x + 1\<rparr>)" by (simp add: richman_delta_def)
    then show ?thesis using Cons.IH[of "x\<lparr>quarters := quarters x + 1\<rparr>"] True by simp
  next
    case False
    then have "richman_delta nm (s, x) = (s, x)" by (auto simp: richman_delta_def)
    then show ?thesis using Cons.IH[OF Cons.prems] False Cons.prems by auto
  qed
qed simp

section \<open>Digital watch\<close>

definition watch_first :: "watch_parameter \<Rightarrow> sid \<times> watch_parameter" where
  "watch_first x = (if hours x = 0 \<and> minutes x = 0 then 3 else 2, x)"

definition watch_delta :: "string \<Rightarrow> sid \<times> watch_parameter \<Rightarrow> sid \<times> watch_parameter" where
  "watch_delta nm sx =
     (if nm = ''set'' then (if fst sx = 2 then 3 else if fst sx = 3 then 4 else 2, snd sx)
      else if nm = ''incr'' \<and> fst sx = 3 then (3, (snd sx)\<lparr>hours := (hours (snd sx) + 1) mod 24\<rparr>)
      else if nm = ''incr'' \<and> fst sx = 4 then (4, (snd sx)\<lparr>minutes := (minutes (snd sx) + 1) mod 60\<rparr>)
      else sx)"

definition watch_ok :: "sid \<times> watch_parameter \<Rightarrow> bool" where
  "watch_ok sx \<longleftrightarrow> fst sx \<in> {2, 3, 4}"

lemmas watch_eval = machine_eval beep_def incrementHours_def incrementMinutes_def timeIsZero_def
  watch_delta_def watch_first_def

lemma watch_begins: "moves (start_with 12 digital_watch q (console_rt x)) (watch_first x)"
  by (cases "hours x = 0"; cases "minutes x = 0"; simp add: watch_eval cong: stop_congs)

lemma watch_events [case_names set incr other]:
  assumes "nm = ''set'' \<Longrightarrow> P" "nm = ''incr'' \<Longrightarrow> P"
    "(\<And>e. e \<in> set [''set'', ''incr''] \<Longrightarrow> nm \<noteq> e \<and> e \<noteq> nm) \<Longrightarrow> P"
  shows P
  using assms by fastforce

lemma watch_idle:
  "moves (dispatch 12 digital_watch 0 (Some (Event nm)) q (rest 2 x i a b t u k ls sv)) (watch_delta nm (2, x))"
  by (cases nm rule: watch_events; simp add: watch_eval cong: stop_congs)

lemma watch_hours:
  "moves (dispatch 12 digital_watch 0 (Some (Event nm)) q (rest 3 x i a b t u k ls sv)) (watch_delta nm (3, x))"
  by (cases nm rule: watch_events; simp add: watch_eval cong: stop_congs)

lemma watch_minutes:
  "moves (dispatch 12 digital_watch 0 (Some (Event nm)) q (rest 4 x i a b t u k ls sv)) (watch_delta nm (4, x))"
  by (cases nm rule: watch_events; simp add: watch_eval cong: stop_congs)

interpretation watch: machine digital_watch watch_first watch_delta watch_ok
proof
  fix sx :: "sid \<times> watch_parameter" and r nm q
  assume "watch_ok sx" "resting sx r"
  then show "moves (dispatch 12 digital_watch 0 (Some (Event nm)) q r) (watch_delta nm sx)"
    by (cases sx) (auto simp: watch_ok_def resting_def watch_idle watch_hours watch_minutes)
qed (auto simp: watch_begins watch_ok_def watch_delta_def)

lemma watch_fold:
  "hours (snd sx) \<in> {0..<24} \<and> minutes (snd sx) \<in> {0..<60} \<Longrightarrow>
   hours (snd (fold watch_delta nms sx)) \<in> {0..<24} \<and> minutes (snd (fold watch_delta nms sx)) \<in> {0..<60}"
proof (induction nms arbitrary: sx)
  case (Cons nm nms)
  have "hours (snd (watch_delta nm sx)) \<in> {0..<24} \<and> minutes (snd (watch_delta nm sx)) \<in> {0..<60}"
    using Cons.prems by (simp add: watch_delta_def)
  then show ?case using Cons.IH[of "watch_delta nm sx"] by simp
qed simp

end
