(* ===== verification/Firing.thy ===== *)
theory Firing
  imports Runs
begin

text \<open>
  Which transition an event fires, and what firing it does to the configuration.  The reference
  (\<open>select\<close>) looks at the active states from the innermost one outwards and fires the first
  transition that is enabled; \<open>dispatch_path\<close> says that the nested calls of
  \<open>HierarchicalState::dispatch\<close> and \<open>State::dispatch\<close> do the same.
\<close>

section \<open>The active states are nested\<close>

lemma under_child_of:
  assumes "under ch p y" "y \<noteq> p"
  obtains z where "parent_of ch z = Some p" "under ch z y"
  using assms
proof (induction arbitrary: thesis rule: under.induct)
  case (step s q)
  show ?case
  proof (cases "q = p")
    case True
    then show ?thesis using step.prems(1)[of s] step.hyps(1) by simp
  next
    case False
    then obtain z where "parent_of ch z = Some p" "under ch z q" using step.IH by blast
    then show ?thesis using step.prems(1) under.step[OF step.hyps(1)] by blast
  qed
qed simp

lemma config_chain:
  assumes wf: "wf_tree ch" and t: "tidy ch r" and c: "config ch r"
    and y: "isActive r y" "\<not> is_history (kind_of ch y)"
  shows "isActive r x \<Longrightarrow> \<not> is_history (kind_of ch x) \<Longrightarrow> under ch x y \<or> under ch y x"
proof (induction x rule: less_induct)
  case (less x)
  note lt = tidy_active[OF t less.prems(1)] tidy_active[OF t y(1)]
  show ?case
  proof (cases "x = 0")
    case True
    have "under ch 0 z" if "z < n_states ch" for z
      using that
    proof (induction z rule: less_induct)
      case (less z)
      show ?case
      proof (cases "z = 0")
        case False
        then obtain p where "parent_of ch z = Some p" "p < z" using wf_parent_ex[OF wf less.prems] by blast
        then show ?thesis using less by (auto intro: under.step)
      qed simp
    qed
    then show ?thesis using True lt(2) by simp
  next
    case False
    then obtain p where p: "parent_of ch x = Some p" "isActive r p"
      using c less.prems by (auto simp: config_def)
    have px: "p < x" "\<not> is_history (kind_of ch p)"
      using wf_parent(1,2)[OF wf lt(1) p(1)] by (auto elim: is_context.elims)
    consider "under ch y p" | "under ch p y" "y \<noteq> p" using less.IH[OF px(1) p(2) px(2)] by auto
    then show ?thesis
    proof cases
      case 1
      then show ?thesis using under.step[OF p(1)] by blast
    next
      case 2
      obtain z where z: "parent_of ch z = Some p" "under ch z y" by (rule under_child_of[OF 2])
      have az: "isActive r z" using config_ancestors[OF wf t c z(2) y] by blast
      have "current_of r p = Some z" using config_ancestors[OF wf t c z(2) y] z(1) by blast
      moreover have "current_of r p = Some x"
        using config_ancestors[OF wf t c under.refl less.prems] p(1) by blast
      ultimately show ?thesis using z(2) by simp
    qed
  qed
qed

section \<open>The configuration after a transition\<close>

text \<open>The states left and the states entered are different ones, unless the transition is a loop on its source.\<close>

lemma regular_lists_disjoint:
  assumes wf: "wf_tree ch" "wf_transitions ch" and s: "0 < s" "s < n_states ch"
    and t: "t \<in> set (transitions (obj ch s))" "\<not> tr_internal (trans ch t)"
    and ne: "tr_deactivate (trans ch t) \<noteq> []" "tr_activate (trans ch t) \<noteq> []"
    and st: "s \<noteq> last (tr_activate (trans ch t))"
  shows "set (tr_deactivate (trans ch t)) \<inter> set (tr_activate (trans ch t)) = {}"
proof -
  let ?D = "tr_deactivate (trans ch t)" and ?A = "tr_activate (trans ch t)"
  have "lists_ok ch (\<lambda>a. a = Some s) (trans ch t)" using wf(2) s t(1) by (auto simp: wf_transitions_def)
  then obtain b where b: "ptr_ok ch b" "(?D, ?A) = calculateStateSet ch (Some s) b"
    using t(2) by (auto simp: lists_ok_def)
  then obtain e where e: "b = Some e" "e < n_states ch"
    using ne(2) lists_within(2)[OF b(2)] by (cases b) (auto simp: ptr_ok_def)
  have "s \<noteq> e"
    using st b(2) e(1) calculateStateSet_self[OF wf(1) s(2)] by auto
  let ?P = "path_to ch (Some s)" and ?P' = "path_to ch (Some e)"
  have "set (drop (common_prefix ?P' ?P) ?P) \<inter> set (drop (common_prefix ?P' ?P) ?P') = {}"
    by (rule path_tails_disjoint) (rule path_to_ancestry[OF wf(1) s(2)] path_to_ancestry[OF wf(1) e(2)])+
  then show ?thesis
    using b(2) e(1) \<open>s \<noteq> e\<close> by (simp add: calculateStateSet_paths Let_def)
qed

lemma arrived_configuration:
  assumes S: "assured nr True ch rk R" and s: "0 < s" "s < n_states ch"
    and t: "t \<in> set (transitions (obj ch s))" "\<not> tr_internal (trans ch t)"
    and a: "arrived True ch t r'" and nh: "\<not> is_history (kind_of ch (last (tr_activate (trans ch t))))"
  shows "under ch x (last (tr_activate (trans ch t))) \<Longrightarrow>
      isActive r' x \<and> (\<forall>y. parent_of ch x = Some y \<longrightarrow> current_of r' y = Some x)"
    and "s \<noteq> last (tr_activate (trans ch t)) \<Longrightarrow> under ch (last (tr_deactivate (trans ch t))) x \<Longrightarrow>
      \<not> is_history (kind_of ch x) \<Longrightarrow> \<not> isActive r' x"
proof -
  let ?D = "tr_deactivate (trans ch t)" and ?A = "tr_activate (trans ch t)"
  note wf = assuredD(1,3)[OF S]
  have c: "config ch r'" "tidy ch r'" "isActive r' (last ?A)" using a by (simp_all add: arrived_def sound_def)
  note up = config_ancestors[OF wf(1) c(2,1)]
  show "isActive r' x \<and> (\<forall>y. parent_of ch x = Some y \<longrightarrow> current_of r' y = Some x)"
    if "under ch x (last ?A)"
    by (rule up[OF that c(3) nh])
  assume st: "s \<noteq> last ?A" and x: "under ch (last ?D) x" "\<not> is_history (kind_of ch x)"
  have ne: "?D \<noteq> []" "?A \<noteq> []" "0 \<notin> set ?A"
    using assuredD(6)[OF S] s(2) t unfolding regular_def by blast+
  obtain q where q: "linked ch q (rev ?D)" "linked ch q ?A" by (rule regular_lists[OF wf s t ne])
  have pd: "parent_of ch (last ?D) = Some q" using q(1) ne(1) by (cases "rev ?D") (auto simp: rev_swap)
  have pa: "parent_of ch (hd ?A) = Some q" and ua: "under ch (hd ?A) (last ?A)"
    using q(2) ne(2) linked_under[of ch "hd ?A" "tl ?A"] by (cases ?A; auto)+
  have "hd ?A \<noteq> last ?D"
    using regular_lists_disjoint[OF wf s t ne(1,2) st] ne(1,2) by (metis disjoint_iff hd_in_set last_in_set)
  then show "\<not> isActive r' x"
    using up[OF x(1) _ x(2)] up[OF ua c(3) nh] pd pa by fastforce
qed


section \<open>Which transition an event fires\<close>

text \<open>The trigger matches, the guard accepts, and the way through the pseudo-states is free.\<close>

definition can_fire :: "'e chart \<Rightarrow> 'e vtable \<Rightarrow> event option \<Rightarrow> pref \<Rightarrow> 'e rt \<Rightarrow> tid \<Rightarrow> bool" where
  "can_fire ch V ev p r t \<longleftrightarrow> triggered ch (trans ch t) ev p r \<and>
     (case allowed ch V t p r of Ret b _ \<Rightarrow> b | _ \<Rightarrow> False)"

text \<open>What firing does: leave the source side, act, enter the target side; nothing but the action when internal.\<close>

definition fire :: "'e chart \<Rightarrow> 'e vtable \<Rightarrow> pref \<Rightarrow> tid \<Rightarrow> (bool, 'e rt) prog" where
  "fire ch V p t =
     (let leave = (if tr_internal (trans ch t) then [] else tr_deactivate (trans ch t));
          enter = (if tr_internal (trans ch t) then [] else tr_activate (trans ch t))
      in mbind (for_each leave (\<lambda>s. v_deactivate V s p)) (\<lambda>_.
         mbind (mcall (tr_action (trans ch t)) p) (\<lambda>_.
         mbind (activate_list ch V p enter) (\<lambda>_.
         mret True))))"

text \<open>
  The transitions that may answer an event: a composite state offers those without trigger only
  once its final state is current.
\<close>

definition candidates :: "'e chart \<Rightarrow> 'e rt \<Rightarrow> sid \<Rightarrow> tid list" where
  "candidates ch r s =
     (let completed = (case current_of r s of None \<Rightarrow> False | Some c \<Rightarrow> kind_of ch c = Final)
      in filter (\<lambda>t. kind_of ch s = Hierarchical \<and> \<not> completed \<longrightarrow> tr_event (trans ch t) \<noteq> None)
           (transitions (obj ch s)))"

text \<open>The first enabled transition of the innermost state of a path that has one; the path is given from the outside in.\<close>

definition select :: "'e chart \<Rightarrow> 'e vtable \<Rightarrow> event option \<Rightarrow> pref \<Rightarrow> sid list \<Rightarrow> (bool, 'e rt) prog" where
  "select ch V ev p xs r =
     (case List.find (can_fire ch V ev p r) (concat (map (candidates ch r) (rev xs))) of
        None \<Rightarrow> Ret False r
      | Some t \<Rightarrow> fire ch V p t r)"

text \<open>The states that use \<open>State::dispatch\<close> for their events, and the path of current states from \<open>q\<close> down to one of them.\<close>

fun plain :: "kind \<Rightarrow> bool" where
  "plain Simple = True"
| "plain Final = True"
| "plain (Pseudo ty) = (ty = Start \<or> ty = Junction \<or> ty = Join)"
| "plain _ = False"

fun active_path :: "'e chart \<Rightarrow> 'e rt \<Rightarrow> sid \<Rightarrow> sid list \<Rightarrow> bool" where
  "active_path ch r q [] \<longleftrightarrow> False"
| "active_path ch r q [c] \<longleftrightarrow> isActive r q \<and> current_of r q = Some c \<and> plain (kind_of ch c)"
| "active_path ch r q (c # d # ds) \<longleftrightarrow>
     isActive r q \<and> current_of r q = Some c \<and> kind_of ch c = Hierarchical \<and> active_path ch r c (d # ds)"

text \<open>No active composite state of the path is completed: its current state is not a final one.\<close>

definition settled :: "'e chart \<Rightarrow> sid list \<Rightarrow> 'e rt \<Rightarrow> bool" where
  "settled ch xs r \<longleftrightarrow> (\<forall>s \<in> set xs. isActive r s \<and> kind_of ch s = Hierarchical \<longrightarrow>
     (\<forall>c. current_of r s = Some c \<longrightarrow> kind_of ch c \<noteq> Final))"

section \<open>The dispatch finds it\<close>

lemma find_append: "List.find P (xs @ ys) = (case List.find P xs of None \<Rightarrow> List.find P ys | Some x \<Rightarrow> Some x)"
  by (induction xs) auto

lemma for_until_find:
  assumes "\<And>x. x \<in> set xs \<Longrightarrow> body x r = (if P x then act x r else Ret False r)"
    and "\<And>x r'. act x r \<noteq> Ret False r'"
  shows "for_until xs body r = (case List.find P xs of None \<Rightarrow> Ret False r | Some x \<Rightarrow> act x r)"
  using assms(1)
proof (induction xs)
  case (Cons x xs)
  show ?case
  proof (cases "P x")
    case True
    have "mbind (act x) (\<lambda>b. if b then mret True else for_until xs body) r = act x r"
      using assms(2)[of x] by (auto simp: mbind_def split: outcome.split)
    moreover have "body x r = act x r" using Cons.prems[of x] True by simp
    ultimately show ?thesis using True by (simp add: mbind_def)
  next
    case False
    then have "body x r = Ret False r" using Cons.prems[of x] by simp
    then show ?thesis using Cons False by (simp add: mbind_def)
  qed
qed simp

lemma fire_not_False: "fire ch V p t r \<noteq> Ret False r'"
  by (auto simp: fire_def Let_def mbind_def split: outcome.splits)

lemma execute_fire:
  "execute ch V t ev p =
    mbind (mget (triggered ch (trans ch t) ev p)) (\<lambda>trig.
    if \<not> trig then mret False
    else mbind (allowed ch V t p) (\<lambda>ok. if \<not> ok then mret False else fire ch V p t))"
proof (cases "tr_internal (trans ch t)")
  case True
  then have "fire ch V p t = mbind (mcall (tr_action (trans ch t)) p) (\<lambda>_. mret True)"
    by (simp add: fire_def)
  then show ?thesis using True by (simp add: execute_def InternalTransition_execute_def allowed_def cong: if_cong)
next
  case False
  then show ?thesis by (simp add: execute_def Transition_execute_def allowed_def fire_def cong: if_cong)
qed

lemma execute_can_fire:
  assumes "allowed ch V t p r = Ret b r"
  shows "execute ch V t ev p r = (if can_fire ch V ev p r t then fire ch V p t r else Ret False r)"
  using assms by (simp add: execute_fire can_fire_def mbind_def)

lemma allowed_returns:
  assumes S: "assured False True ch rk R" and k: "R < k"
    and s: "s < n_states ch" "t \<in> set (transitions (obj ch s))"
  obtains b where "allowed ch (vcalls k ch) t p r = Ret b r"
proof -
  let ?A = "tr_activate (trans ch t)"
  have "rk (last ?A) < k" if A: "?A \<noteq> []" "is_pseudo (kind_of ch (last ?A))"
  proof -
    have "lists_ok ch (\<lambda>a. a = Some s) (trans ch t)"
      using assuredD(3)[OF S] s by (auto simp: wf_transitions_def)
    then have "last ?A < n_states ch" using lists_bounds[OF assuredD(1)[OF S]] last_in_set[OF A(1)] by blast
    then show ?thesis using assuredD(8)[OF S] A(2) k by (fastforce simp: ranked_def)
  qed
  then have "wp False False (allowed ch (vcalls k ch) t p) (\<lambda>_ r'. r' = r) (\<lambda>_ _. False) r"
    by (intro wp_allowed[OF S look_spec_vcalls[OF S] s]) auto
  then show thesis using that by (auto simp: wp_def split: outcome.splits)
qed

lemma execute_level:
  assumes S: "assured False True ch rk R" and k: "n_states ch < k" "R < k" "k \<le> m"
    and s: "0 < s" "s < n_states ch" "t \<in> set (transitions (obj ch s))"
    and I: "sound True ch r" "onpath ch s r"
  shows "execute ch (vcalls m ch) t ev p r =
    (if can_fire ch (vcalls k ch) ev p r t then fire ch (vcalls k ch) p t r else Ret False r)"
proof -
  have "wp False False (execute ch (vcalls k ch) t ev p)
      (\<lambda>b r'. if b then sound True ch r' else r' = r) (\<lambda>_ r'. sound True ch r') r"
    by (rule wp_execute[OF S deact_spec_vcalls[OF S] act_spec_vcalls[OF S] look_spec_vcalls[OF S] s])
      (use k I in simp_all)
  then have "execute ch (vcalls k ch) t ev p r \<noteq> NoReturn" by (rule wp_returns)
  then have "execute ch (vcalls m ch) t ev p r = execute ch (vcalls k ch) t ev p r"
    by (rule le_progD[OF mono_execute[OF vle_vcalls[OF k(3)]]])
  moreover obtain b where "allowed ch (vcalls k ch) t p r = Ret b r"
    by (rule allowed_returns[OF S k(2) s(2,3)])
  ultimately show ?thesis by (simp add: execute_can_fire)
qed

lemma hierarchical_transitions_filter:
  assumes "\<And>t. t \<in> set ts \<Longrightarrow> tr_event (trans ch t) = None \<Longrightarrow>
      fin \<Longrightarrow> execute ch V t None p r = execute ch V t ev p r"
    and "\<And>t. t \<in> set ts \<Longrightarrow> execute ch V t ev p r = (if P t then act t r else Ret False r)"
    and "\<And>t r'. act t r \<noteq> Ret False r'"
  shows "for_until ts (hierarchical_transition ch V fin ev p) r =
    (case List.find P (filter (\<lambda>t. \<not> fin \<longrightarrow> tr_event (trans ch t) \<noteq> None) ts) of
       None \<Rightarrow> Ret False r | Some t \<Rightarrow> act t r)"
proof -
  let ?Q = "\<lambda>t. P t \<and> (\<not> fin \<longrightarrow> tr_event (trans ch t) \<noteq> None)"
  have "hierarchical_transition ch V fin ev p t r = (if ?Q t then act t r else Ret False r)"
    if t: "t \<in> set ts" for t
    using assms(1)[OF t] assms(2)[OF t] assms(3)[of t]
    by (auto simp: hierarchical_transition_def mbind_def split: outcome.split)
  then have "for_until ts (hierarchical_transition ch V fin ev p) r =
      (case List.find ?Q ts of None \<Rightarrow> Ret False r | Some t \<Rightarrow> act t r)"
    using assms(3) by (intro for_until_find[where P = ?Q and act = act])
  moreover have "List.find ?Q ts = List.find P (filter (\<lambda>t. \<not> fin \<longrightarrow> tr_event (trans ch t) \<noteq> None) ts)"
    by (induction ts) auto
  ultimately show ?thesis by simp
qed

lemma triggerless_event: "tr_event (trans ch t) = None \<Longrightarrow> execute ch V t ev p = execute ch V t ev' p"
proof -
  assume "tr_event (trans ch t) = None"
  then have "triggered ch (trans ch t) ev p = triggered ch (trans ch t) ev' p" for p
    by (simp add: fun_eq_iff triggered_def)
  then show ?thesis by (simp add: execute_def Transition_execute_def InternalTransition_execute_def)
qed

lemma dispatch_plain:
  assumes S: "assured False True ch rk R" and k: "n_states ch < k" "R < k" "k \<le> m"
    and s: "0 < s" "s < n_states ch" "plain (kind_of ch s)" and I: "sound True ch r" "onpath ch s r"
  shows "dispatch (Suc m) ch s ev p r = select ch (vcalls k ch) ev p [s] r"
proof -
  have "dispatch (Suc m) ch s ev p r = State_dispatch ch (vcalls m ch) s ev p r"
    using s(3) by (cases "kind_of ch s")
      (auto simp: dispatch_def vstep_def call_dispatch_def PseudoState_dispatch_def)
  also have "\<dots> = (case List.find (can_fire ch (vcalls k ch) ev p r) (transitions (obj ch s)) of
      None \<Rightarrow> Ret False r | Some t \<Rightarrow> fire ch (vcalls k ch) p t r)"
    unfolding State_dispatch_def
    using execute_level[OF S k s(1,2) _ I] fire_not_False by (intro for_until_find) fast+
  also have "\<dots> = select ch (vcalls k ch) ev p [s] r"
  proof -
    have "candidates ch r s = transitions (obj ch s)"
      using s(3) by (cases "kind_of ch s") (simp_all add: candidates_def)
    then show ?thesis by (simp add: select_def)
  qed
  finally show ?thesis .
qed

lemma own_transitions:
  assumes S: "assured False True ch rk R" and k: "n_states ch < k" "R < k" "k \<le> m"
    and s: "0 < s" "s < n_states ch" "kind_of ch s = Hierarchical" "current_of r s = Some d"
    and I: "sound True ch r" "onpath ch s r"
  shows "for_until (transitions (obj ch s)) (hierarchical_transition ch (vcalls m ch) (kind_of ch d = Final) ev p) r =
    select ch (vcalls k ch) ev p [s] r"
proof -
  have "for_until (transitions (obj ch s)) (hierarchical_transition ch (vcalls m ch) (kind_of ch d = Final) ev p) r =
    (case List.find (can_fire ch (vcalls k ch) ev p r)
        (filter (\<lambda>t. \<not> kind_of ch d = Final \<longrightarrow> tr_event (trans ch t) \<noteq> None) (transitions (obj ch s))) of
       None \<Rightarrow> Ret False r | Some t \<Rightarrow> fire ch (vcalls k ch) p t r)"
  proof (rule hierarchical_transitions_filter)
    show "execute ch (vcalls m ch) t None p r = execute ch (vcalls m ch) t ev p r"
      if "tr_event (trans ch t) = None" for t
      by (simp only: triggerless_event[OF that, of _ None p ev])
  qed (rule execute_level[OF S k s(1,2) _ I] fire_not_False; assumption)+
  then show ?thesis using s(3,4) by (simp add: select_def candidates_def Let_def)
qed

lemma select_append:
  "select ch V ev p (xs @ ys) r =
    (case List.find (can_fire ch V ev p r) (concat (map (candidates ch r) (rev ys))) of
       None \<Rightarrow> select ch V ev p xs r | Some t \<Rightarrow> fire ch V p t r)"
  by (simp add: select_def find_append split: option.split)

lemma select_not_False: "select ch V ev p xs r = Ret False r' \<Longrightarrow> r' = r"
  by (auto simp: select_def fire_not_False split: option.splits)

lemma HierarchicalState_dispatch_started:
  assumes "isActive r s" "current_of r s = Some d"
  shows "HierarchicalState_dispatch ch V s ev p r =
    mbind (v_dispatch V d ev p) (\<lambda>handled.
      mbind (mget (\<lambda>r. (isActive r s, current_of r s))) (\<lambda>(still, current).
       if \<not> still then mret handled
       else
         (let currentIsFinal = (case current of None \<Rightarrow> False | Some c \<Rightarrow> kind_of ch c = Final)
          in if handled \<and> \<not> currentIsFinal then mret handled
             else for_until (transitions (obj ch s))
                    (hierarchical_transition ch V currentIsFinal ev p)))) r"
proof -
  obtain d0 where "getData r s = Some d0" "currentState d0 = Some d"
    using assms(2) by (auto simp: current_of_def split: option.splits)
  then show ?thesis
    using assms by (simp add: HierarchicalState_dispatch_def split: option.split)
qed

text \<open>
  From the inside out: the own transitions of a composite state are looked at when no state inside of it has an
  enabled one.
\<close>

lemma dispatch_composite:
  assumes c: "isActive r c" "current_of r c = Some d" and own: "for_until (transitions (obj ch c))
      (hierarchical_transition ch V (kind_of ch d = Final) ev p) r = own"
    and inner: "v_dispatch V d ev p r = o1" "\<And>r'. o1 = Ret False r' \<Longrightarrow> r' = r"
    and settled: "\<And>r'. o1 = Ret True r' \<Longrightarrow> isActive r' c \<Longrightarrow>
      (\<forall>x. current_of r' c = Some x \<longrightarrow> kind_of ch x \<noteq> Final)"
  shows "HierarchicalState_dispatch ch V c ev p r = (case o1 of Ret False _ \<Rightarrow> own | _ \<Rightarrow> o1)"
proof (cases o1)
  case (Ret b r1)
  show ?thesis
  proof (cases b)
    case True
    have "\<not> (case current_of r1 c of None \<Rightarrow> False | Some x \<Rightarrow> kind_of ch x = Final)" if "isActive r1 c"
      using settled[of r1] Ret True that by (auto split: option.splits)
    then show ?thesis
      using Ret True inner(1) by (simp add: HierarchicalState_dispatch_started[OF c] Let_def)
  next
    case False
    then have "r1 = r" using inner(2) Ret by simp
    then show ?thesis
      using Ret False inner(1) own c by (simp add: HierarchicalState_dispatch_started[OF c])
  qed
qed (use inner(1) in \<open>simp_all add: HierarchicalState_dispatch_started[OF c]\<close>)

lemma dispatch_path:
  assumes S: "assured False True ch rk R" and k: "n_states ch < k" "R < k" and I: "sound True ch r"
  shows "active_path ch r q xs \<Longrightarrow> k + length xs \<le> m \<Longrightarrow>
    (\<And>r'. select ch (vcalls k ch) ev p xs r = Ret True r' \<Longrightarrow> settled ch xs r') \<Longrightarrow>
    dispatch m ch (hd xs) ev p r = select ch (vcalls k ch) ev p xs r"
proof (induction xs arbitrary: q m)
  case (Cons c cs)
  let ?V = "vcalls k ch"
  obtain m' where m: "m = Suc m'" "k \<le> m'" using Cons.prems(2) by (cases m) auto
  have q: "isActive r q" "current_of r q = Some c" using Cons.prems(1) by (cases cs; simp)+
  then have c: "c < n_states ch" "parent_of ch c = Some q" using tidy_current[OF sound_tidy[OF I]] by blast+
  then have c0: "0 < c" using wf_parent(3)[OF assuredD(1)[OF S]] by blast
  have on: "onpath ch c r" using q c by (auto simp: onpath_def)
  show ?case
  proof (cases cs)
    case Nil
    then show ?thesis
      using dispatch_plain[OF S k m(2) c0 c(1) _ I on] Cons.prems(1) m(1) by simp
  next
    case (Cons d ds)
    note path = Cons.prems(1)[unfolded Cons active_path.simps]
    let ?inner = "select ch ?V ev p cs r"
    have cur: "isActive r c" "current_of r c = Some d" "active_path ch r c cs"
      using path Cons by (cases ds; simp)+
    have sel: "select ch ?V ev p (c # cs) r = (case ?inner of Ret False _ \<Rightarrow> select ch ?V ev p [c] r | _ \<Rightarrow> ?inner)"
      using select_append[of ch ?V ev p "[c]" cs r] fire_not_False[of ch ?V p]
      by (auto simp: select_def split: option.split outcome.split bool.split)
    have settled: "settled ch (c # cs) r'" if "?inner = Ret True r'" for r'
      using Cons.prems(3) sel that by simp
    have "dispatch m' ch (hd cs) ev p r = ?inner"
      by (rule Cons.IH[OF cur(3)]) (use Cons.prems(2) m settled in \<open>auto simp: settled_def\<close>)
    then have inner: "v_dispatch (vcalls m' ch) d ev p r = ?inner" using Cons by (simp add: dispatch_def)
    have "dispatch m ch c ev p r = HierarchicalState_dispatch ch (vcalls m' ch) c ev p r"
      using path by (simp add: m(1) dispatch_def vstep_def call_dispatch_def)
    also have "\<dots> = (case ?inner of Ret False _ \<Rightarrow> select ch ?V ev p [c] r | _ \<Rightarrow> ?inner)"
      by (rule dispatch_composite[OF cur(1,2) own_transitions[OF S k m(2) c0 c(1) _ cur(2) I on] inner])
        (use path select_not_False settled in \<open>auto simp: settled_def\<close>)
    finally show ?thesis using sel by simp
  qed
qed simp

end
