(* ===== verification/Concurrency.thy ===== *)
theory Concurrency
  imports Firing Building
begin

text \<open>
  Joins and regions.  A join knows every transition that leads to it, and a transition into it fires
  only when the source state of each of them is active and its guard accepts.  A concurrent state
  offers an event to its regions in order, as long as it is active, and looks at its own transitions
  when no region took the event.
\<close>

section \<open>A join knows its incoming transitions\<close>

definition joins_known :: "'e chart \<Rightarrow> bool" where
  "joins_known ch \<longleftrightarrow> (\<forall>t < length (ownedTransitions ch). \<forall>j.
     tr_activate (trans ch t) \<noteq> [] \<and> j = last (tr_activate (trans ch t)) \<longrightarrow>
     j < n_states ch \<and> (kind_of ch j = Pseudo Join \<longrightarrow> t \<in> set (incoming (obj ch j))))"

lemma joins_known_frame:
  assumes "joins_known ch" "n_states ch \<le> n_states ch'"
    and "\<And>s. s < n_states ch \<Longrightarrow> kind_of ch' s = kind_of ch s \<and> incoming (obj ch' s) = incoming (obj ch s)"
    and "ownedTransitions ch' = ownedTransitions ch"
  shows "joins_known ch'"
  using assms unfolding joins_known_def by fastforce

lemma calculateStateSet_target:
  assumes wf: "wf_tree ch" and b: "ptr_ok ch b" and A: "snd (calculateStateSet ch a b) \<noteq> []"
  shows "\<exists>e. b = Some e \<and> e < n_states ch \<and> last (snd (calculateStateSet ch a b)) = e"
proof -
  obtain k where k: "snd (calculateStateSet ch a b) = drop k (path_to ch b)"
    by (simp add: calculateStateSet_def Let_def)
  then obtain e where e: "b = Some e" "e < n_states ch" using A b by (cases b) (auto simp: ptr_ok_def)
  have "last (drop k (path_to ch b)) = last (path_to ch b)" using A k by (simp add: last_drop)
  then show ?thesis using e k path_to_last(2)[OF wf e(2)] by simp
qed

lemma register_incoming:
  "set (incoming (obj (register_target b t ch) s)) =
     (if b = Some s \<and> s < n_states ch \<and> kind_of ch s = Pseudo Join then insert t (set (incoming (obj ch s)))
      else set (incoming (obj ch s)))"
  by (auto simp: register_target_def addIncomingTransition_def obj_upd_obj split: option.split)

lemma joins_known_createTransition:
  assumes J: "joins_known ch" and wf: "wf_tree ch" and b: "ptr_ok ch b"
  shows "joins_known (fst (createTransition a b ev g act ch))" (is "joins_known ?ch'")
  unfolding joins_known_def
proof (intro allI impI, elim conjE)
  fix t j assume t: "t < length (ownedTransitions ?ch')" and A: "tr_activate (trans ?ch' t) \<noteq> []"
    and j: "j = last (tr_activate (trans ?ch' t))"
  let ?n = "length (ownedTransitions ch)"
  let ?ch1 = "register_source a ?n (push_trans (new_trans a b ev g act ch) ch)"
  have kind: "kind_of ?ch' s = kind_of ch s" if "s < n_states ch" for s
    using shape_extD(3)[OF shape_ext_createTransition that] .
  have k1: "kind_of ?ch1 s = kind_of ch s" "n_states ?ch1 = n_states ch" "incoming (obj ?ch1 s) = incoming (obj ch s)"
    if "s < n_states ch" for s
    using that
    by (auto simp: register_source_def kind_addTransition addTransition_def push_trans_def obj_upd_obj split: option.split)
  have inc: "set (incoming (obj ?ch' s)) =
      (if b = Some s \<and> kind_of ch s = Pseudo Join then insert ?n (set (incoming (obj ch s))) else set (incoming (obj ch s)))"
    if s: "s < n_states ch" for s
    unfolding createTransition_steps(1) register_incoming k1[OF s] using s by simp
  show "j < n_states ?ch' \<and> (kind_of ?ch' j = Pseudo Join \<longrightarrow> t \<in> set (incoming (obj ?ch' j)))"
  proof (cases "t < ?n")
    case True
    then have "trans ?ch' t = trans ch t" by (simp add: ownedTransitions_create nth_append)
    then have "j < n_states ch" "kind_of ch j = Pseudo Join \<longrightarrow> t \<in> set (incoming (obj ch j))"
      using J True A j by (auto simp: joins_known_def)
    then show ?thesis using kind inc by auto
  next
    case False
    then have n: "t = ?n" "tr_activate (trans ?ch' t) = snd (calculateStateSet ch a b)"
      using t by (auto simp: ownedTransitions_create new_trans_def nth_append less_Suc_eq)
    then obtain e where "b = Some e" "e < n_states ch" "j = e"
      using calculateStateSet_target[OF wf b, of a] A j unfolding n(2) by blast
    then show ?thesis using kind[of e] inc[of e] n(1) by auto
  qed
qed

lemma joins_known_createInternal:
  assumes J: "joins_known ch" and wf: "wf_tree ch" and a: "ptr_ok ch a"
  shows "joins_known (fst (createInternalTransition a ev g act ch))" (is "joins_known ?ch'")
proof -
  let ?ch1 = "fst (createTransition a a ev g act ch)" and ?n = "length (ownedTransitions ch)"
  have J1: "joins_known ?ch1" by (rule joins_known_createTransition[OF J wf a])
  have same: "ownedStates ?ch' = ownedStates ?ch1" "length (ownedTransitions ?ch') = length (ownedTransitions ?ch1)"
    by (simp_all add: createInternalTransition_chart Let_def ownedTransitions_create)
  have old: "trans ?ch' t = trans ?ch1 t" if "t < ?n" for t
    using that by (simp add: createInternalTransition_chart Let_def ownedTransitions_create nth_append)
  have "tr_activate (trans ?ch' ?n) = []" by (simp add: createInternalTransition_chart Let_def)
  then have "t < length (ownedTransitions ?ch1) \<and> trans ?ch' t = trans ?ch1 t"
    if "t < length (ownedTransitions ?ch')" "tr_activate (trans ?ch' t) \<noteq> []" for t
    using that old[of t] same(2) by (cases "t = ?n") (auto simp: ownedTransitions_create less_Suc_eq)
  then show ?thesis using J1 unfolding joins_known_def same(1) by metis
qed

lemma joins_known_adds_child:
  assumes "joins_known ch" "adds_child ch p k ch'" "p < n_states ch"
  shows "joins_known ch'"
proof (rule joins_known_frame[OF assms(1)])
  note f = adds_child_tree_frame[OF assms(2)]
  show "n_states ch \<le> n_states ch'" "ownedTransitions ch' = ownedTransitions ch" by (simp_all add: f)
  show "kind_of ch' s = kind_of ch s \<and> incoming (obj ch' s) = incoming (obj ch s)" if "s < n_states ch" for s
    using assms(2) that by (cases "s = p") (auto simp: adds_child_def Let_def)
qed

lemma joins_known_construct:
  assumes J: "joins_known ch" and wf: "wf_chart ch" and p: "p < n_states ch" "is_context (kind_of ch p)"
    and ok: "ctor_ok ch c" and c: "construct c nm (Some p) ch = Inr ch'"
  shows "joins_known ch'"
proof -
  obtain ch1 where add: "adds_child ch p (ctor_kind c) ch1"
    and ch': "ch' = (case c of
        CCondition g t e \<Rightarrow>
          fst (createTransition (Some (n_states ch)) e None None None
            (fst (createTransition (Some (n_states ch)) t None g None ch1)))
      | _ \<Rightarrow> ch1)"
    by (rule construct_adds_child[OF p(1) c])
  have J1: "joins_known ch1" by (rule joins_known_adds_child[OF J add p(1)])
  have wf1: "wf_tree ch1"
    by (rule adds_child_wf_tree[OF add _ p]) (use wf in \<open>cases c; auto simp: wf_chart_def wf_core_def\<close>)+
  have n: "n_states ch \<le> n_states ch1" using adds_child_tree_frame(1)[OF add] by simp
  show ?thesis
  proof (cases c)
    case (CCondition g t e)
    let ?ch2 = "fst (createTransition (Some (n_states ch)) t None g None ch1)"
    have ok1: "ptr_ok ch1 t" "ptr_ok ch1 e" using ok CCondition ptr_ok_mono[OF _ n] by auto
    have "joins_known ?ch2" by (rule joins_known_createTransition[OF J1 wf1 ok1(1)])
    moreover have "wf_tree ?ch2" by (rule shape_ext_wf_tree[OF shape_ext_createTransition wf1])
    moreover have "ptr_ok ?ch2 e" using ok1(2) by (simp add: ptr_ok_def)
    ultimately show ?thesis using ch' CCondition by (simp add: joins_known_createTransition)
  qed (use ch' J1 in simp_all)
qed

lemma joins_known_upd_obj:
  assumes "joins_known ch" "\<And>ob. st_kind (f ob) = st_kind ob \<and> incoming (f ob) = incoming ob"
  shows "joins_known (upd_obj s f ch)"
  by (rule joins_known_frame[OF assms(1)]) (simp_all add: obj_upd_obj assms(2))

lemma built_joins_known: "built ch \<Longrightarrow> joins_known ch"
proof (induction rule: built.induct)
  case (new nm ueq)
  show ?case by (simp add: joins_known_def new_chart_def)
next
  case (create ch p c nm ch' s)
  then obtain ch1 where "construct c nm (Some p) ch = Inr ch1"
    and ch': "ch' = ch1\<lparr>stateNames := AList.update nm (n_states ch) (stateNames ch1)\<rparr>"
    by (blast elim: create_parts)
  then have "joins_known ch1" using create joins_known_construct built_wf by blast
  then show ?case by (rule joins_known_frame) (simp_all add: ch')
next
  case (transition ch a b ev g act)
  then show ?case
    using built_wf by (intro joins_known_createTransition) (auto simp: wf_chart_def wf_core_def)
next
  case (internal ch a ev g act)
  then show ?case
    using built_wf by (intro joins_known_createInternal) (auto simp: wf_chart_def wf_core_def)
next
  case (event ch ev)
  show ?case by (rule joins_known_frame[OF event.IH]) (simp_all add: createEvent_def)
next
  case (threshold ch n)
  show ?case by (rule joins_known_frame[OF threshold.IH]) (simp_all add: setInfiniteLoopThreshold_def)
qed (simp_all add: setEntryAction_def setDoAction_def setExitAction_def setName_def joins_known_upd_obj)

section \<open>A transition into a join\<close>

lemma execute_join:
  assumes e: "execute ch (vcalls k ch) t ev p r = Ret True r'" and t: "\<not> tr_internal (trans ch t)"
    and A: "tr_activate (trans ch t) \<noteq> []" "kind_of ch (last (tr_activate (trans ch t))) = Pseudo Join"
  shows "list_all (join_ready ch p r) (incoming (obj ch (last (tr_activate (trans ch t)))))"
proof -
  let ?j = "last (tr_activate (trans ch t))"
  obtain r1 where "allowed ch (vcalls k ch) t p r = Ret True r1"
    using e by (auto simp: execute_fire mbind_Ret_iff split: if_splits)
  then have look: "v_lookup (vcalls k ch) ?j p r = Ret True r1"
    using t A by (auto simp: allowed_def Transition_allowed_def mbind_Ret_iff split: if_splits)
  then obtain m where "k = Suc m" by (cases k) (auto simp: mnoreturn_def)
  with look show ?thesis
    using A(2) by (auto simp: vstep_def PseudoState_lookup_def mbind_Ret_iff split: if_splits)
qed

section \<open>An event for the regions of a concurrent state\<close>

text \<open>\<open>bs\<close> are the answers of the regions the event was offered to.\<close>

inductive offered ::
  "'e vtable \<Rightarrow> sid \<Rightarrow> event option \<Rightarrow> pref \<Rightarrow> sid list \<Rightarrow> 'e rt \<Rightarrow> bool list \<Rightarrow> 'e rt \<Rightarrow> bool"
  for V s ev p
where
  all: "offered V s ev p [] r [] r"
| left: "\<not> isActive r s \<Longrightarrow> offered V s ev p hs r [] r"
| region: "isActive r s \<Longrightarrow> v_dispatch V h ev p r = Ret b r1 \<Longrightarrow> offered V s ev p hs r1 bs r2 \<Longrightarrow>
    offered V s ev p (h # hs) r (b # bs) r2"

lemma offered_length: "offered V s ev p hs r bs r' \<Longrightarrow> isActive r' s \<Longrightarrow> length bs = length hs"
  by (induction rule: offered.induct) simp_all

lemma dispatch_regions_offered:
  "dispatch_regions V s ev p d hs r = Ret b r' \<Longrightarrow>
    \<exists>bs. offered V s ev p hs r bs r' \<and> b = (d \<or> True \<in> set bs)"
proof (induction hs arbitrary: d r)
  case (Cons h hs)
  show ?case
  proof (cases "isActive r s")
    case True
    then obtain c r1 where c: "v_dispatch V h ev p r = Ret c r1"
      "dispatch_regions V s ev p (if c then True else d) hs r1 = Ret b r'"
      using Cons.prems by (auto simp: mbind_Ret_iff)
    then obtain bs where "offered V s ev p hs r1 bs r'" "b = ((if c then True else d) \<or> True \<in> set bs)"
      using Cons.IH by blast
    then show ?thesis using offered.region[OF True c(1)] by (intro exI[of _ "c # bs"]) auto
  next
    case False
    then show ?thesis using Cons.prems offered.left[OF False] by (intro exI[of _ "[]"]) auto
  qed
qed (auto intro: offered.all)

lemma concurrent_transitions_fired:
  "concurrent_transitions ch V s ev p ts r = Ret True r' \<Longrightarrow>
    \<exists>t \<in> set ts. \<exists>r1. isActive r1 s \<and> (tr_event (trans ch t) = None \<longrightarrow> finished ch s r1) \<and>
      execute ch V t ev p r1 = Ret True r'"
proof (induction ts arbitrary: r)
  case (Cons t ts)
  have act: "isActive r s" using Cons.prems by (auto split: if_splits)
  show ?case
  proof (cases "tr_event (trans ch t) = None \<and> \<not> finished ch s r")
    case True
    then show ?thesis using Cons act by auto
  next
    case False
    then obtain b r1 where b: "execute ch V t ev p r = Ret b r1"
      "(if b then mret True else concurrent_transitions ch V s ev p ts) r1 = Ret True r'"
      using Cons.prems act by (auto simp: mbind_Ret_iff)
    show ?thesis
    proof (cases b)
      case True
      then show ?thesis using b act False by auto
    next
      case False
      then show ?thesis using b(2) Cons.IH[of r1] by auto
    qed
  qed
qed simp

end
