(* ===== verification/History.thy ===== *)
theory History
  imports Firing
begin

text \<open>
  What a history state remembers: leaving the composite state records the chain of current states
  below it, and a transition to the history state enters the recorded states again.
\<close>

section \<open>Leaving\<close>

text \<open>The chain of current states from \<open>c\<close> downwards, through hierarchical states.\<close>

inductive current_chain :: "'e chart \<Rightarrow> 'e rt \<Rightarrow> sid \<Rightarrow> sid list \<Rightarrow> bool" for ch r where
  innermost: "kind_of ch c \<noteq> Hierarchical \<or> current_of r c = None \<Longrightarrow> current_chain ch r c [c]"
| inside: "kind_of ch c = Hierarchical \<Longrightarrow> current_of r c = Some d \<Longrightarrow> current_chain ch r d xs \<Longrightarrow>
    current_chain ch r c (c # xs)"

lemma current_chain_computed:
  assumes t: "tidy ch r" and wf: "wf_tree ch"
  shows "c < n_states ch \<Longrightarrow> n_states ch \<le> n + c \<Longrightarrow>
    current_chain ch r c (calculateHistoryChain n ch [] (Some c) r DeepHistory)"
proof (induction n arbitrary: c)
  case (Suc n)
  show ?case
  proof (cases "kind_of ch c = Hierarchical \<and> current_of r c \<noteq> None")
    case True
    then obtain d where d: "kind_of ch c = Hierarchical" "current_of r c = Some d" by blast
    have "d < n_states ch" "c < d"
      using tidy_current[OF t d(2)] wf_parent(1)[OF wf] by blast+
    then have "current_chain ch r d (calculateHistoryChain n ch [] (Some d) r DeepHistory)"
      using Suc by simp
    moreover have "calculateHistoryChain (Suc n) ch [] (Some c) r DeepHistory =
        c # calculateHistoryChain n ch [] (Some d) r DeepHistory"
      using d calculateHistoryChain_acc[of n ch "[c]"] by (simp add: current_of_def)
    ultimately show ?thesis using d by (simp add: inside)
  next
    case False
    then have "calculateHistoryChain (Suc n) ch [] (Some c) r DeepHistory = [c]"
      by (auto simp: current_of_def split: option.split)
    then show ?thesis using False by (auto intro: innermost)
  qed
qed simp

lemma calculateHistoryChain_current:
  assumes "\<And>x. current_of r' x = current_of r x"
  shows "calculateHistoryChain n ch hist s r' ty = calculateHistoryChain n ch hist s r ty"
proof (induction n arbitrary: hist s)
  case (Suc n)
  have "(case getData r' x of None \<Rightarrow> None | Some d \<Rightarrow> currentState d) =
      (case getData r x of None \<Rightarrow> None | Some d \<Rightarrow> currentState d)" for x
    using assms[of x] by (simp add: current_of_def)
  then show ?case using Suc by (simp split: option.split)
qed simp

lemma wp_State_deactivate_frame:
  assumes S: "assured nr g ch rk R" and s: "s < n_states ch" and t: "tidy ch r"
  shows "wp nr False (State_deactivate ch s p) (\<lambda>_ r'. \<forall>x. x \<noteq> s \<longrightarrow> getData r' x = getData r x) (\<lambda>_ _. True) r"
proof -
  have sc: "st_statechart (obj ch s) \<noteq> None" using assuredD(9)[OF S s] by simp
  note step = State_deactivate_step[OF tidyD(4)[OF t] sc, where p = p]
  show ?thesis
  proof (cases "getData r s")
    case None
    then show ?thesis using step by (simp add: wp_def)
  next
    case (Some d)
    let ?r = "deactivateData ch s (upd_sv (cancel_all (timeoutEvents d)) r)"
    have "wp nr False (mcall (exitAction (obj ch s)) p) (\<lambda>_ r'. \<forall>x. x \<noteq> s \<longrightarrow> getData r' x = getData r x) (\<lambda>_ _. True) ?r"
      by (rule wp_call) (use benign_state(3)[OF assuredD(4)[OF S] s] in
          \<open>auto simp: calm_getData getData_deactivateData\<close>)
    then show ?thesis using step Some by (cases "rd_active d") (simp_all add: wp_def)
  qed
qed

lemma deactivate_records:
  assumes S: "assured True g ch rk R" and V: "deact_spec True g ch V k"
    and s: "0 < s" "s < n_states ch" and I: "sound g ch r" "isActive r s"
    and h: "history (obj ch s) = Some h"
    and c: "current_of r s = Some c" "Some c \<noteq> startState (obj ch s)" "c \<noteq> h" "kind_of ch c \<noteq> Final"
  shows "wp True False (HierarchicalState_deactivate ch V s p)
    (\<lambda>_ r'. getData r' h = getData (storeHistory ch h r) h) (\<lambda>_ _. True) r"
proof -
  note wf = assuredD(1)[OF S]
  let ?r0 = "storeHistory ch h r"
  obtain d where d: "getData r s = Some d" "currentState d = Some c"
    using c(1) by (auto simp: current_of_def split: option.splits)
  have hs: "h < n_states ch" "parent_of ch h = Some s"
    using assuredD(2)[OF S] s(2) h by (auto simp: wf_slots_def)
  have "h \<noteq> s" using parent_not_self[OF wf hs(1)] hs(2) by auto
  have "tidy ch ?r0"
    by (rule tidy_storeHistory[OF sound_tidy[OF I(1)] wf hs(2) _ hs(1)]) (use c in simp)
  moreover have "config ch ?r0 = config ch r" by (rule config_cong) (simp_all add: view_storeHistory)
  ultimately have I0: "sound g ch ?r0" using I(1) by (simp add: sound_def)
  have d0: "getData ?r0 s = Some d" using d(1) \<open>h \<noteq> s\<close> by (simp add: storeHistory_data)
  have cc: "c < n_states ch" "parent_of ch c = Some s" using tidy_current[OF sound_tidy[OF I(1)] c(1)] by auto
  have c0: "0 < c" by (rule wf_parent(3)[OF wf cc])
  have nu: "\<not> under ch c s" using under_le[OF _ wf s(2)] wf_parent(1)[OF wf cc] by fastforce
  then have nh: "\<not> under ch c h" using under_child_up[OF _ c(3) hs(2)] by blast
  have rest: "wp True False (mbind (mvalid (data_valid s (rd_addr d))) (\<lambda>_.
      mbind (mmod (updData s (\<lambda>d. d\<lparr>currentState := None\<rparr>))) (\<lambda>_. State_deactivate ch s p)))
      (\<lambda>_ r'. getData r' h = getData ?r0 h) (\<lambda>_ _. True) r2"
    if r2: "sound g ch r2" "outside ch c ?r0 r2" for r2
  proof -
    let ?r3 = "updData s (\<lambda>d. d\<lparr>currentState := None\<rparr>) r2"
    have d2: "getData r2 s = Some d" "getData r2 h = getData ?r0 h"
      using r2(2) nu nh d0 by (simp_all add: outside_def)
    have "tidy ch ?r3"
      by (rule tidy_updData[OF sound_tidy[OF r2(1)]]) (use sound_tidy[OF r2(1)] d2(1) in \<open>auto simp: tidy_def data_ok_def\<close>)
    from wp_State_deactivate_frame[OF S s(2) this, of p]
    have "wp True False (State_deactivate ch s p) (\<lambda>_ r'. getData r' h = getData ?r0 h) (\<lambda>_ _. True) ?r3"
      by (rule wp_mono) (use d2(2) \<open>h \<noteq> s\<close> in simp_all)
    then show ?thesis using d2(1) by (simp add: data_valid_def)
  qed
  have "wp True False (v_deactivate V c p)
      (\<lambda>_ r'. sound g ch r' \<and> \<not> isActive r' c \<and> outside ch c ?r0 r') (\<lambda>_ r'. sound g ch r') ?r0"
    using V c0 cc(1) I0 unfolding deact_spec_def by blast
  then have "wp True False (v_deactivate V c p)
      (\<lambda>_. wp True False (mbind (mvalid (data_valid s (rd_addr d))) (\<lambda>_.
        mbind (mmod (updData s (\<lambda>d. d\<lparr>currentState := None\<rparr>))) (\<lambda>_. State_deactivate ch s p)))
      (\<lambda>_ r'. getData r' h = getData ?r0 h) (\<lambda>_ _. True)) (\<lambda>_ _. True) ?r0"
    by (rule wp_mono) (blast intro: rest, simp)
  then show ?thesis
    using I(2) d h c by (simp add: HierarchicalState_deactivate_def)
qed

text \<open>Leaving a composite state whose history state has been visited records the current chain in it.\<close>

lemma recorded_chain:
  assumes t: "tidy ch r" and wf: "wf_tree ch" "wf_slots ch"
    and h: "s < n_states ch" "history (obj ch s) = Some h" "getData r h = Some d"
    and c: "current_of r s = Some c"
  shows "\<exists>d'. getData (storeHistory ch h r) h = Some d' \<and>
    (kind_of ch h = Pseudo History \<longrightarrow> stateset d' = [c]) \<and>
    (kind_of ch h = Pseudo DeepHistory \<longrightarrow> current_chain ch r c (stateset d'))"
proof -
  have hs: "parent_of ch h = Some s" using wf(2) h(1,2) by (auto simp: wf_slots_def)
  have cc: "c < n_states ch" using tidy_current[OF t c] by simp
  have n: "n_states ch = Suc (n_states ch - 1)" using cc by simp
  let ?r1 = "updData h (\<lambda>d. d\<lparr>stateset := []\<rparr>) r"
  have cur: "current_of ?r1 x = current_of r x" for x
    by (cases "getData r x") (auto simp: current_of_def)
  then have "(case getData ?r1 s of None \<Rightarrow> None | Some pd \<Rightarrow> currentState pd) = Some c"
    using c by (simp add: current_of_def)
  then have "getData (storeHistory ch h r) h = Some (d\<lparr>stateset := calculateHistoryChain (n_states ch) ch []
      (Some c) r (case kind_of ch h of Pseudo ty \<Rightarrow> ty | _ \<Rightarrow> Start)\<rparr>)"
    using h(3) hs by (simp add: storeHistory_data calculateHistoryChain_current[of ?r1 r, OF cur])
  moreover have "calculateHistoryChain (n_states ch) ch [] (Some c) r History = [c]"
    by (subst n) simp
  moreover have "current_chain ch r c (calculateHistoryChain (n_states ch) ch [] (Some c) r DeepHistory)"
    by (rule current_chain_computed[OF t wf(1) cc]) simp
  ultimately show ?thesis by simp
qed

section \<open>Entering\<close>

lemma wp_activate_history:
  assumes S: "assured True g ch rk R" and h: "h < n_states ch" "is_history (kind_of ch h)"
    and I: "sound g ch r" "g \<Longrightarrow> entering ch h r"
  shows "wp True False (v_activate (vcalls k ch) h p)
    (\<lambda>_ r'. act_post g ch h r r' \<and> restored g ch h r r') (\<lambda>_ r'. sound g ch r') r"
proof (cases k)
  case 0
  then show ?thesis by (simp add: wp_def mnoreturn_def)
next
  case (Suc j)
  have "is_pseudo (kind_of ch h)" using h(2) by (cases "kind_of ch h") auto
  moreover from this obtain ty where "kind_of ch h = Pseudo ty" by (cases "kind_of ch h") auto
  ultimately show ?thesis
    using wp_PseudoState_activate[OF S act_spec_vcalls[OF S, of j] h(1) _ _ I, of p] Suc
    by (simp add: vstep_def call_activate_def)
qed

lemma linked_contexts:
  assumes "wf_tree ch"
  shows "linked ch q (xs @ [h]) \<Longrightarrow> x \<in> set xs \<Longrightarrow> \<not> is_history (kind_of ch x)"
proof (induction xs arbitrary: q)
  case (Cons y ys)
  have "\<not> is_history (kind_of ch y)"
  proof -
    obtain z where "parent_of ch z = Some y" "z < n_states ch"
      using Cons.prems(1) by (cases ys) auto
    then have "is_context (kind_of ch y)" using wf_parent(2)[OF assms] by blast
    then show ?thesis by (cases "kind_of ch y") auto
  qed
  then show ?case using Cons by auto
qed simp

text \<open>The path of a transition to a history state.\<close>

lemma wp_enter_history:
  assumes S: "assured True True ch rk R"
    and xs: "linked ch q (xs @ [h])" "is_history (kind_of ch h)"
    and I: "sound True ch r" "isActive r q" "quiet ch q r" and q: "\<not> is_history (kind_of ch q)"
    and d: "getData r h = Some d" "stateset d \<noteq> []"
  shows "wp True False (activate_list ch (vcalls k ch) p (xs @ [h]))
    (\<lambda>_ r'. sound True ch r' \<and> isActive r' (last (stateset d))) (\<lambda>_ r'. sound True ch r') r"
proof -
  let ?V = "vcalls k ch" and ?enter = "\<lambda>x. mbind (v_activate (vcalls k ch) x p) (\<lambda>_. mret ())"
  note wf = assuredD(1)[OF S]
  have lx: "linked ch q xs" and ph: "parent_of ch h = Some (last (q # xs))" "h < n_states ch"
    using xs(1) by (simp_all add: linked_append)
  have lt: "x < n_states ch" if "x \<in> set xs" for x by (rule linked_bounds(1)[OF wf lx that])
  have seq: "activate_list ch ?V p (xs @ [h]) = mbind (for_each xs ?enter) (\<lambda>_. ?enter h)"
  proof -
    have "activate_list ch ?V p (xs @ [h]) = for_each (xs @ [h]) ?enter"
      by (rule activate_list_sequential) (use assuredD(5)[OF S] lt ph(2) in auto)
    also have "\<dots> = mbind (for_each xs ?enter) (\<lambda>_. ?enter h)"
      by (induction xs) (simp_all add: mbind_assoc)
    finally show ?thesis .
  qed
  have path: "wp True False (for_each xs ?enter) (\<lambda>_. descended True ch q xs r) (\<lambda>_ r'. sound True ch r') r"
    by (rule wp_enter_path[OF S act_spec_vcalls[OF S]]) (use I lx lt in auto)
  have "wp True False (?enter h) (\<lambda>_ r'. sound True ch r' \<and> isActive r' (last (stateset d)))
      (\<lambda>_ r'. sound True ch r') r1" if r1: "descended True ch q xs r r1" for r1
  proof -
    have nh: "\<not> is_history (kind_of ch (last (q # xs)))"
      using wf_parent(2)[OF wf ph(2,1)] by (cases "kind_of ch (last (q # xs))") auto
    then have "entering ch h r1" using r1 ph(1) by (auto simp: descended_def entering_def quiet_def)
    moreover have "h \<notin> region ch x" if x: "x \<in> set xs" for x
    proof -
      have "\<not> is_history (kind_of ch x)" by (rule linked_contexts[OF wf xs(1) x])
      moreover have "h \<noteq> x" using linked_distinct[OF wf xs(1)] x by auto
      ultimately show ?thesis by (auto simp: region_def)
    qed
    then have "but_current (getData r1 h) = but_current (Some d)"
      using r1 d(1) by (simp add: descended_def)
    then obtain d1 where "getData r1 h = Some d1" "stateset d1 = stateset d" by (rule but_current_fields)
    ultimately show ?thesis
      using wp_mono[OF wp_activate_history[OF S ph(2) xs(2), of r1 k p]] r1 d(2) xs(2)
      by (simp add: descended_def restored_def act_post_def)
  qed
  then show ?thesis unfolding seq wp_bind by (intro wp_mono[OF path]) auto
qed

lemma parent_not_under:
  assumes "wf_tree ch" "a < n_states ch" "parent_of ch a = Some q"
  shows "\<not> under ch a q"
  using wf_parent(1)[OF assms] under_le[of ch a q] assms by fastforce

lemma siblings_above:
  assumes wf: "wf_tree ch" and par: "parent_of ch a = Some q" "parent_of ch b = Some q"
    and lt: "a < n_states ch" "b < n_states ch"
  shows "under ch a x \<Longrightarrow> under ch b x \<Longrightarrow> a = b"
proof (induction rule: under.induct)
  case refl
  then show ?case using under_child_up[OF refl _ par(1)] parent_not_under[OF wf lt(2) par(2)] by auto
next
  case (step x y)
  show ?case
  proof (cases "b = x")
    case True
    then show ?thesis using step.hyps par(2) parent_not_under[OF wf lt(1) par(1)] by simp
  next
    case False
    then show ?thesis using step.IH under_child_up[OF step.prems _ step.hyps(1)] by simp
  qed
qed

lemma wp_history_transition:
  assumes S: "assured True True ch rk R" and s: "0 < s" "s < n_states ch"
    and t: "t \<in> set (transitions (obj ch s))" "\<not> tr_internal (trans ch t)"
    and h: "h = last (tr_activate (trans ch t))" "is_history (kind_of ch h)" "s \<noteq> h"
    and I: "sound True ch r" "onpath ch s r" and d: "getData r h = Some d" "stateset d \<noteq> []"
  shows "wp True False (Transition_execute ch (vcalls k ch) (trans ch t) ev p)
    (\<lambda>b r'. if b then sound True ch r' \<and> isActive r' (last (stateset d)) else r' = r) (\<lambda>_ r'. sound True ch r') r"
proof (rule wp_Transition_execute_landing[OF S deact_spec_vcalls[OF S] act_spec_vcalls[OF S] look_spec_vcalls[OF S]
      s t _ I])
  let ?D = "tr_deactivate (trans ch t)" and ?A = "tr_activate (trans ch t)"
  note wf = assuredD(1,3)[OF S]
  have ne: "?D \<noteq> []" "?A \<noteq> []" "0 \<notin> set ?A"
    using assuredD(6)[OF S] s(2) t unfolding regular_def by blast+
  fix q r2 assume r2: "sound True ch r2" and "True \<Longrightarrow> landing ch t q r r2"
  then have l: "linked ch q ?A" "isActive r2 q" "quiet ch q r2" "outside ch (last ?D) r r2"
    by (simp_all add: landing_def)
  obtain xs where A: "?A = xs @ [h]" using ne(2) h(1) by (metis append_butlast_last_id)
  obtain c where c: "linked ch c (rev ?D)" "linked ch c ?A" by (rule regular_lists[OF wf s t ne])
  have top: "parent_of ch (last ?D) = Some c" "last ?D < n_states ch"
    using c(1) ne(1) by (cases "rev ?D"; auto simp: rev_swap)+
  have hd: "parent_of ch (hd ?A) = Some c" "hd ?A < n_states ch" "under ch (hd ?A) h" "q = c"
    using c(2) l(1) ne(2) h(1) linked_under[of ch "hd ?A" "tl ?A"] by (cases ?A; auto)+
  have "hd ?A \<noteq> last ?D"
    using regular_lists_disjoint[OF wf s t ne(1,2)] h(1,3) ne(1,2) by (metis disjoint_iff hd_in_set last_in_set)
  then have "\<not> under ch (last ?D) h" using siblings_above[OF wf(1) top(1) hd(1) top(2) hd(2) _ hd(3)] by auto
  then have "getData r2 h = Some d" using l(4) d(1) by (simp add: outside_def)
  moreover have "\<not> is_history (kind_of ch q)"
    using wf_parent(2)[OF wf(1) hd(2,1)] hd(4) by (cases "kind_of ch q") auto
  ultimately show "wp True False (activate_list ch (vcalls k ch) p ?A)
      (\<lambda>_ r'. sound True ch r' \<and> isActive r' (last (stateset d))) (\<lambda>_ r'. sound True ch r') r2"
    unfolding A by (intro wp_enter_history[OF S l(1)[unfolded A] h(2) r2 l(2,3) _ _ d(2)])
qed simp

end
