(* ===== verification/Thread_Pool.thy ===== *)
theory Thread_Pool
  imports "HOL-Library.Multiset" Prelude
begin

text \<open>
  \<open>class ThreadPool\<close> (\<open>ThreadPool.hpp\<close>, \<open>ThreadPool.cpp\<close>): a queue of tasks, a flag, and the
  control states of the worker threads.  The methods are functions on the pool; what the threads do
  is a step relation, in which a critical section under \<open>m_mutex\<close> is one step.  A task that throws
  counts as finished, because the worker catches everything.
\<close>

section \<open>State and methods\<close>

text \<open>Where a worker is: before the critical section of its loop, running a task, or returned.\<close>

datatype 'a worker = Idle | Busy 'a | Exited

text \<open>\<open>m_joinable\<close> is \<open>t.joinable()\<close> of the worker threads.\<close>

record 'a pool =
  m_tasks :: "'a list"
  m_shutdown :: bool
  m_workers :: "'a worker list"
  m_joinable :: "bool list"

text \<open>\<open>ThreadPool::ThreadPool\<close>\<close>

definition new_pool :: "nat \<Rightarrow> 'a pool" where
  "new_pool threads =
     (let n = (if threads < 1 then 1 else threads)
      in \<lparr>m_tasks = [], m_shutdown = False, m_workers = replicate n Idle, m_joinable = replicate n True\<rparr>)"

text \<open>\<open>ThreadPool::execute\<close>; \<open>None\<close> is an empty \<open>std::function\<close>.\<close>

definition pool_execute :: "'a option \<Rightarrow> 'a pool \<Rightarrow> bool \<times> 'a pool" where
  "pool_execute task p =
     (case task of
        None \<Rightarrow> (False, p)
      | Some t \<Rightarrow>
          if m_shutdown p then (False, p) else (True, p\<lparr>m_tasks := m_tasks p @ [t]\<rparr>))"

text \<open>\<open>ThreadPool::shutdown\<close> and \<open>ThreadPool::isShutdown\<close>\<close>

definition pool_close :: "'a pool \<Rightarrow> 'a pool" where
  "pool_close p = p\<lparr>m_shutdown := True\<rparr>"

definition pool_isShutdown :: "'a pool \<Rightarrow> bool" where
  "pool_isShutdown p = m_shutdown p"

text \<open>
  The critical section of \<open>ThreadPool::workerLoop\<close>: the worker keeps waiting, returns, or takes the
  first task.
\<close>

definition worker_turn :: "'a pool \<Rightarrow> 'a worker \<times> 'a list" where
  "worker_turn p =
     (case m_tasks p of
        [] \<Rightarrow> if m_shutdown p then (Exited, []) else (Idle, [])
      | t # ts \<Rightarrow> (Busy t, ts))"

definition set_worker :: "nat \<Rightarrow> 'a worker \<Rightarrow> 'a pool \<Rightarrow> 'a pool" where
  "set_worker i w p = p\<lparr>m_workers := (m_workers p)[i := w]\<rparr>"

definition worker_step :: "nat \<Rightarrow> 'a pool \<Rightarrow> 'a pool" where
  "worker_step i p =
     (case m_workers p ! i of
        Idle \<Rightarrow> (case worker_turn p of (w, ts) \<Rightarrow> set_worker i w (p\<lparr>m_tasks := ts\<rparr>))
      | Busy t \<Rightarrow> set_worker i Idle p
      | Exited \<Rightarrow> p)"

section \<open>Runs\<close>

text \<open>What happens: calls from outside, with what they returned, and turns of the workers.\<close>

datatype 'a act =
    Submit 'a bool
  | Close
  | Turn nat

inductive pool_step :: "'a pool \<Rightarrow> 'a act \<Rightarrow> 'a pool \<Rightarrow> bool" where
  submit: "pool_execute (Some t) p = (ok, p') \<Longrightarrow> pool_step p (Submit t ok) p'"
| close: "pool_step p Close (pool_close p)"
| turn: "i < length (m_workers p) \<Longrightarrow> pool_step p (Turn i) (worker_step i p)"

inductive_cases pool_stepE: "pool_step p a p'"

inductive pool_run :: "'a pool \<Rightarrow> 'a act list \<Rightarrow> 'a pool \<Rightarrow> bool" where
  empty: "pool_run p [] p"
| snoc: "pool_run p as q \<Longrightarrow> pool_step q a r \<Longrightarrow> pool_run p (as @ [a]) r"

text \<open>The tasks accepted, and the tasks started: those taken from the queue by a turn.\<close>

fun accepted :: "'a act list \<Rightarrow> 'a list" where
  "accepted [] = []"
| "accepted (Submit t True # as) = t # accepted as"
| "accepted (_ # as) = accepted as"

text \<open>The tasks taken by the turns of a run, in order.\<close>

primrec started :: "'a pool \<Rightarrow> 'a act list \<Rightarrow> 'a list" where
  "started p [] = []"
| "started p (a # as) =
     (case a of
        Submit t ok \<Rightarrow> started (snd (pool_execute (Some t) p)) as
      | Close \<Rightarrow> started (pool_close p) as
      | Turn i \<Rightarrow>
          (if m_workers p ! i = Idle then take 1 (m_tasks p) else []) @ started (worker_step i p) as)"

text \<open>The pool after a run: each step is a function of the action.\<close>

definition act_result :: "'a act \<Rightarrow> 'a pool \<Rightarrow> 'a pool" where
  "act_result a p =
     (case a of Submit t ok \<Rightarrow> snd (pool_execute (Some t) p) | Close \<Rightarrow> pool_close p | Turn i \<Rightarrow> worker_step i p)"

lemma pool_step_result: "pool_step p a q \<Longrightarrow> q = act_result a p"
  by (auto simp: act_result_def elim!: pool_stepE)

lemma pool_run_result: "pool_run p as q \<Longrightarrow> q = fold act_result as p"
  by (induction rule: pool_run.induct) (auto dest: pool_step_result)

lemma started_append: "started p (as @ bs) = started p as @ started (fold act_result as p) bs"
  by (induction as arbitrary: p) (auto simp: act_result_def split: act.split)

lemma accepted_append: "accepted (as @ bs) = accepted as @ accepted bs"
  by (induction as rule: accepted.induct) auto

section \<open>First in, first out\<close>

lemma worker_step_tasks:
  "m_tasks (worker_step i p) = (if m_workers p ! i = Idle then drop 1 (m_tasks p) else m_tasks p)"
  by (auto simp: worker_step_def worker_turn_def set_worker_def split: worker.split list.split)

lemma worker_step_frame [simp]:
  "m_shutdown (worker_step i p) = m_shutdown p" "length (m_workers (worker_step i p)) = length (m_workers p)"
  "m_joinable (worker_step i p) = m_joinable p"
  by (auto simp: worker_step_def worker_turn_def set_worker_def split: worker.split list.split)

lemma pool_close_simps [simp]:
  "m_tasks (pool_close p) = m_tasks p" "m_shutdown (pool_close p)" "m_workers (pool_close p) = m_workers p"
  "m_joinable (pool_close p) = m_joinable p"
  by (simp_all add: pool_close_def)

lemma pool_run_fifo:
  "pool_run p as q \<Longrightarrow> m_tasks p @ accepted as = started p as @ m_tasks q"
proof (induction rule: pool_run.induct)
  case (snoc p as q a r)
  note q = pool_run_result[OF snoc.hyps(1)]
  from snoc.hyps(2) show ?case
  proof cases
    case (submit t ok)
    then show ?thesis
      using snoc.IH by (cases ok) (auto simp: accepted_append started_append pool_execute_def split: if_splits)
  next
    case close
    then show ?thesis using snoc.IH by (simp add: accepted_append started_append)
  next
    case (turn i)
    then have "started p (as @ [Turn i]) @ m_tasks r = started p as @ m_tasks q"
      using q by (auto simp: started_append worker_step_tasks)
    then show ?thesis using snoc.IH turn by (simp add: accepted_append)
  qed
qed simp

section \<open>Shutdown\<close>

lemma pool_step_shutdown: "pool_step p a q \<Longrightarrow> m_shutdown p \<Longrightarrow> m_shutdown q \<and> accepted [a] = []"
  by (auto simp: pool_execute_def elim!: pool_stepE)

lemma pool_run_refuses: "pool_run p as q \<Longrightarrow> m_shutdown p \<Longrightarrow> m_shutdown q \<and> accepted as = []"
proof (induction rule: pool_run.induct)
  case (snoc p as q a r)
  then show ?case using pool_step_shutdown[OF snoc.hyps(2)] by (simp add: accepted_append)
qed simp

text \<open>A worker returns only when the pool is shut down and the queue empty, which stays so.\<close>

definition drained :: "'a pool \<Rightarrow> bool" where
  "drained p \<longleftrightarrow> (Exited \<in> set (m_workers p) \<longrightarrow> m_shutdown p \<and> m_tasks p = [])"

lemma drained_step: "pool_step p a q \<Longrightarrow> drained p \<Longrightarrow> drained q"
proof (erule pool_stepE)
  fix i assume i: "i < length (m_workers p)" and q: "q = worker_step i p" and d: "drained p"
  show "drained q"
  proof (cases "m_workers p ! i")
    case Idle
    then have tasks: "m_tasks q = drop 1 (m_tasks p)" using q by (simp add: worker_step_tasks)
    have "m_shutdown p \<and> m_tasks p = []" if "Exited \<in> set (m_workers q)"
    proof (cases "Exited \<in> set (m_workers p)")
      case True
      then show ?thesis using d by (simp add: drained_def)
    next
      case False
      then show ?thesis
        using that q Idle by (auto simp: worker_step_def worker_turn_def set_worker_def
            split: list.splits if_splits dest!: set_update_subset_insert[THEN subsetD])
    qed
    then show ?thesis using tasks q by (auto simp: drained_def)
  next
    case (Busy t)
    then have "Exited \<in> set (m_workers q) \<Longrightarrow> Exited \<in> set (m_workers p)"
      using q by (auto simp: worker_step_def set_worker_def dest!: set_update_subset_insert[THEN subsetD])
    then show ?thesis using d q Busy by (auto simp: drained_def worker_step_tasks)
  next
    case Exited
    then show ?thesis using d q by (simp add: worker_step_def)
  qed
qed (auto simp: drained_def pool_execute_def split: if_splits)

lemma drained_new: "drained (new_pool n)"
  by (auto simp: drained_def new_pool_def Let_def)

lemma pool_run_drained: "pool_run p as q \<Longrightarrow> drained p \<Longrightarrow> drained q"
  by (induction rule: pool_run.induct) (auto dest: drained_step)

section \<open>Progress\<close>

text \<open>Every effective turn of a worker lowers this bound on the turns that are left.\<close>

definition worker_work :: "'a worker \<Rightarrow> nat" where
  "worker_work w = (case w of Idle \<Rightarrow> 1 | Busy _ \<Rightarrow> 2 | Exited \<Rightarrow> 0)"

definition work_left :: "'a pool \<Rightarrow> nat" where
  "work_left p = 2 * length (m_tasks p) + sum_list (map worker_work (m_workers p))"

text \<open>A turn does something unless the worker waits for a notification or has returned.\<close>

definition enabled :: "'a pool \<Rightarrow> nat \<Rightarrow> bool" where
  "enabled p i \<longleftrightarrow> i < length (m_workers p) \<and>
     (case m_workers p ! i of
        Idle \<Rightarrow> m_tasks p \<noteq> [] \<or> m_shutdown p
      | Busy _ \<Rightarrow> True
      | Exited \<Rightarrow> False)"

lemma sum_list_update_nat:
  fixes f :: "'a \<Rightarrow> nat"
  assumes "i < length xs"
  shows "sum_list (map f (xs[i := x])) + f (xs ! i) = sum_list (map f xs) + f x"
  using assms by (induction xs arbitrary: i) (auto split: nat.split simp: nth_Cons')

lemma enabled_turn_works:
  assumes "enabled p i"
  shows "work_left (worker_step i p) < work_left p"
proof -
  have i: "i < length (m_workers p)" using assms by (simp add: enabled_def)
  note upd = sum_list_update_nat[OF i, of worker_work]
  show ?thesis
  proof (cases "m_workers p ! i")
    case Idle
    then show ?thesis
      using assms upd[of "fst (worker_turn p)"] i
      by (cases "m_tasks p")
        (auto simp: work_left_def worker_step_def worker_turn_def set_worker_def enabled_def worker_work_def)
  next
    case (Busy t)
    then show ?thesis
      using upd[of Idle] i by (auto simp: work_left_def worker_step_def set_worker_def worker_work_def)
  qed (use assms in \<open>simp add: enabled_def\<close>)
qed

lemma closed_progress:
  assumes "m_shutdown p" "i < length (m_workers p)" "m_workers p ! i \<noteq> Exited"
  shows "enabled p i"
  using assms by (auto simp: enabled_def split: worker.split)

text \<open>
  Turns of a closed pool: with one enabled turn after the other, all workers have returned after at
  most \<open>work_left\<close> of them.
\<close>

inductive turns :: "'a pool \<Rightarrow> nat list \<Rightarrow> 'a pool \<Rightarrow> bool" where
  stop: "turns p [] p"
| turn: "enabled p i \<Longrightarrow> turns (worker_step i p) is q \<Longrightarrow> turns p (i # is) q"

lemma turns_bounded: "turns p is q \<Longrightarrow> length is + work_left q \<le> work_left p"
  by (induction rule: turns.induct) (auto dest: enabled_turn_works)

lemma turns_shutdown: "turns p is q \<Longrightarrow> m_shutdown q = m_shutdown p \<and> length (m_workers q) = length (m_workers p)"
  by (induction rule: turns.induct) auto

lemma turns_stuck:
  assumes "m_shutdown q" "\<And>i. \<not> enabled q i" "w \<in> set (m_workers q)"
  shows "w = Exited"
  using assms closed_progress[of q] by (metis in_set_conv_nth)

section \<open>awaitTermination\<close>

text \<open>
  Where the calling thread is in \<open>ThreadPool::awaitTermination\<close>: at the head of the loop for
  worker \<open>i\<close>, in \<open>wait_until\<close>, in \<open>join\<close>, or back with its answer.  A step is possible or the
  thread is blocked.
\<close>

datatype await = Check nat | Wait nat | Join nat | Answer bool

definition await_step :: "int \<Rightarrow> int \<Rightarrow> 'a pool \<Rightarrow> await \<Rightarrow> ('a pool \<times> await) option" where
  "await_step limit now p a =
     (case a of
        Check i \<Rightarrow>
          if i \<ge> length (m_workers p) then Some (p, Answer True)
          else if \<not> m_joinable p ! i then Some (p, Check (i + 1))
          else if now \<ge> limit then Some (p, Answer False)
          else Some (p, Wait i)
      | Wait i \<Rightarrow>
          if m_tasks p = [] \<and> m_shutdown p \<or> now \<ge> limit then Some (p, Join i) else None
      | Join i \<Rightarrow>
          if m_workers p ! i = Exited
          then Some (p\<lparr>m_joinable := (m_joinable p)[i := False]\<rparr>, Check (i + 1)) else None
      | Answer b \<Rightarrow> None)"

text \<open>The call, interleaved with the rest of the program; the clock only moves forward.\<close>

inductive awaiting :: "int \<Rightarrow> 'a pool \<Rightarrow> int \<Rightarrow> 'a pool \<Rightarrow> int \<Rightarrow> await \<Rightarrow> bool" for limit p0 t0 where
  call: "awaiting limit p0 t0 p0 t0 (Check 0)"
| own: "awaiting limit p0 t0 p now a \<Longrightarrow> await_step limit now p a = Some (p', a') \<Longrightarrow>
    awaiting limit p0 t0 p' now a'"
| other: "awaiting limit p0 t0 p now a \<Longrightarrow> pool_step p act p' \<Longrightarrow> awaiting limit p0 t0 p' now a"
| tick: "awaiting limit p0 t0 p now a \<Longrightarrow> now \<le> now' \<Longrightarrow> awaiting limit p0 t0 p now' a"

lemma exited_stays:
  assumes "pool_step p act q"
  shows "length (m_workers q) = length (m_workers p)" "m_joinable q = m_joinable p"
    "m_workers p ! j = Exited \<Longrightarrow> m_workers q ! j = Exited"
  using assms
  by (auto simp: pool_execute_def worker_step_def worker_turn_def set_worker_def nth_list_update
      elim!: pool_stepE split: if_splits worker.split list.split)

text \<open>The workers the loop has passed have returned.\<close>

definition passed :: "await \<Rightarrow> nat \<Rightarrow> nat" where
  "passed a n = (case a of Check i \<Rightarrow> i | Wait i \<Rightarrow> i | Join i \<Rightarrow> i | Answer b \<Rightarrow> if b then n else 0)"

definition await_ok :: "'a pool \<Rightarrow> await \<Rightarrow> bool" where
  "await_ok p a \<longleftrightarrow> length (m_joinable p) = length (m_workers p) \<and>
     (\<forall>j < length (m_workers p). \<not> m_joinable p ! j \<longrightarrow> m_workers p ! j = Exited) \<and>
     (\<forall>j < passed a (length (m_workers p)). j < length (m_workers p) \<longrightarrow> m_workers p ! j = Exited)"

lemma await_ok_step:
  assumes "await_ok p a" "await_step limit now p a = Some (p', a')"
  shows "await_ok p' a'"
  using assms
  by (auto simp: await_ok_def await_step_def passed_def less_Suc_eq split: await.splits if_splits)
    (metis nth_list_update_neq)

lemma await_ok_other: "pool_step p act q \<Longrightarrow> await_ok p a \<Longrightarrow> await_ok q a"
  using exited_stays[of p act q] by (auto simp: await_ok_def)

lemma awaiting_ok: "awaiting limit p0 t0 p now a \<Longrightarrow> await_ok p0 (Check 0) \<Longrightarrow> await_ok p a"
  by (induction rule: awaiting.induct) (auto intro: await_ok_step await_ok_other)

lemma awaiting_answer_True:
  assumes "awaiting limit p0 t0 p now (Answer True)" "await_ok p0 (Check 0)"
  shows "set (m_workers p) \<subseteq> {Exited}"
  using awaiting_ok[OF assms] by (auto simp: await_ok_def passed_def in_set_conv_nth)

lemma await_step_drained: "await_step limit now p a = Some (p', a') \<Longrightarrow> drained p \<Longrightarrow> drained p'"
  by (auto simp: drained_def await_step_def split: await.splits if_splits)

lemma awaiting_drained: "awaiting limit p0 t0 p now a \<Longrightarrow> drained p0 \<Longrightarrow> drained p"
  by (induction rule: awaiting.induct) (auto intro: await_step_drained drained_step)

lemma awaiting_workers: "awaiting limit p0 t0 p now a \<Longrightarrow> length (m_workers p) = length (m_workers p0)"
  by (induction rule: awaiting.induct)
    (auto simp: exited_stays await_step_def split: await.splits if_splits)

text \<open>A pool that was only used, and not waited for.\<close>

lemma pool_run_fresh:
  assumes "pool_run (new_pool n) as p"
  shows "await_ok p (Check 0)" "drained p" "m_workers p \<noteq> []"
proof -
  have "pool_run q as p \<Longrightarrow> length (m_workers p) = length (m_workers q) \<and> m_joinable p = m_joinable q" for q
    by (induction rule: pool_run.induct) (auto simp: exited_stays)
  from this[OF assms] show "await_ok p (Check 0)" "m_workers p \<noteq> []"
    by (auto simp: await_ok_def passed_def new_pool_def Let_def split: if_splits)
  show "drained p" by (rule pool_run_drained[OF assms drained_new])
qed

section \<open>The destructor\<close>

text \<open>
  \<open>ThreadPool::~ThreadPool\<close>: shut down, wait for at most a minute, then join what is left without a
  limit.
\<close>

datatype destructor = Shutting | AwaitAll await | JoinLeft nat | Gone

definition destroy_step :: "int \<Rightarrow> int \<Rightarrow> 'a pool \<Rightarrow> destructor \<Rightarrow> ('a pool \<times> destructor) option" where
  "destroy_step limit now p d =
     (case d of
        Shutting \<Rightarrow> Some (pool_close p, AwaitAll (Check 0))
      | AwaitAll a \<Rightarrow>
          (case a of
             Answer b \<Rightarrow> Some (p, JoinLeft 0)
           | _ \<Rightarrow> map_option (map_prod id AwaitAll) (await_step limit now p a))
      | JoinLeft i \<Rightarrow>
          if i \<ge> length (m_workers p) then Some (p, Gone)
          else if \<not> m_joinable p ! i then Some (p, JoinLeft (i + 1))
          else if m_workers p ! i = Exited
          then Some (p\<lparr>m_joinable := (m_joinable p)[i := False]\<rparr>, JoinLeft (i + 1)) else None
      | Gone \<Rightarrow> None)"

inductive destroying :: "int \<Rightarrow> 'a pool \<Rightarrow> 'a pool \<Rightarrow> int \<Rightarrow> destructor \<Rightarrow> bool" for limit p0 where
  call: "destroying limit p0 p0 now Shutting"
| own: "destroying limit p0 p now d \<Longrightarrow> destroy_step limit now p d = Some (p', d') \<Longrightarrow>
    destroying limit p0 p' now d'"
| other: "destroying limit p0 p now d \<Longrightarrow> pool_step p act p' \<Longrightarrow> destroying limit p0 p' now d"
| tick: "destroying limit p0 p now d \<Longrightarrow> now \<le> now' \<Longrightarrow> destroying limit p0 p now' d"

definition joins :: "destructor \<Rightarrow> await" where
  "joins d = (case d of Shutting \<Rightarrow> Check 0 | AwaitAll a \<Rightarrow> a | JoinLeft i \<Rightarrow> Check i | Gone \<Rightarrow> Answer True)"

lemma await_ok_close: "await_ok (pool_close p) a = await_ok p a"
  by (simp add: await_ok_def)

lemma await_ok_restart: "await_ok p a \<Longrightarrow> await_ok p (Check 0)"
  by (simp add: await_ok_def passed_def)

lemma await_ok_join:
  assumes "await_ok p (Check i)" "i < length (m_workers p)" "m_workers p ! i = Exited"
  shows "await_ok (p\<lparr>m_joinable := (m_joinable p)[i := False]\<rparr>) (Check (Suc i))" "await_ok p (Check (Suc i))"
  using assms by (auto simp: await_ok_def passed_def less_Suc_eq nth_list_update)

lemma destroy_step_ok:
  assumes "await_ok p (joins d)" "destroy_step limit now p d = Some (p', d')"
  shows "await_ok p' (joins d')"
proof (cases d)
  case (AwaitAll a)
  then have a: "await_ok p a" using assms(1) by (simp add: joins_def)
  show ?thesis
  proof (cases "\<exists>b. a = Answer b")
    case True
    then show ?thesis
      using assms(2) AwaitAll await_ok_restart[OF a] by (auto simp: destroy_step_def joins_def)
  next
    case False
    then obtain a' where "await_step limit now p a = Some (p', a')" "d' = AwaitAll a'"
      using assms(2) AwaitAll by (cases a) (auto simp: destroy_step_def)
    then show ?thesis using await_ok_step[OF a] by (simp add: joins_def)
  qed
next
  case (JoinLeft i)
  then have i: "await_ok p (Check i)" using assms(1) by (simp add: joins_def)
  consider "i \<ge> length (m_workers p)" | "i < length (m_workers p)" "\<not> m_joinable p ! i"
    | "i < length (m_workers p)" "m_joinable p ! i" by linarith
  then show ?thesis
  proof cases
    case 1
    then show ?thesis using assms(2) JoinLeft i by (simp add: destroy_step_def joins_def await_ok_def passed_def)
  next
    case 2
    then have "m_workers p ! i = Exited" using i by (simp add: await_ok_def)
    then show ?thesis
      using 2 assms(2) JoinLeft await_ok_join(2)[OF i] by (auto simp add: destroy_step_def joins_def)
  next
    case 3
    then show ?thesis
      using assms(2) JoinLeft await_ok_join(1)[OF i] by (auto simp add: destroy_step_def joins_def split: if_splits)
  qed
qed (use assms in \<open>auto simp: destroy_step_def joins_def await_ok_close\<close>)

lemma destroying_ok: "destroying limit p0 p now d \<Longrightarrow> await_ok p0 (Check 0) \<Longrightarrow> await_ok p (joins d)"
  by (induction rule: destroying.induct) (auto simp: joins_def[of Shutting] intro: destroy_step_ok await_ok_other)

text \<open>The queue is empty once a worker has returned.\<close>

lemma destroy_step_drained: "destroy_step limit now p d = Some (p', d') \<Longrightarrow> drained p \<Longrightarrow> drained p'"
  by (auto simp: destroy_step_def drained_def[of "_\<lparr>m_joinable := _\<rparr>"] drained_def[of "pool_close _"] dest: await_step_drained
      split: destructor.splits await.splits if_splits) (auto simp: drained_def)

lemma destroying_drained: "destroying limit p0 p now d \<Longrightarrow> drained p0 \<Longrightarrow> drained p"
  by (induction rule: destroying.induct) (auto intro: destroy_step_drained drained_step)

lemma destroy_step_workers:
  "destroy_step limit now p d = Some (p', d') \<Longrightarrow> length (m_workers p') = length (m_workers p)"
  by (auto simp: destroy_step_def await_step_def split: destructor.splits await.splits if_splits)

lemma destroying_workers: "destroying limit p0 p now d \<Longrightarrow> length (m_workers p) = length (m_workers p0)"
  by (induction rule: destroying.induct) (auto simp: exited_stays destroy_step_workers)

lemma destroying_gone:
  assumes "destroying limit p0 p now Gone" "await_ok p0 (Check 0)" "drained p0" "m_workers p \<noteq> []"
  shows "set (m_workers p) = {Exited}" "m_tasks p = []"
proof -
  have "\<forall>w \<in> set (m_workers p). w = Exited"
    using destroying_ok[OF assms(1,2)] by (auto simp: joins_def await_ok_def passed_def in_set_conv_nth)
  then show "set (m_workers p) = {Exited}" using assms(4) by (cases "m_workers p") auto
  then show "m_tasks p = []" using destroying_drained[OF assms(1,3)] by (simp add: drained_def)
qed

end
