(* ===== verification/Async.thy ===== *)
theory Async
  imports Timer_Service Thread_Pool
begin

text \<open>
  The asynchronous part of \<open>class Statechart\<close> (\<open>Statechart.cpp\<close>) and \<open>EventQueueEntry::run\<close>: the
  calls \<open>startAsynchron\<close>, \<open>dispatchAsynchron\<close>, \<open>shutdown\<close> and \<open>isShutdown\<close>, the loop of the timeout
  thread, and the worker threads that run the entries.

  The whole program is a state with the control states of the threads, and its executions are the
  sequences of steps in any interleaving.  A critical section is one step: the methods of the
  thread pool and of the timeout queue under their mutexes, and a dispatch under the mutex of the
  metadata.  The checks of \<open>EventQueueEntry::run\<close> that are made before the lock is taken are a step
  of their own.
\<close>

section \<open>Calls\<close>

text \<open>\<open>Statechart::isShutdown\<close>; the pool always exists.\<close>

definition isShutdown :: "'e rt \<Rightarrow> bool" where
  "isShutdown r = pool_shutdown (rt_sv r)"

text \<open>\<open>m_threadpool->execute\<close> with the entry's \<open>run\<close>\<close>

definition submit :: "eid \<Rightarrow> service \<Rightarrow> service" where
  "submit e sv = (if pool_shutdown sv then sv else sv\<lparr>tasks := tasks sv @ [e]\<rparr>)"

text \<open>\<open>Statechart::dispatchAsynchron(Metadata&, shared_ptr<Event>, shared_ptr<Parameter>)\<close>\<close>

definition enqueue_event :: "nat \<Rightarrow> event option \<Rightarrow> pref option \<Rightarrow> service \<Rightarrow> service" where
  "enqueue_event md ev p sv =
     (if pool_shutdown sv then sv
      else case ev of
        Some (TimeoutEvent ms hi lo) \<Rightarrow>
          (case new_entry 0 md ev p ms sv of (e, sv1) \<Rightarrow>
             sv1\<lparr>pendingEntries := pendingEntries sv1 @ [e],
                 timeoutQueue := dq_add (deadline sv1) e (timeoutQueue sv1)\<rparr>)
      | _ \<Rightarrow>
          (case new_entry 0 md ev p 0 sv of (e, sv1) \<Rightarrow>
             submit e (sv1\<lparr>pendingEntries := pendingEntries sv1 @ [e]\<rparr>)))"

definition dispatchAsynchron :: "event option \<Rightarrow> pref option \<Rightarrow> 'e rt \<Rightarrow> 'e rt" where
  "dispatchAsynchron ev p r = upd_sv (enqueue_event (md_id (rt_md r)) ev p) r"

text \<open>The overloads without a parameter: \<open>std::make_shared<Parameter>()\<close>\<close>

definition fresh_shared :: "(pref \<Rightarrow> 'e rt \<Rightarrow> 'e rt) \<Rightarrow> 'e rt \<Rightarrow> 'e rt" where
  "fresh_shared call r =
     call (SharedParam (next_param (rt_sv r))) (upd_sv (\<lambda>sv. sv\<lparr>next_param := Suc (next_param sv)\<rparr>) r)"

definition startAsynchron :: "'e chart \<Rightarrow> pref option \<Rightarrow> 'e rt \<Rightarrow> 'e rt" where
  "startAsynchron ch p r = dispatchAsynchron None p (init_data ch r)"

section \<open>Running an entry\<close>

text \<open>
  \<open>EventQueueEntry::run\<close>, first part: nothing to do for an invalid entry or an inactive state.  The
  three pointers are never null in an entry the library makes.
\<close>

definition run_check :: "eid \<Rightarrow> 'e rt \<Rightarrow> bool" where
  "run_check e r \<longleftrightarrow> \<not> invalid (rt_sv r) e \<and> isActive r (e_state (entries (rt_sv r) ! e))"

text \<open>Second part: the reference to the parameter, then the dispatch.\<close>

definition run_dispatch :: "nat \<Rightarrow> 'e chart \<Rightarrow> eid \<Rightarrow> (bool, 'e rt) prog" where
  "run_dispatch n ch e =
     mbind (mget (\<lambda>r. entries (rt_sv r) ! e)) (\<lambda>en.
     case e_param en of
       Some p \<Rightarrow>
         mbind (mvalid (\<lambda>r. param_alive (rt_sv r) p)) (\<lambda>_.
         dispatch n ch 0 (e_event en) p)
     | None \<Rightarrow> with_local (dispatch n ch 0 (e_event en)))"

section \<open>Threads\<close>

text \<open>A worker running an entry: before the checks of \<open>run\<close>, or past them.\<close>

datatype phase = Checking eid | Dispatching eid

text \<open>The timeout thread: at the head of its loop, in \<open>take\<close>, with an entry, or returned.\<close>

datatype timer_thread = Head | Taking | Got eid | Returned

text \<open>The thread that calls \<open>shutdown\<close>, statement by statement.\<close>

datatype closer =
    Open
  | Clearing
  | Stopping
  | ClosingPool
  | JoiningTimer
  | Awaiting int await
  | Releasing bool
  | Closed bool

record 'e sys =
  sys_rt :: "'e rt"
  sys_workers :: "phase worker list"
  sys_joinable :: "bool list"
  sys_timer :: timer_thread
  sys_closer :: closer

definition upd_rt :: "('e rt \<Rightarrow> 'e rt) \<Rightarrow> 'e sys \<Rightarrow> 'e sys" where
  "upd_rt f s = s\<lparr>sys_rt := f (sys_rt s)\<rparr>"

abbreviation sys_sv :: "'e sys \<Rightarrow> service" where
  "sys_sv s \<equiv> rt_sv (sys_rt s)"

text \<open>
  \<open>Statechart::Statechart\<close>: a pool of one thread, whatever \<open>p_threads\<close> says, and the timeout
  thread are started.
\<close>

definition new_sys :: "int \<Rightarrow> 'e \<Rightarrow> int \<Rightarrow> 'e sys" where
  "new_sys p_threads env now =
     (let p = (new_pool 1 :: phase pool)
      in \<lparr>sys_rt = new_rt env now, sys_workers = m_workers p, sys_joinable = m_joinable p,
          sys_timer = Head, sys_closer = Open\<rparr>)"

text \<open>The pool inside the statechart, as theory \<open>Thread_Pool\<close> has it.\<close>

definition entry_of :: "phase \<Rightarrow> eid" where
  "entry_of ph = (case ph of Checking e \<Rightarrow> e | Dispatching e \<Rightarrow> e)"

definition pool_of :: "'e sys \<Rightarrow> eid pool" where
  "pool_of s = \<lparr>m_tasks = tasks (sys_sv s), m_shutdown = pool_shutdown (sys_sv s),
     m_workers = map (map_worker entry_of) (sys_workers s), m_joinable = sys_joinable s\<rparr>"

text \<open>
  One turn of a worker.  \<open>held\<close> keeps the entries that threads hold in local variables alive.
\<close>

definition take_task :: "nat \<Rightarrow> 'e sys \<Rightarrow> 'e sys" where
  "take_task i s =
     (case tasks (sys_sv s) of
        [] \<Rightarrow> if pool_shutdown (sys_sv s) then s\<lparr>sys_workers := (sys_workers s)[i := Exited]\<rparr> else s
      | e # es \<Rightarrow>
          upd_rt (upd_sv (\<lambda>sv. sv\<lparr>tasks := es, held := e # held sv\<rparr>))
            (s\<lparr>sys_workers := (sys_workers s)[i := Busy (Checking e)]\<rparr>))"

definition release :: "eid \<Rightarrow> 'e rt \<Rightarrow> 'e rt" where
  "release e = upd_sv (\<lambda>sv. sv\<lparr>held := remove1 e (held sv)\<rparr>)"

definition task_done :: "nat \<Rightarrow> eid \<Rightarrow> 'e rt \<Rightarrow> 'e sys \<Rightarrow> 'e sys" where
  "task_done i e r s = s\<lparr>sys_rt := release e r, sys_workers := (sys_workers s)[i := Idle]\<rparr>"

inductive worker_moves :: "nat \<Rightarrow> 'e chart \<Rightarrow> nat \<Rightarrow> 'e sys \<Rightarrow> 'e sys \<Rightarrow> bool" for n ch i where
  turn: "sys_workers s ! i = Idle \<Longrightarrow> worker_moves n ch i s (take_task i s)"
| passes: "sys_workers s ! i = Busy (Checking e) \<Longrightarrow> run_check e (sys_rt s) \<Longrightarrow>
    worker_moves n ch i s (s\<lparr>sys_workers := (sys_workers s)[i := Busy (Dispatching e)]\<rparr>)"
| fails: "sys_workers s ! i = Busy (Checking e) \<Longrightarrow> \<not> run_check e (sys_rt s) \<Longrightarrow>
    worker_moves n ch i s (task_done i e (sys_rt s) s)"
| dispatches: "sys_workers s ! i = Busy (Dispatching e) \<Longrightarrow> run_dispatch n ch e (sys_rt s) = Ret b r \<Longrightarrow>
    worker_moves n ch i s (task_done i e r s)"
| throws: "sys_workers s ! i = Busy (Dispatching e) \<Longrightarrow> run_dispatch n ch e (sys_rt s) = Exn x r \<Longrightarrow>
    worker_moves n ch i s (task_done i e r s)"

text \<open>\<open>Statechart::timeoutLoop\<close>; blocked while \<open>take\<close> waits.\<close>

definition timer_moves :: "'e sys \<Rightarrow> 'e sys" where
  "timer_moves s =
     (case sys_timer s of
        Head \<Rightarrow> s\<lparr>sys_timer := if running (sys_sv s) then Taking else Returned\<rparr>
      | Taking \<Rightarrow>
          (case dq_take_iter (deadline (sys_sv s)) (clock (sys_sv s)) (timeoutQueue (sys_sv s)) of
             (Stopped, _) \<Rightarrow> s\<lparr>sys_timer := Returned\<rparr>
           | (Taken e, q) \<Rightarrow>
               upd_rt (upd_sv (\<lambda>sv. sv\<lparr>timeoutQueue := q, held := e # held sv\<rparr>)) (s\<lparr>sys_timer := Got e\<rparr>)
           | _ \<Rightarrow> s)
      | Got e \<Rightarrow>
          if invalid (sys_sv s) e then upd_rt (release e) (s\<lparr>sys_timer := Head\<rparr>)
          else if isShutdown (sys_rt s) then upd_rt (release e) (s\<lparr>sys_timer := Returned\<rparr>)
          else upd_rt (release e \<circ> upd_sv (submit e)) (s\<lparr>sys_timer := Head\<rparr>)
      | Returned \<Rightarrow> s)"

text \<open>\<open>Statechart::shutdown\<close>; the last wait is at most 60 seconds, then the thread joins.\<close>

definition closer_moves :: "'e sys \<Rightarrow> 'e sys" where
  "closer_moves s =
     (case sys_closer s of
        Open \<Rightarrow>
          if running (sys_sv s)
          then upd_rt (upd_sv (\<lambda>sv. sv\<lparr>running := False\<rparr>)) (s\<lparr>sys_closer := Clearing\<rparr>)
          else s
      | Clearing \<Rightarrow>
          upd_rt (upd_sv (\<lambda>sv. sv\<lparr>timeoutQueue := dq_clear (timeoutQueue sv)\<rparr>)) (s\<lparr>sys_closer := Stopping\<rparr>)
      | Stopping \<Rightarrow>
          upd_rt (upd_sv (\<lambda>sv. sv\<lparr>timeoutQueue := dq_stop (timeoutQueue sv)\<rparr>)) (s\<lparr>sys_closer := ClosingPool\<rparr>)
      | ClosingPool \<Rightarrow>
          upd_rt (upd_sv (\<lambda>sv. sv\<lparr>pool_shutdown := True\<rparr>)) (s\<lparr>sys_closer := JoiningTimer\<rparr>)
      | JoiningTimer \<Rightarrow>
          if sys_timer s = Returned
          then s\<lparr>sys_closer := Awaiting (clock (sys_sv s) + 60000) (Check 0)\<rparr> else s
      | Awaiting limit a \<Rightarrow>
          (case a of
             Answer b \<Rightarrow> s\<lparr>sys_closer := Releasing b\<rparr>
           | _ \<Rightarrow>
               (case await_step limit (clock (sys_sv s)) (pool_of s) a of
                  None \<Rightarrow> s
                | Some (p, a') \<Rightarrow> s\<lparr>sys_joinable := m_joinable p, sys_closer := Awaiting limit a'\<rparr>))
      | Releasing b \<Rightarrow>
          upd_rt (upd_sv (\<lambda>sv. sv\<lparr>pendingEntries := []\<rparr>)) (s\<lparr>sys_closer := Closed b\<rparr>)
      | Closed b \<Rightarrow> s)"

text \<open>
  All that can happen next: a call of the client (synchronous ones return or throw), a step of one
  of the threads, or time passing.
\<close>

inductive sys_step :: "nat \<Rightarrow> 'e chart \<Rightarrow> 'e sys \<Rightarrow> 'e sys \<Rightarrow> bool" for n ch where
  sync: "run_input n ch i (sys_rt s) = Ret b r \<Longrightarrow> sys_step n ch s (s\<lparr>sys_rt := r\<rparr>)"
| sync_throws: "run_input n ch i (sys_rt s) = Exn x r \<Longrightarrow> sys_step n ch s (s\<lparr>sys_rt := r\<rparr>)"
| async: "sys_step n ch s (upd_rt (dispatchAsynchron ev p) s)"
| async_start: "sys_step n ch s (upd_rt (startAsynchron ch p) s)"
| async_fresh: "sys_step n ch s (upd_rt (fresh_shared (\<lambda>p. dispatchAsynchron ev (Some p))) s)"
| async_start_fresh: "sys_step n ch s (upd_rt (fresh_shared (\<lambda>p. startAsynchron ch (Some p))) s)"
| worker: "i < length (sys_workers s) \<Longrightarrow> worker_moves n ch i s s' \<Longrightarrow> sys_step n ch s s'"
| timer: "sys_step n ch s (timer_moves s)"
| closer: "sys_step n ch s (closer_moves s)"
| tick: "calm (sys_rt s) r \<Longrightarrow> sys_step n ch s (s\<lparr>sys_rt := r\<rparr>)"

inductive_cases sys_stepE: "sys_step n ch s s'"
inductive_cases worker_movesE: "worker_moves n ch i s s'"

inductive sys_reach :: "nat \<Rightarrow> 'e chart \<Rightarrow> 'e sys \<Rightarrow> bool" for n ch where
  new: "sys_reach n ch (new_sys threads env now)"
| step: "sys_reach n ch s \<Longrightarrow> sys_step n ch s s' \<Longrightarrow> sys_reach n ch s'"

section \<open>What the steps do to the service\<close>

lemma upd_rt_simps [simp]:
  "sys_rt (upd_rt f s) = f (sys_rt s)" "sys_workers (upd_rt f s) = sys_workers s"
  "sys_joinable (upd_rt f s) = sys_joinable s" "sys_timer (upd_rt f s) = sys_timer s"
  "sys_closer (upd_rt f s) = sys_closer s"
  by (simp_all add: upd_rt_def)

lemma release_sv [simp]: "rt_sv (release e r) = (rt_sv r)\<lparr>held := remove1 e (held (rt_sv r))\<rparr>"
  by (simp add: release_def)

lemma submit_simps [simp]:
  "entries (submit e sv) = entries sv" "held (submit e sv) = held sv" "clock (submit e sv) = clock sv"
  "pendingEntries (submit e sv) = pendingEntries sv" "timeoutQueue (submit e sv) = timeoutQueue sv"
  "pool_shutdown (submit e sv) = pool_shutdown sv" "running (submit e sv) = running sv"
  "idCounter (submit e sv) = idCounter sv"
  by (simp_all add: submit_def)

lemma init_data_sv [simp]: "rt_sv (init_data ch r) = rt_sv r"
  by (simp add: init_data_def Let_def resetData_def split: option.split)

text \<open>A law of the timers that the threads keep as well.\<close>

locale async_law = service_invariant +
  assumes J_event: "J sv \<Longrightarrow> J (enqueue_event md ev p sv)"
    and J_param: "J sv \<Longrightarrow> J (sv\<lparr>next_param := k\<rparr>)"
    and J_take: "J sv \<Longrightarrow> tasks sv = e # es \<Longrightarrow> J (sv\<lparr>tasks := es, held := e # held sv\<rparr>)"
    and J_release: "J sv \<Longrightarrow> J (sv\<lparr>held := remove1 e (held sv)\<rparr>)"
    and J_pop: "J sv \<Longrightarrow> dq_take_iter (deadline sv) (clock sv) (timeoutQueue sv) = (Taken e, q) \<Longrightarrow>
      J (sv\<lparr>timeoutQueue := q, held := e # held sv\<rparr>)"
    and J_submit: "J sv \<Longrightarrow> e \<in> set (held sv) \<Longrightarrow> J (submit e sv)"
    and J_flags: "J sv \<Longrightarrow> J (sv\<lparr>running := b\<rparr>)" "J sv \<Longrightarrow> J (sv\<lparr>pool_shutdown := b\<rparr>)"
    and J_clear: "J sv \<Longrightarrow> J (sv\<lparr>timeoutQueue := dq_clear (timeoutQueue sv)\<rparr>)"
    and J_stop: "J sv \<Longrightarrow> J (sv\<lparr>timeoutQueue := dq_stop (timeoutQueue sv)\<rparr>)"

section \<open>The entries threads hold\<close>

definition worker_entries :: "phase worker \<Rightarrow> eid list" where
  "worker_entries w = (case w of Busy ph \<Rightarrow> [entry_of ph] | _ \<Rightarrow> [])"

definition timer_entries :: "timer_thread \<Rightarrow> eid list" where
  "timer_entries t = (case t of Got e \<Rightarrow> [e] | _ \<Rightarrow> [])"

text \<open>\<open>held\<close> is exactly what the threads hold.\<close>

definition held_ok :: "'e sys \<Rightarrow> bool" where
  "held_ok s \<longleftrightarrow> mset (held (sys_sv s)) =
     sum_list (map (mset \<circ> worker_entries) (sys_workers s)) + mset (timer_entries (sys_timer s))"

lemma sum_workers_update:
  assumes "i < length ws"
  shows "sum_list (map (mset \<circ> worker_entries) (ws[i := w])) + mset (worker_entries (ws ! i)) =
    sum_list (map (mset \<circ> worker_entries) ws) + mset (worker_entries w)"
  using assms by (induction ws arbitrary: i) (auto split: nat.split simp: nth_Cons')

text \<open>The calls of the states change neither the tasks nor what threads hold.\<close>

context service_law begin

lemma keeps_run_dispatch:
  assumes "wf_chart ch" "benign_chart ch"
  shows "keeps (K ch) (run_dispatch n ch e)"
proof -
  have n0: "0 < n_states ch" using assms(1) by (simp add: wf_chart_def wf_core_def wf_tree_def)
  have d: "keeps (K ch) (dispatch n ch 0 ev p)" for ev p
    unfolding dispatch_def by (rule vkeepsD(3)[OF vkeeps_vcalls[OF assms] n0])
  show ?thesis
    unfolding run_dispatch_def by (intro keep_rules keeps_bind keeps_with_local d)
qed

end

lemma calls_keep_pool:
  assumes "wf_chart ch" "benign_chart ch" "within ch r"
    and m: "m = run_input n ch i \<or> m = run_dispatch n ch e" and out: "m r = Ret b r' \<or> m r = Exn x r'"
  shows "same_pool (rt_sv r) (rt_sv r')" "within ch r'"
proof -
  have "pool_frame.K (rt_sv r) ch r" using assms(3) by (simp add: pool_frame.K_def same_pool_def)
  moreover have "keeps (pool_frame.K (rt_sv r) ch) m"
    using m pool_frame.keeps_run_input[OF assms(1,2)] pool_frame.keeps_run_dispatch[OF assms(1,2)] by blast
  ultimately have "wp True True m (\<lambda>_. pool_frame.K (rt_sv r) ch) (\<lambda>_. pool_frame.K (rt_sv r) ch) r"
    by (rule keepsD[rotated])
  then have "pool_frame.K (rt_sv r) ch r'" using out by (auto dest: wp_conj_Ret wp_conj_Exn)
  then show "same_pool (rt_sv r) (rt_sv r')" "within ch r'" by (simp_all add: pool_frame.K_def)
qed

lemma enqueue_event_frame [simp]:
  "held (enqueue_event md ev p sv) = held sv" "running (enqueue_event md ev p sv) = running sv"
  "pool_shutdown (enqueue_event md ev p sv) = pool_shutdown sv" "clock (enqueue_event md ev p sv) = clock sv"
  by (auto simp: enqueue_event_def new_entry_def submit_def split: option.split event.split)

lemma dispatchAsynchron_simps [simp]:
  "rt_sv (dispatchAsynchron ev p r) = enqueue_event (md_id (rt_md r)) ev p (rt_sv r)"
  "within ch (dispatchAsynchron ev p r) = within ch r"
  by (simp_all add: dispatchAsynchron_def)

lemma within_init_data:
  assumes "wf_chart ch"
  shows "within ch (init_data ch r)"
proof -
  have wf: "wf_tree ch" using assms by (simp add: wf_chart_def wf_core_def)
  then have n0: "0 < n_states ch" by (simp add: wf_tree_def)
  have "within ch (resetData r)" by (simp add: within_def resetData_def getData_def)
  then show ?thesis
    using within_activateData[OF _ n0 wf] within_activateData[OF _ own_slots(1)[OF assms n0] wf]
    by (auto simp: init_data_def Let_def split: option.split)
qed

section \<open>Invariants of the program\<close>

definition closed :: "'e sys \<Rightarrow> bool" where
  "closed s \<longleftrightarrow> (\<exists>b. sys_closer s = Closed b)"

lemma held_worker:
  assumes "held_ok s" "within ch (sys_rt s)" "wf_chart ch" "benign_chart ch" "i < length (sys_workers s)"
    and "worker_moves n ch i s s'"
  shows "held_ok s'" "within ch (sys_rt s')"
proof -
  have own: "held_ok (task_done i e r s) \<and> within ch (sys_rt (task_done i e r s))"
    if "sys_workers s ! i = Busy ph" "entry_of ph = e" "held (rt_sv r) = held (sys_sv s)" "within ch r" for e ph r
  proof -
    let ?M = "sum_list (map (mset \<circ> worker_entries) ((sys_workers s)[i := Idle]))"
    have "sum_list (map (mset \<circ> worker_entries) (sys_workers s)) = add_mset e ?M"
      using that(1,2) sum_workers_update[OF assms(5), of Idle] by (simp add: worker_entries_def)
    then have "mset (held (sys_sv s)) = add_mset e (?M + mset (timer_entries (sys_timer s)))"
      using assms(1) by (simp add: held_ok_def)
    then show ?thesis using that(3,4) by (simp add: held_ok_def task_done_def release_def)
  qed
  have "held_ok s' \<and> within ch (sys_rt s')"
    using assms(6)
  proof cases
    case turn
    then show ?thesis
      using assms(1,2) sum_workers_update[OF assms(5)]
      by (auto simp: take_task_def held_ok_def worker_entries_def entry_of_def split: list.split)
  next
    case (passes e)
    then show ?thesis
      using assms(1,2) sum_workers_update[OF assms(5), of "Busy (Dispatching e)"]
      by (auto simp: held_ok_def worker_entries_def entry_of_def)
  next
    case (fails e)
    then show ?thesis using own[of "Checking e" e "sys_rt s"] assms(2) by (simp add: entry_of_def)
  next
    case (dispatches e b r)
    then show ?thesis
      using own[of "Dispatching e" e r] calls_keep_pool[OF assms(3,4,2), of "run_dispatch n ch e" n _ e b r]
      by (auto simp: entry_of_def same_pool_def)
  next
    case (throws e x r)
    then show ?thesis
      using own[of "Dispatching e" e r] calls_keep_pool[OF assms(3,4,2), of "run_dispatch n ch e" n _ e _ r x]
      by (auto simp: entry_of_def same_pool_def)
  qed
  then show "held_ok s'" "within ch (sys_rt s')" by simp_all
qed

lemma timer_moves_simps [simp]:
  "sys_closer (timer_moves s) = sys_closer s" "sys_workers (timer_moves s) = sys_workers s"
  "sys_joinable (timer_moves s) = sys_joinable s" "rt_md (sys_rt (timer_moves s)) = rt_md (sys_rt s)"
  by (simp_all add: timer_moves_def release_def split: timer_thread.split take_result.split prod.split)

lemma closer_moves_simps [simp]:
  "sys_timer (closer_moves s) = sys_timer s" "sys_workers (closer_moves s) = sys_workers s"
  "held (sys_sv (closer_moves s)) = held (sys_sv s)" "rt_md (sys_rt (closer_moves s)) = rt_md (sys_rt s)"
  by (simp_all add: closer_moves_def split: closer.split await.split option.split prod.split)

lemma held_timer: "held_ok s \<Longrightarrow> held_ok (timer_moves s)"
  unfolding held_ok_def timer_moves_simps
  by (cases "sys_timer s")
    (auto simp: timer_moves_def timer_entries_def split: take_result.split prod.split)

lemma within_md: "rt_md r' = rt_md r \<Longrightarrow> within ch r' = within ch r"
  by (simp add: within_def getData_def)

lemma held_threads:
  assumes "held_ok s" "within ch (sys_rt s)"
  shows "held_ok (timer_moves s)" "within ch (sys_rt (timer_moves s))"
    "held_ok (closer_moves s)" "within ch (sys_rt (closer_moves s))"
  using assms held_timer within_md[of "sys_rt (timer_moves s)"] within_md[of "sys_rt (closer_moves s)"]
  by (simp_all add: held_ok_def)

text \<open>One step; the property \<open>J\<close> may be lost when \<open>shutdown\<close> drops the pending entries.\<close>

definition sys_ok :: "'e chart \<Rightarrow> 'e sys \<Rightarrow> bool" where
  "sys_ok ch s \<longleftrightarrow> held_ok s \<and> within ch (sys_rt s)"

lemma sys_ok_step:
  assumes "wf_chart ch" "benign_chart ch" "sys_ok ch s" "sys_step n ch s s'"
  shows "sys_ok ch s'"
proof -
  have h: "held_ok s" "within ch (sys_rt s)" using assms(3) by (simp_all add: sys_ok_def)
  have same: "sys_ok ch (s\<lparr>sys_rt := r\<rparr>)" if "held (rt_sv r) = held (sys_sv s)" "within ch r" for r
    using h(1) that by (simp add: sys_ok_def held_ok_def)
  from assms(4) show ?thesis
  proof cases
    case (sync i b r)
    then show ?thesis
      using calls_keep_pool[OF assms(1,2) h(2), of "run_input n ch i" n i _ b r]
      by (auto simp: same_pool_def intro: same)
  next
    case (sync_throws i x r)
    then show ?thesis
      using calls_keep_pool[OF assms(1,2) h(2), of "run_input n ch i" n i _ _ r x]
      by (auto simp: same_pool_def intro: same)
  next
    case (worker i)
    then show ?thesis using held_worker[OF h assms(1,2)] by (simp add: sys_ok_def)
  next
    case (tick r)
    then show ?thesis using h(2) within_calm[OF tick(2), of ch] by (auto simp: calm_def intro: same)
  qed (use h held_threads[OF h] in \<open>auto simp: sys_ok_def held_ok_def fresh_shared_def startAsynchron_def
      within_init_data[OF assms(1)]\<close>)
qed

lemma sys_ok_new: "sys_ok ch (new_sys threads env now)"
  by (simp add: sys_ok_def held_ok_def new_sys_def new_pool_def Let_def timer_entries_def worker_entries_def
      new_rt_def new_service_def within_def new_metadata_def getData_def)

lemma sys_reach_ok: "wf_chart ch \<Longrightarrow> benign_chart ch \<Longrightarrow> sys_reach n ch s \<Longrightarrow> sys_ok ch s"
  by (rotate_tac 2, induction rule: sys_reach.induct) (blast intro: sys_ok_new sys_ok_step)+

context service_law begin

lemma J_call:
  assumes "wf_chart ch" "benign_chart ch" "within ch r" "J (rt_sv r)"
    and m: "m = run_input n ch i \<or> m = run_dispatch n ch e" and out: "m r = Ret b r' \<or> m r = Exn x r'"
  shows "J (rt_sv r')"
proof -
  have "K ch r" using assms(3,4) by (simp add: K_def)
  moreover have "keeps (K ch) m"
    using m keeps_run_input[OF assms(1,2)] keeps_run_dispatch[OF assms(1,2)] by blast
  ultimately have "wp True True m (\<lambda>_. K ch) (\<lambda>_. K ch) r" by (rule keepsD[rotated])
  then have "K ch r'" using out by (auto dest: wp_conj_Ret wp_conj_Exn)
  then show ?thesis by (simp add: K_def)
qed

end

context async_law begin

lemma J_worker:
  assumes wf: "wf_chart ch" "benign_chart ch" and ok: "sys_ok ch s" "J (sys_sv s)"
    and "i < length (sys_workers s)" "worker_moves n ch i s s'"
  shows "J (sys_sv s')"
proof -
  have w: "within ch (sys_rt s)" using ok by (simp add: sys_ok_def)
  from assms(6) show ?thesis
  proof cases
    case turn
    then show ?thesis using ok(2) J_take by (auto simp: take_task_def split: list.split)
  next
    case (dispatches e b r)
    have "J (rt_sv r)" by (rule J_call[OF wf w ok(2), of "run_dispatch n ch e" n _ e b r]) (use dispatches in auto)
    then show ?thesis using dispatches J_release by (simp add: task_done_def)
  next
    case (throws e x r)
    have "J (rt_sv r)" by (rule J_call[OF wf w ok(2), of "run_dispatch n ch e" n _ e _ r x]) (use throws in auto)
    then show ?thesis using throws J_release by (simp add: task_done_def)
  qed (use ok J_release in \<open>auto simp: task_done_def\<close>)
qed

lemma J_timer:
  assumes "sys_ok ch s" "J (sys_sv s)"
  shows "J (sys_sv (timer_moves s))"
proof (cases "sys_timer s")
  case Taking
  then show ?thesis
    using assms(2) J_pop by (auto simp: timer_moves_def split: prod.split take_result.split)
next
  case (Got e)
  then have "e \<in># mset (held (sys_sv s))"
    using assms(1) by (simp add: sys_ok_def held_ok_def timer_entries_def del: set_mset_mset)
  then have "J (submit e (sys_sv s))" using J_submit[OF assms(2)] by simp
  then show ?thesis using Got assms(2) J_release[of "submit e (sys_sv s)" e] J_release by (auto simp: timer_moves_def)
qed (use assms in \<open>simp_all add: timer_moves_def\<close>)

lemma J_closer: "J (sys_sv s) \<Longrightarrow> \<not> closed (closer_moves s) \<Longrightarrow> J (sys_sv (closer_moves s))"
  using J_flags J_clear J_stop
  by (auto simp: closer_moves_def closed_def split: closer.split await.split option.split prod.split)

theorem sys_reach_J:
  assumes wf: "wf_chart ch" "benign_chart ch"
  shows "sys_reach n ch s \<Longrightarrow> \<not> closed s \<Longrightarrow> J (sys_sv s)"
proof (induction rule: sys_reach.induct)
  case (new threads env now)
  then show ?case using J_new by (simp add: new_sys_def Let_def new_rt_def)
next
  case (step s s')
  have ok: "sys_ok ch s" by (rule sys_reach_ok[OF wf step.hyps(1)])
  then have w: "within ch (sys_rt s)" by (simp add: sys_ok_def)
  have still: "\<not> closed s" if "sys_closer s' = sys_closer s" using that step.prems by (simp add: closed_def)
  from step.hyps(2) show ?case
  proof cases
    case (sync i b r)
    then show ?thesis using J_call[OF wf w step.IH[OF still], of "run_input n ch i"] by auto
  next
    case (sync_throws i x r)
    then show ?thesis using J_call[OF wf w step.IH[OF still], of "run_input n ch i"] by auto
  next
    case (worker i)
    have "sys_closer s' = sys_closer s"
      using worker(2) by (auto simp: take_task_def task_done_def elim!: worker_movesE split: list.split)
    then show ?thesis using J_worker[OF wf ok step.IH[OF still] worker] by simp
  next
    case timer
    have "sys_closer s' = sys_closer s" using timer by simp
    then show ?thesis using J_timer[OF ok step.IH[OF still]] timer by simp
  next
    case closer
    have "\<not> closed s" using step.prems closer by (auto simp: closed_def closer_moves_def)
    then show ?thesis using J_closer[OF step.IH] closer step.prems by simp
  next
    case (tick r)
    then show ?thesis using J_clock step.IH[OF still] by (auto simp: calm_def)
  qed (use J_event J_param step.IH[OF still] in \<open>auto simp: fresh_shared_def startAsynchron_def\<close>)
qed

end

end
