(* ===== verification/Scheduling.thy ===== *)
theory Scheduling
  imports Async
begin

text \<open>
  What the threads keep: the laws of the timers of theory \<open>Timer_Service\<close> in every interleaving,
  that nothing is run before its deadline, and the order in which events are processed.
\<close>

section \<open>The laws of the timers, with threads\<close>

lemma invalid_cong [simp]:
  "invalid (sv\<lparr>tasks := ts\<rparr>) e = invalid sv e" "invalid (sv\<lparr>tasks := ts, held := hs\<rparr>) e = invalid sv e" "invalid (sv\<lparr>held := hs\<rparr>) e = invalid sv e"
  "invalid (sv\<lparr>next_param := k\<rparr>) e = invalid sv e" "invalid (sv\<lparr>running := b\<rparr>) e = invalid sv e"
  "invalid (sv\<lparr>pool_shutdown := b\<rparr>) e = invalid sv e"
  "invalid (sv\<lparr>timeoutQueue := q\<rparr>) e = invalid sv e"
  "invalid (sv\<lparr>timeoutQueue := q, held := hs\<rparr>) e = invalid sv e"
  by (simp_all add: invalid_def)

lemma deadline_cong [simp]:
  "deadline (sv\<lparr>locals := ls\<rparr>) = deadline sv" "deadline (sv\<lparr>tasks := ts\<rparr>) = deadline sv" "deadline (sv\<lparr>tasks := ts, held := hs\<rparr>) = deadline sv" "deadline (sv\<lparr>held := hs\<rparr>) = deadline sv"
  "deadline (sv\<lparr>next_param := k\<rparr>) = deadline sv" "deadline (sv\<lparr>running := b\<rparr>) = deadline sv"
  "deadline (sv\<lparr>pool_shutdown := b\<rparr>) = deadline sv" "deadline (sv\<lparr>timeoutQueue := q\<rparr>) = deadline sv"
  "deadline (sv\<lparr>timeoutQueue := q, held := hs\<rparr>) = deadline sv" "deadline (submit e sv) = deadline sv"
  "deadline (sv\<lparr>clock := t\<rparr>) = deadline sv" "deadline (sv\<lparr>locals := ls, next_param := k\<rparr>) = deadline sv"
  by (simp_all add: deadline_def[abs_def] submit_def)

lemma invalid_submit [simp]: "invalid (submit e sv) x = invalid sv x"
  by (simp add: invalid_def)

text \<open>A pending entry that goes to the pool and not to the timeout queue.\<close>

lemma queue_ok_pending:
  assumes "queue_ok sv" and "new_entry s md ev p ms sv = (e, sv1)"
  shows "queue_ok (submit e (sv1\<lparr>pendingEntries := pendingEntries sv1 @ [e]\<rparr>))"
proof -
  have e: "e = length (entries sv)" and sv1: "pendingEntries sv1 = pendingEntries sv"
    "timeoutQueue sv1 = timeoutQueue sv" "length (entries sv1) = Suc e"
    using assms(2) by (auto simp: new_entry_def)
  have old: "deadline sv1 x = deadline sv x" "invalid sv1 x = invalid sv x" if "x < e" for x
    using assms(2) that by (auto simp: new_entry_def deadline_def invalid_def nth_append)
  have b: "x < e" if "x \<in> set (m_items (timeoutQueue sv)) \<or> x \<in> set (pendingEntries sv)" for x
    using assms(1) that e by (auto simp: queue_ok_def)
  let ?sv = "submit e (sv1\<lparr>pendingEntries := pendingEntries sv1 @ [e]\<rparr>)"
  have "dq_sorted (deadline sv1) (timeoutQueue sv)"
    using assms(1) dq_sorted_cong[of "timeoutQueue sv" "deadline sv1" "deadline sv"] old(1) b
    by (simp add: queue_ok_def)
  moreover have "invalid ?sv x = invalid sv1 x" "deadline ?sv x = deadline sv1 x" for x
    by (simp_all add: invalid_def deadline_def)
  ultimately show ?thesis
    using assms(1) b sv1 old(2) e by (fastforce simp: queue_ok_def deadline_def[abs_def])
qed

lemma queue_ok_event: "queue_ok sv \<Longrightarrow> queue_ok (enqueue_event md ev p sv)"
  by (auto simp: enqueue_event_def intro: queue_ok_pending queue_ok_add split: option.split event.split prod.split)

lemma dq_take_iter_Taken:
  "dq_take_iter k now q = (Taken e, q') \<longleftrightarrow>
     \<not> m_stop q \<and> m_items q = e # m_items q' \<and> k e \<le> now \<and> q' = q\<lparr>m_items := m_items q'\<rparr>"
  by (auto split: list.split if_splits)

lemma queue_ok_pop:
  assumes "queue_ok sv" "dq_take_iter (deadline sv) (clock sv) (timeoutQueue sv) = (Taken e, q)"
  shows "queue_ok (sv\<lparr>timeoutQueue := q, held := e # held sv\<rparr>)"
proof -
  have "m_items (timeoutQueue sv) = e # m_items q" using assms(2) by (simp only: dq_take_iter_Taken)
  then show ?thesis using assms(1) by (auto simp: queue_ok_def dq_sorted_def)
qed

interpretation timer_queue_threads: async_law queue_ok
proof
  show "queue_ok sv \<Longrightarrow> queue_ok (sv\<lparr>timeoutQueue := dq_clear (timeoutQueue sv)\<rparr>)"
    "queue_ok sv \<Longrightarrow> queue_ok (sv\<lparr>timeoutQueue := dq_stop (timeoutQueue sv)\<rparr>)" for sv
    by (simp_all add: queue_ok_def dq_clear_def dq_stop_def dq_sorted_def)
qed (simp_all add: queue_ok_event queue_ok_pop, simp_all add: queue_ok_def)

lemma numbered_event: "numbered sv \<Longrightarrow> numbered (enqueue_event md ev p sv)"
  by (auto simp: numbered_def enqueue_event_def new_entry_def nth_append less_Suc_eq
      split: option.split event.split)

interpretation entry_numbers_threads: async_law numbered
  by unfold_locales (simp_all add: numbered_event, simp_all add: numbered_def)

section \<open>Nothing early\<close>

text \<open>What a task or a thread holds is an entry whose deadline has passed.\<close>

definition timely :: "service \<Rightarrow> bool" where
  "timely sv \<longleftrightarrow> (\<forall>e \<in> set (tasks sv) \<union> set (held sv). e < length (entries sv) \<and> deadline sv e \<le> clock sv) \<and>
     (\<forall>e \<in> set (m_items (timeoutQueue sv)). e < length (entries sv))"

lemma timely_enqueue:
  assumes "timely sv"
  shows "timely (snd (enqueueTimeout s md ev p ms sv))"
  using assms
  by (auto simp: timely_def enqueueTimeout_def new_entry_def Let_def deadline_def nth_append set_dq_add
      less_Suc_eq)

lemma timely_event: "timely sv \<Longrightarrow> timely (enqueue_event md ev p sv)"
  by (auto simp: timely_def enqueue_event_def new_entry_def deadline_def nth_append set_dq_add submit_def
      less_Suc_eq split: option.split event.split)

lemma timely_cancel: "timely sv \<Longrightarrow> timely (cancel_one e sv)"
  by (auto simp: timely_def cancel_one_def cancel_entry_def Let_def mark_invalid_nth[unfolded deadline_def]
      deadline_def dq_remove_def dest: notin_set_remove1)

interpretation deadlines: async_law timely
proof
  show "timely (sv\<lparr>clock := t\<rparr>)" if "timely sv" "clock sv \<le> t" for sv t
    using that by (auto simp: timely_def intro: order_trans)
  show "timely (sv\<lparr>timeoutQueue := q, held := e # held sv\<rparr>)"
    if "timely sv" "dq_take_iter (deadline sv) (clock sv) (timeoutQueue sv) = (Taken e, q)" for sv e q
    using that(1) that(2)[unfolded dq_take_iter_Taken] by (auto simp: timely_def)
  show "timely (sv\<lparr>held := remove1 e (held sv)\<rparr>)" if "timely sv" for sv e
    using that by (auto simp: timely_def dest: notin_set_remove1)
  show "timely (submit e sv)" if "timely sv" "e \<in> set (held sv)" for sv e
    using that by (auto simp: timely_def submit_def)
  show "timely (sv\<lparr>timeoutQueue := dq_clear (timeoutQueue sv)\<rparr>)" "timely (sv\<lparr>timeoutQueue := dq_stop (timeoutQueue sv)\<rparr>)"
    if "timely sv" for sv using that by (simp_all add: timely_def dq_clear_def dq_stop_def)
qed (simp_all add: timely_enqueue timely_event timely_cancel,
    simp_all add: timely_def new_service_def dq_empty_def)

section \<open>The worker thread\<close>

text \<open>
  What an execution has handed to the worker thread so far, and what the thread has processed: both
  are read off the states before and after each step.
\<close>

definition handed :: "'e sys \<Rightarrow> 'e sys \<Rightarrow> eid list" where
  "handed s s' = drop (length (tasks (sys_sv s))) (tasks (sys_sv s'))"

definition processed :: "'e sys \<Rightarrow> 'e sys \<Rightarrow> eid list" where
  "processed s s' =
     (case (sys_workers s, sys_workers s') of ([Busy ph], [Idle]) \<Rightarrow> [entry_of ph] | _ \<Rightarrow> [])"

inductive sys_log :: "nat \<Rightarrow> 'e chart \<Rightarrow> 'e sys \<Rightarrow> eid list \<Rightarrow> eid list \<Rightarrow> bool" for n ch where
  new: "sys_log n ch (new_sys threads env now) [] []"
| step: "sys_log n ch s sub fin \<Longrightarrow> sys_step n ch s s' \<Longrightarrow>
    sys_log n ch s' (sub @ handed s s') (fin @ processed s s')"

lemma sys_log_reach: "sys_log n ch s sub fin \<Longrightarrow> sys_reach n ch s"
  by (induction rule: sys_log.induct) (auto intro: sys_reach.intros)

text \<open>What each kind of step does to the tasks and the worker threads.\<close>

lemma calls_keep_tasks:
  assumes "wf_chart ch" "benign_chart ch" "sys_ok ch s" "m (sys_rt s) = Ret b r \<or> m (sys_rt s) = Exn x r"
    and "m = run_input n ch i \<or> m = run_dispatch n ch e"
  shows "tasks (rt_sv r) = tasks (sys_sv s)" "running (rt_sv r) = running (sys_sv s)"
    "pool_shutdown (rt_sv r) = pool_shutdown (sys_sv s)"
  using calls_keep_pool(1)[OF assms(1,2) _ assms(5,4)] assms(3) by (simp_all add: sys_ok_def same_pool_def)

lemma tasks_enqueue_event:
  "\<exists>xs. tasks (enqueue_event md ev p sv) = tasks sv @ xs"
  by (auto simp: enqueue_event_def new_entry_def submit_def split: option.split event.split)

lemma worker_moves_tasks:
  assumes "wf_chart ch" "benign_chart ch" "sys_ok ch s" "worker_moves n ch i s s'"
    and "sys_workers s = [w]" "i = 0"
  shows "(case w of
      Idle \<Rightarrow> (sys_workers s' = [Idle] \<and> tasks (sys_sv s') = tasks (sys_sv s)) \<or>
        (sys_workers s' = [Exited] \<and> tasks (sys_sv s') = [] \<and> tasks (sys_sv s) = []) \<or>
        (\<exists>e. sys_workers s' = [Busy (Checking e)] \<and> tasks (sys_sv s) = e # tasks (sys_sv s'))
    | Busy ph \<Rightarrow> tasks (sys_sv s') = tasks (sys_sv s) \<and>
        (sys_workers s' = [Idle] \<or> (\<exists>ph'. sys_workers s' = [Busy ph'] \<and> entry_of ph' = entry_of ph))
    | Exited \<Rightarrow> False)"
  using assms(4)
proof cases
  case turn
  then show ?thesis
    using assms(5,6) by (auto simp: take_task_def split: list.split)
next
  case (dispatches e b r)
  then show ?thesis
    using assms(5,6) calls_keep_tasks(1)[OF assms(1-3), of "run_dispatch n ch e" b r _ n _ e]
    by (simp add: task_done_def)
next
  case (throws e x r)
  then show ?thesis
    using assms(5,6) calls_keep_tasks(1)[OF assms(1-3), of "run_dispatch n ch e" _ r x n _ e]
    by (simp add: task_done_def)
qed (use assms(5,6) in \<open>auto simp: task_done_def entry_of_def\<close>)

lemma other_moves_tasks:
  assumes "wf_chart ch" "benign_chart ch" "sys_ok ch s" "sys_step n ch s s'"
  shows "(\<exists>i < length (sys_workers s). worker_moves n ch i s s') \<or>
    sys_workers s' = sys_workers s \<and> (\<exists>xs. tasks (sys_sv s') = tasks (sys_sv s) @ xs)"
  using assms(4)
proof cases
  case (sync i b r)
  then show ?thesis using calls_keep_tasks(1)[OF assms(1-3), of "run_input n ch i" b r _ n i] by simp
next
  case (sync_throws i x r)
  then show ?thesis using calls_keep_tasks(1)[OF assms(1-3), of "run_input n ch i" _ r x n i] by simp
next
  case (worker i)
  then show ?thesis by blast
next
  case timer
  then show ?thesis
    by (cases "sys_timer s") (auto simp: timer_moves_def submit_def split: take_result.split prod.split)
next
  case closer
  then show ?thesis
    by (cases "sys_closer s") (auto simp: closer_moves_def split: await.split option.split prod.split)
next
  case (tick r)
  then show ?thesis by (auto simp: calm_def)
qed (auto simp: fresh_shared_def startAsynchron_def intro: tasks_enqueue_event tasks_enqueue_event[of _ _ _ "_\<lparr>next_param := _\<rparr>", simplified])

lemma one_worker: "wf_chart ch \<Longrightarrow> benign_chart ch \<Longrightarrow> sys_reach n ch s \<Longrightarrow> \<exists>w. sys_workers s = [w]"
proof (rotate_tac 2, induction rule: sys_reach.induct)
  case (new threads env now)
  then show ?case by (simp add: new_sys_def new_pool_def Let_def)
next
  case (step s s')
  then obtain w where w: "sys_workers s = [w]" by blast
  have ok: "sys_ok ch s" by (rule sys_reach_ok[OF step.prems step.hyps(1)])
  show ?case
    using other_moves_tasks[OF step.prems ok step.hyps(2)] w
      worker_moves_tasks[OF step.prems ok _ w HOL.refl, of n s']
    by (cases w) auto
qed

text \<open>Everything handed to the worker thread is processed, running, or waiting, in this order.\<close>

definition running_entry :: "'e sys \<Rightarrow> eid list" where
  "running_entry s = concat (map worker_entries (sys_workers s))"

lemma held_members:
  assumes "held_ok s"
  shows "set (held (sys_sv s)) = set (running_entry s) \<union> set (timer_entries (sys_timer s))"
proof -
  have "mset (concat (map worker_entries ws)) = sum_list (map (mset \<circ> worker_entries) ws)" for ws
    by (induction ws) simp_all
  then have "mset (held (sys_sv s)) = mset (running_entry s @ timer_entries (sys_timer s))"
    using assms by (simp add: held_ok_def running_entry_def)
  then show ?thesis by (metis set_append set_mset_mset)
qed

lemma sys_log_fifo:
  assumes wf: "wf_chart ch" "benign_chart ch"
  shows "sys_log n ch s sub fin \<Longrightarrow> sub = fin @ running_entry s @ tasks (sys_sv s)"
proof (induction rule: sys_log.induct)
  case (new threads env now)
  then show ?case
    by (simp add: new_sys_def new_pool_def Let_def running_entry_def worker_entries_def new_rt_def new_service_def)
next
  case (step s sub fin s')
  have reach: "sys_reach n ch s" by (rule sys_log_reach[OF step.hyps(1)])
  have ok: "sys_ok ch s" by (rule sys_reach_ok[OF wf reach])
  obtain w where w: "sys_workers s = [w]" using one_worker[OF wf reach] by blast
  show ?case
    using other_moves_tasks[OF wf ok step.hyps(2)]
  proof
    assume "\<exists>i < length (sys_workers s). worker_moves n ch i s s'"
    then have "worker_moves n ch 0 s s'" using w by auto
    from worker_moves_tasks[OF wf ok this w HOL.refl] show ?thesis
      using step.IH w
      by (cases w) (auto simp: running_entry_def worker_entries_def handed_def processed_def entry_of_def)
  next
    assume "sys_workers s' = sys_workers s \<and> (\<exists>xs. tasks (sys_sv s') = tasks (sys_sv s) @ xs)"
    then show ?thesis
      using step.IH w by (cases w) (auto simp: running_entry_def worker_entries_def handed_def processed_def)
  qed
qed

end
