(* ===== verification/Shutdown.thy ===== *)
theory Shutdown
  imports Scheduling
begin

text \<open>
  The program's pool is the one of theory \<open>Thread_Pool\<close>, and what holds at each statement of
  \<open>Statechart::shutdown\<close>.
\<close>

section \<open>The pool of the program\<close>

text \<open>
  Every step of the program is a step of the pool of theory \<open>Thread_Pool\<close>, a step of the call
  of \<open>awaitTermination\<close> in \<open>shutdown\<close>, or does not touch the pool.
\<close>

lemma pool_of_cong:
  "tasks (sys_sv s') = tasks (sys_sv s) \<Longrightarrow> pool_shutdown (sys_sv s') = pool_shutdown (sys_sv s) \<Longrightarrow>
   sys_workers s' = sys_workers s \<Longrightarrow> sys_joinable s' = sys_joinable s \<Longrightarrow> pool_of s' = pool_of s"
  by (simp add: pool_of_def)

lemma pool_of_submit:
  assumes "tasks (sys_sv s') = tasks (submit e sv)" "tasks sv = tasks (sys_sv s)"
    "pool_shutdown sv = pool_shutdown (sys_sv s)" "pool_shutdown (sys_sv s') = pool_shutdown (sys_sv s)"
    "sys_workers s' = sys_workers s" "sys_joinable s' = sys_joinable s"
  shows "pool_step (pool_of s) (Submit e (\<not> pool_shutdown (sys_sv s))) (pool_of s')"
  using assms by (intro pool_step.submit) (simp add: pool_execute_def pool_of_def submit_def)

lemma pool_of_event:
  assumes "sys_sv s' = enqueue_event md ev p sv" "tasks sv = tasks (sys_sv s)"
    "pool_shutdown sv = pool_shutdown (sys_sv s)" "sys_workers s' = sys_workers s" "sys_joinable s' = sys_joinable s"
  shows "pool_of s' = pool_of s \<or> (\<exists>a. pool_step (pool_of s) a (pool_of s'))"
proof -
  have "tasks (sys_sv s') = tasks sv \<or> (\<exists>e. tasks (sys_sv s') = tasks (submit e sv))"
    using assms(1) by (auto simp: enqueue_event_def new_entry_def submit_def split: option.split event.split)
  then show ?thesis
    using assms pool_of_submit[of s' _ sv s] pool_of_cong[of s' s] by auto
qed

lemma pool_of_worker:
  assumes "wf_chart ch" "benign_chart ch" "sys_ok ch s" "worker_moves n ch i s s'" "i < length (sys_workers s)"
  shows "pool_of s' = pool_of s \<or> pool_step (pool_of s) (Turn i) (pool_of s')"
proof -
  have T: "pool_step (pool_of s) (Turn i) (worker_step i (pool_of s))"
    using assms(5) by (intro pool_step.turn) (simp add: pool_of_def)
  have finish: "worker_step i (pool_of s) = pool_of (task_done i e r s)"
    if "sys_workers s ! i = Busy ph" "tasks (rt_sv r) = tasks (sys_sv s)"
      "pool_shutdown (rt_sv r) = pool_shutdown (sys_sv s)" for ph e r
    using that assms(5) by (simp add: worker_step_def set_worker_def pool_of_def task_done_def map_update)
  from assms(4) show ?thesis
  proof cases
    case turn
    then have "worker_step i (pool_of s) = pool_of s'"
      using assms(5)
      by (auto simp: worker_step_def worker_turn_def set_worker_def pool_of_def take_task_def map_update
          entry_of_def list_update_same_conv split: list.split)
    then show ?thesis using T by simp
  next
    case (passes e)
    then have "map (map_worker entry_of) (sys_workers s') = map (map_worker entry_of) (sys_workers s)"
      using assms(5) by (simp add: map_update entry_of_def list_update_same_conv)
    then show ?thesis using passes by (simp add: pool_of_def)
  next
    case (fails e)
    then show ?thesis using T finish[of _ "sys_rt s" e] by simp
  next
    case (dispatches e b r)
    then show ?thesis
      using T finish[of _ r e] calls_keep_tasks[OF assms(1-3), of "run_dispatch n ch e" b r _ n _ e] by simp
  next
    case (throws e x r)
    then show ?thesis
      using T finish[of _ r e] calls_keep_tasks[OF assms(1-3), of "run_dispatch n ch e" _ r x n _ e] by simp
  qed
qed

text \<open>The call of \<open>awaitTermination\<close>, before, during and after.\<close>

definition await_of :: "closer \<Rightarrow> await" where
  "await_of c = (case c of Awaiting limit a \<Rightarrow> a | Releasing b \<Rightarrow> Answer b | Closed b \<Rightarrow> Answer b | _ \<Rightarrow> Check 0)"

definition awaits :: "'e sys \<Rightarrow> 'e sys \<Rightarrow> bool" where
  "awaits s s' \<longleftrightarrow> (\<exists>limit a a'. sys_closer s = Awaiting limit a \<and> sys_closer s' = Awaiting limit a' \<and>
     await_step limit (clock (sys_sv s)) (pool_of s) a = Some (pool_of s', a'))"

lemma await_step_frame:
  "await_step limit now p a = Some (p', a') \<Longrightarrow> p' = p\<lparr>m_joinable := m_joinable p'\<rparr>"
  by (auto simp: await_step_def split: await.splits if_splits)

lemma pool_of_timer: "pool_of (timer_moves s) = pool_of s \<or> (\<exists>a. pool_step (pool_of s) a (pool_of (timer_moves s)))"
proof (cases "\<exists>e. sys_timer s = Got e \<and> \<not> invalid (sys_sv s) e \<and> \<not> isShutdown (sys_rt s)")
  case True
  then obtain e where "sys_timer s = Got e" "\<not> invalid (sys_sv s) e" "\<not> isShutdown (sys_rt s)" by blast
  then show ?thesis
    using pool_of_submit[of "timer_moves s" e "sys_sv s" s] by (auto simp: timer_moves_def)
next
  case False
  then have "pool_of (timer_moves s) = pool_of s"
    by (intro pool_of_cong; cases "sys_timer s")
      (auto simp: timer_moves_def split: take_result.split prod.split)
  then show ?thesis ..
qed

lemma pool_of_closer:
  "awaits s (closer_moves s) \<or> await_of (sys_closer (closer_moves s)) = await_of (sys_closer s) \<and>
     (pool_of (closer_moves s) = pool_of s \<or> (\<exists>a. pool_step (pool_of s) a (pool_of (closer_moves s))))"
proof (cases "sys_closer s")
  case ClosingPool
  then have "pool_of (closer_moves s) = pool_close (pool_of s)"
    by (simp add: closer_moves_def pool_of_def pool_close_def)
  moreover have "sys_closer (closer_moves s) = JoiningTimer" using ClosingPool by (simp add: closer_moves_def)
  ultimately show ?thesis using ClosingPool pool_step.close[of "pool_of s"] by (auto simp: await_of_def)
next
  case (Awaiting limit a)
  show ?thesis
  proof (cases "\<exists>p a'. (\<forall>b. a \<noteq> Answer b) \<and> await_step limit (clock (sys_sv s)) (pool_of s) a = Some (p, a')")
    case True
    then obtain p a' where "\<forall>b. a \<noteq> Answer b" and st: "await_step limit (clock (sys_sv s)) (pool_of s) a = Some (p, a')"
      by blast
    then have c: "closer_moves s = s\<lparr>sys_joinable := m_joinable p, sys_closer := Awaiting limit a'\<rparr>"
      using Awaiting by (cases a) (auto simp: closer_moves_def await_step_def[of _ _ _ "Answer _"])
    have "pool_of (closer_moves s) = p"
      using await_step_frame[OF st] by (simp add: c pool_of_def)
    then show ?thesis using Awaiting st c by (simp add: awaits_def)
  next
    case False
    then have "pool_of (closer_moves s) = pool_of s"
      using Awaiting by (intro pool_of_cong) (auto simp: closer_moves_def split: await.split option.split)
    moreover have "await_of (sys_closer (closer_moves s)) = await_of (sys_closer s)"
      using False Awaiting by (auto simp: closer_moves_def await_of_def split: await.split option.split)
    ultimately show ?thesis by simp
  qed
qed (auto simp: closer_moves_def await_of_def intro: pool_of_cong)

lemma sys_step_pool:
  assumes wf: "wf_chart ch" "benign_chart ch" and "sys_ok ch s" "sys_step n ch s s'"
  shows "pool_of s' = pool_of s \<or> (\<exists>a. pool_step (pool_of s) a (pool_of s')) \<or> awaits s s'"
  using assms(4)
proof cases
  case (sync i b r)
  then show ?thesis
    using calls_keep_tasks[OF assms(1-3), of "run_input n ch i" b r _ n i] by (simp add: pool_of_def)
next
  case (sync_throws i x r)
  then show ?thesis
    using calls_keep_tasks[OF assms(1-3), of "run_input n ch i" _ r x n i] by (simp add: pool_of_def)
next
  case (worker i)
  then show ?thesis using pool_of_worker[OF assms(1-3)] by blast
next
  case timer
  then show ?thesis using pool_of_timer by blast
next
  case closer
  then show ?thesis using pool_of_closer by blast
next
  case (tick r)
  then show ?thesis by (auto simp: calm_def pool_of_def)
next
  case (async ev p)
  then show ?thesis using pool_of_event[of s' _ ev p "sys_sv s" s] by auto
next
  case (async_start p)
  then show ?thesis using pool_of_event[of s' _ None p "sys_sv s" s] by (auto simp: startAsynchron_def)
next
  case (async_fresh ev)
  then show ?thesis
    using pool_of_event[of s' _ ev _ "(sys_sv s)\<lparr>next_param := _\<rparr>" s] by (auto simp: fresh_shared_def)
next
  case async_start_fresh
  then show ?thesis
    using pool_of_event[of s' _ None _ "(sys_sv s)\<lparr>next_param := _\<rparr>" s]
    by (auto simp: fresh_shared_def startAsynchron_def)
qed

text \<open>
  So an execution of the program is a run of the pool; which threads have been joined is the
  business of \<open>awaitTermination\<close>.
\<close>

definition unjoined :: "'a pool \<Rightarrow> 'a pool" where
  "unjoined p = p\<lparr>m_joinable := replicate (length (m_workers p)) True\<rparr>"

lemma pool_step_unjoined: "pool_step p a q \<Longrightarrow> pool_step (unjoined p) a (unjoined q)"
proof (erule pool_stepE)
  fix i assume i: "a = Turn i" "q = worker_step i p" "i < length (m_workers p)"
  have "worker_step i (unjoined p) = unjoined (worker_step i p)"
    by (simp add: unjoined_def worker_step_def worker_turn_def set_worker_def split: worker.split list.split)
  then show ?thesis using i pool_step.turn[of i "unjoined p"] by (simp add: unjoined_def)
next
  assume "a = Close" "q = pool_close p"
  moreover have "unjoined (pool_close p) = pool_close (unjoined p)"
    by (cases p) (simp add: unjoined_def pool_close_def)
  ultimately show ?thesis using pool_step.close[of "unjoined p"] by simp
qed (auto simp: unjoined_def pool_execute_def intro!: pool_step.submit split: if_splits)

lemma unjoined_awaits: "awaits s s' \<Longrightarrow> unjoined (pool_of s') = unjoined (pool_of s)"
  unfolding awaits_def by (elim exE conjE, drule await_step_frame) (metis unjoined_def pool.select_convs(3) pool.surjective pool.update_convs(4))

lemma sys_reach_pool_run:
  assumes wf: "wf_chart ch" "benign_chart ch"
  shows "sys_reach n ch s \<Longrightarrow> \<exists>as. pool_run (new_pool 1) as (unjoined (pool_of s))"
proof (induction rule: sys_reach.induct)
  case (new threads env now)
  have "unjoined (pool_of (new_sys threads env now)) = new_pool 1"
    by (simp add: unjoined_def pool_of_def new_sys_def new_pool_def Let_def new_rt_def new_service_def)
  then show ?case using pool_run.empty by metis
next
  case (step s s')
  then obtain as where as: "pool_run (new_pool 1) as (unjoined (pool_of s))" by blast
  have ok: "sys_ok ch s" by (rule sys_reach_ok[OF wf step.hyps(1)])
  show ?case
    using sys_step_pool[OF wf ok step.hyps(2)] as pool_run.snoc[OF as] pool_step_unjoined unjoined_awaits
    by metis
qed

section \<open>Stages of shutdown\<close>

definition shut_ok :: "'e sys \<Rightarrow> bool" where
  "shut_ok s \<longleftrightarrow> running (sys_sv s) = (sys_closer s = Open) \<and>
     pool_shutdown (sys_sv s) = (sys_closer s \<notin> {Open, Clearing, Stopping, ClosingPool}) \<and>
     (sys_closer s \<notin> {Open, Clearing, Stopping, ClosingPool, JoiningTimer} \<longrightarrow> sys_timer s = Returned) \<and>
     drained (pool_of s) \<and> await_ok (pool_of s) (await_of (sys_closer s)) \<and>
     (closed s \<longrightarrow> pendingEntries (sys_sv s) = [])"

lemma await_of_step: "awaits s s' \<Longrightarrow> await_ok (pool_of s) (await_of (sys_closer s)) \<Longrightarrow>
  await_ok (pool_of s') (await_of (sys_closer s'))"
  by (auto simp: awaits_def await_of_def dest: await_ok_step)

lemma drained_awaits: "awaits s s' \<Longrightarrow> drained (pool_of s) \<Longrightarrow> drained (pool_of s')"
  unfolding awaits_def drained_def by (elim exE conjE, drule await_step_frame) (metis pool.ext_inject pool.surjective pool.update_convs(4))

lemma await_ok_start: "await_ok (pool_of (new_sys threads env now)) (Check 0)"
  by (simp add: await_ok_def passed_def new_sys_def new_pool_def Let_def pool_of_def)

lemma pool_ok_step:
  assumes wf: "wf_chart ch" "benign_chart ch" and "sys_ok ch s" "sys_step n ch s s'"
    and "drained (pool_of s)" "await_ok (pool_of s) a"
  shows "drained (pool_of s')" "awaits s s' \<or> await_ok (pool_of s') a"
  using sys_step_pool[OF assms(1-4)] assms(5,6) drained_awaits
  by (auto intro: drained_step await_ok_other)

text \<open>Steps other than those of \<open>shutdown\<close>.\<close>

lemma others_frame:
  assumes wf: "wf_chart ch" "benign_chart ch" and "sys_ok ch s" "sys_step n ch s s'"
  shows "s' = closer_moves s \<or>
    sys_closer s' = sys_closer s \<and> running (sys_sv s') = running (sys_sv s) \<and>
    pool_shutdown (sys_sv s') = pool_shutdown (sys_sv s) \<and> (sys_timer s = Returned \<longrightarrow> sys_timer s' = Returned)"
  using assms(4)
proof cases
  case (sync i b r)
  then show ?thesis using calls_keep_tasks[OF assms(1-3), of "run_input n ch i" b r _ n i] by simp
next
  case (sync_throws i x r)
  then show ?thesis using calls_keep_tasks[OF assms(1-3), of "run_input n ch i" _ r x n i] by simp
next
  case (worker i)
  from worker(2) show ?thesis
  proof cases
    case (dispatches e b r)
    then show ?thesis
      using calls_keep_tasks[OF assms(1-3), of "run_dispatch n ch e" b r _ n _ e] by (simp add: task_done_def)
  next
    case (throws e x r)
    then show ?thesis
      using calls_keep_tasks[OF assms(1-3), of "run_dispatch n ch e" _ r x n _ e] by (simp add: task_done_def)
  qed (auto simp: take_task_def task_done_def split: list.split)
next
  case timer
  then show ?thesis
    by (cases "sys_timer s") (auto simp: timer_moves_def split: take_result.split prod.split)
next
  case (tick r)
  then show ?thesis by (auto simp: calm_def)
qed (auto simp: fresh_shared_def startAsynchron_def)

lemma shut_ok_step:
  assumes wf: "wf_chart ch" "benign_chart ch" and "sys_ok ch s" "sys_step n ch s s'" "shut_ok s"
    and pend: "closed s \<Longrightarrow> pendingEntries (sys_sv s') = []"
  shows "shut_ok s'"
proof -
  have ok: "drained (pool_of s)" "await_ok (pool_of s) (await_of (sys_closer s))"
    using assms(5) by (simp_all add: shut_ok_def)
  note P = pool_ok_step[OF assms(1-4) ok]
  have A: "await_of (sys_closer s') = await_of (sys_closer s) \<or> awaits s s'"
    using others_frame[OF assms(1-4)] pool_of_closer[of s] by auto
  have await: "await_ok (pool_of s') (await_of (sys_closer s'))"
    using A P(2) await_of_step[OF _ ok(2)] by auto
  show ?thesis
    using others_frame[OF assms(1-4)]
  proof
    assume s': "s' = closer_moves s"
    have "closed s' \<longrightarrow> pendingEntries (sys_sv s') = []"
      using s' pend assms(5)
      by (cases "sys_closer s") (auto simp: closer_moves_def closed_def split: await.split option.split prod.split)
    moreover have "running (sys_sv s') = (sys_closer s' = Open)"
      "pool_shutdown (sys_sv s') = (sys_closer s' \<notin> {Open, Clearing, Stopping, ClosingPool})"
      "sys_closer s' \<notin> {Open, Clearing, Stopping, ClosingPool, JoiningTimer} \<longrightarrow> sys_timer s' = Returned"
      using assms(5) unfolding s'
      by (cases "sys_closer s"; auto simp: shut_ok_def closer_moves_def split: await.split option.split prod.split)+
    ultimately show ?thesis using P(1) await by (simp add: shut_ok_def)
  next
    assume "sys_closer s' = sys_closer s \<and> running (sys_sv s') = running (sys_sv s) \<and>
      pool_shutdown (sys_sv s') = pool_shutdown (sys_sv s) \<and> (sys_timer s = Returned \<longrightarrow> sys_timer s' = Returned)"
    moreover have "closed s' = closed s" using calculation by (simp add: closed_def)
    ultimately show ?thesis using assms(5) pend P(1) await by (auto simp: shut_ok_def)
  qed
qed

text \<open>After \<open>shutdown\<close>, nothing becomes pending again.\<close>

interpretation no_pending: service_law "\<lambda>sv. \<not> running sv \<and> pool_shutdown sv \<and> pendingEntries sv = []"
  by unfold_locales (auto simp: enqueueTimeout_def cancel_one_def)

lemma closed_pending:
  assumes wf: "wf_chart ch" "benign_chart ch" and "sys_ok ch s" "sys_step n ch s s'" "shut_ok s" "closed s"
  shows "pendingEntries (sys_sv s') = []"
proof -
  have c: "\<not> running (sys_sv s) \<and> pool_shutdown (sys_sv s) \<and> pendingEntries (sys_sv s) = []"
    and t: "sys_timer s = Returned"
    using assms(5,6) by (auto simp: shut_ok_def closed_def)
  have w: "within ch (sys_rt s)" using assms(3) by (simp add: sys_ok_def)
  note call = no_pending.J_call[OF wf w c]
  from assms(4) show ?thesis
  proof cases
    case (sync i b r)
    then show ?thesis using call[of "run_input n ch i" n i _ b r] by simp
  next
    case (sync_throws i x r)
    then show ?thesis using call[of "run_input n ch i" n i _ _ r x] by simp
  next
    case (worker i)
    from worker(2) show ?thesis
    proof cases
      case (dispatches e b r)
      then show ?thesis using call[of "run_dispatch n ch e" n _ e b r] by (simp add: task_done_def)
    next
      case (throws e x r)
      then show ?thesis using call[of "run_dispatch n ch e" n _ e _ r x] by (simp add: task_done_def)
    qed (use c in \<open>auto simp: take_task_def task_done_def split: list.split\<close>)
  next
    case timer
    then show ?thesis using c t by (simp add: timer_moves_def)
  next
    case closer
    then show ?thesis using c assms(6) by (auto simp: closed_def closer_moves_def)
  next
    case (tick r)
    then show ?thesis using c by (auto simp: calm_def)
  qed (use c in \<open>auto simp: fresh_shared_def startAsynchron_def enqueue_event_def\<close>)
qed

theorem sys_reach_shut_ok:
  assumes wf: "wf_chart ch" "benign_chart ch"
  shows "sys_reach n ch s \<Longrightarrow> shut_ok s"
proof (induction rule: sys_reach.induct)
  case (new threads env now)
  have "shut_ok (new_sys threads env now)"
    using await_ok_start[of threads env now]
    by (simp add: shut_ok_def await_of_def drained_def pool_of_def)
      (simp add: new_sys_def new_pool_def Let_def new_rt_def new_service_def closed_def)
  then show ?case .
next
  case (step s s')
  have ok: "sys_ok ch s" by (rule sys_reach_ok[OF wf step.hyps(1)])
  show ?case
    by (rule shut_ok_step[OF wf ok step.hyps(2) step.IH closed_pending[OF wf ok step.hyps(2) step.IH]])
qed

end
