(* ===== verification/Test_Threads.thy ===== *)
theory Test_Threads
  imports Shutdown Test_Runs
begin

text \<open>
  Schedules: a list of moves is played by a function, so that executions with threads are computed
  in the kernel.  Then some on the test chart \<open>t3\<close>.
\<close>

section \<open>Schedules\<close>

datatype move = Call input | Post "event option" | Begin | Work | Timeout | Shut | Until int

definition work :: "nat \<Rightarrow> 'e chart \<Rightarrow> 'e sys \<Rightarrow> 'e sys option" where
  "work n ch s =
     (case sys_workers s ! 0 of
        Idle \<Rightarrow> Some (take_task 0 s)
      | Busy (Checking e) \<Rightarrow>
          if run_check e (sys_rt s) then Some (s\<lparr>sys_workers := (sys_workers s)[0 := Busy (Dispatching e)]\<rparr>)
          else Some (task_done 0 e (sys_rt s) s)
      | Busy (Dispatching e) \<Rightarrow>
          (case run_dispatch n ch e (sys_rt s) of
             Ret b r \<Rightarrow> Some (task_done 0 e r s)
           | Exn x r \<Rightarrow> Some (task_done 0 e r s)
           | _ \<Rightarrow> None)
      | Exited \<Rightarrow> None)"

definition play_move :: "nat \<Rightarrow> 'e chart \<Rightarrow> move \<Rightarrow> 'e sys \<Rightarrow> 'e sys option" where
  "play_move n ch a s =
     (case a of
        Call i \<Rightarrow> (case run_input n ch i (sys_rt s) of
            Ret b r \<Rightarrow> Some (s\<lparr>sys_rt := r\<rparr>) | Exn x r \<Rightarrow> Some (s\<lparr>sys_rt := r\<rparr>) | _ \<Rightarrow> None)
      | Post ev \<Rightarrow> Some (upd_rt (fresh_shared (\<lambda>p. dispatchAsynchron ev (Some p))) s)
      | Begin \<Rightarrow> Some (upd_rt (fresh_shared (\<lambda>p. startAsynchron ch (Some p))) s)
      | Work \<Rightarrow> if 0 < length (sys_workers s) then work n ch s else None
      | Timeout \<Rightarrow> Some (timer_moves s)
      | Shut \<Rightarrow> Some (closer_moves s)
      | Until t \<Rightarrow> if clock (sys_sv s) \<le> t then Some (upd_rt (upd_sv (\<lambda>sv. sv\<lparr>clock := t\<rparr>)) s) else None)"

fun play :: "nat \<Rightarrow> 'e chart \<Rightarrow> move list \<Rightarrow> 'e sys \<times> eid list \<times> eid list \<Rightarrow> ('e sys \<times> eid list \<times> eid list) option" where
  "play n ch [] sl = Some sl"
| "play n ch (a # as) (s, sub, fin) =
     (case play_move n ch a s of
        None \<Rightarrow> None
      | Some s' \<Rightarrow> play n ch as (s', sub @ handed s s', fin @ processed s s'))"

lemma work_moves: "work n ch s = Some s' \<Longrightarrow> worker_moves n ch 0 s s'"
  by (auto simp: work_def intro: worker_moves.intros split: worker.splits phase.splits if_splits outcome.splits)

lemma play_move_step: "play_move n ch a s = Some s' \<Longrightarrow> sys_step n ch s s'"
proof (cases a)
  case (Until t)
  assume "play_move n ch a s = Some s'"
  then have "clock (sys_sv s) \<le> t" "s' = s\<lparr>sys_rt := upd_sv (\<lambda>sv. sv\<lparr>clock := t\<rparr>) (sys_rt s)\<rparr>"
    using Until by (auto simp: play_move_def upd_rt_def split: if_splits)
  then show ?thesis by (auto intro!: sys_step.tick simp: calm_def)
qed (auto simp: play_move_def intro: sys_step.intros work_moves split: outcome.splits if_splits)

lemma play_log:
  "play n ch as (s, sub, fin) = Some (s', sub', fin') \<Longrightarrow> sys_log n ch s sub fin \<Longrightarrow> sys_log n ch s' sub' fin'"
proof (induction as arbitrary: s sub fin)
  case (Cons a as)
  then obtain t where t: "play_move n ch a s = Some t" by (auto split: option.splits)
  have "sys_log n ch t (sub @ handed s t) (fin @ processed s t)"
    using Cons.prems(2) play_move_step[OF t] by (rule sys_log.step)
  then show ?case using Cons.IH Cons.prems(1) t by simp
qed simp

section \<open>Executions\<close>

definition demo_sys :: "test_env sys" where
  "demo_sys = new_sys 2 \<lparr>path = [], guardvalue = 0\<rparr> 0"

lemma played: "play n ch as (demo_sys, [], []) = Some (s, sub, fin) \<Longrightarrow> sys_log n ch s sub fin"
  unfolding demo_sys_def by (erule play_log) (rule sys_log.new)

lemma runs_t3: "wf_chart chart_t3" "benign_chart chart_t3"
  using sequential_t3 by (simp_all add: sequential_def)

lemmas thread_defs = demo_sys_def new_sys_def new_pool_def play_move_def work_def upd_rt_def fresh_shared_def
  startAsynchron_def dispatchAsynchron_def
  enqueue_event_def submit_def new_entry_def init_data_def take_task_def task_done_def release_def
  run_check_def run_dispatch_def invalid_def timer_moves_def isShutdown_def entry_of_def handed_def processed_def param_alive_def
  closer_moves_def dq_clear_def dq_stop_def pool_of_def await_step_def

lemma enqueue_stopped: "\<not> running sv \<Longrightarrow> enqueueTimeout s md ev p ms sv = (None, sv)"
  by (simp add: enqueueTimeout_def)

text \<open>An asynchronous start, run by the worker thread, then an event posted and a second one.\<close>

lemma demo_posted:
  "\<exists>s. sys_log 12 chart_t3 s [0, 2, 3] [0] \<and> sys_workers s = [Busy (Checking 2)] \<and> tasks (sys_sv s) = [3] \<and>
     m_items (timeoutQueue (sys_sv s)) = [1] \<and> \<not> closed s"
proof -
  have "\<exists>s. play 12 chart_t3 [Begin, Work, Work, Work, Post (Some (TestEvent 1)), Post None, Work] (demo_sys, [], []) =
      Some (s, [0, 2, 3], [0]) \<and> sys_workers s = [Busy (Checking 2)] \<and> tasks (sys_sv s) = [3] \<and>
     m_items (timeoutQueue (sys_sv s)) = [1] \<and> \<not> closed s"
    by (simp add: thread_defs run_defs chart_facts closed_def cong: stop_congs)
  then show ?thesis by (elim ex_forward conj_forward) (rule played)
qed

text \<open>The timer of state \<open>a\<close> is taken by the timeout thread once its second is over.\<close>

lemma demo_timer:
  "\<exists>s. sys_log 12 chart_t3 s [0] [0] \<and> sys_timer s = Got 1 \<and> held (sys_sv s) = [1] \<and> clock (sys_sv s) = 1200 \<and>
     \<not> closed s \<and> m_items (timeoutQueue (sys_sv s)) = [] \<and>
     map e_deadline (entries (sys_sv s)) = [0, 1000]"
proof -
  have "\<exists>s. play 12 chart_t3 [Begin, Work, Work, Work, Timeout, Timeout, Until 1200, Timeout] (demo_sys, [], []) =
      Some (s, [0], [0]) \<and> sys_timer s = Got 1 \<and> held (sys_sv s) = [1] \<and> clock (sys_sv s) = 1200 \<and>
     \<not> closed s \<and> m_items (timeoutQueue (sys_sv s)) = [] \<and> map e_deadline (entries (sys_sv s)) = [0, 1000]"
    by (simp add: thread_defs run_defs chart_facts closed_def cong: stop_congs)
  then show ?thesis by (elim ex_forward conj_forward) (rule played)
qed

text \<open>\<open>shutdown\<close> while an event is queued.\<close>

lemma demo_closed:
  "\<exists>s. sys_log 12 chart_t3 s [0] [0] \<and> sys_closer s = Closed True"
proof -
  have "\<exists>s. play 12 chart_t3
      ([Begin, Shut, Shut, Shut, Shut, Timeout, Work, Shut, Shut] @ [Work, Work, Shut, Work, Shut, Shut, Shut, Shut, Shut])
      (demo_sys, [], []) = Some (s, [0], [0]) \<and> sys_closer s = Closed True"
    by (simp add: thread_defs run_defs chart_facts enqueue_stopped cong: stop_congs)
  then show ?thesis by (elim ex_forward conj_forward) (rule played)
qed

text \<open>
  \<open>EventQueueEntry::run\<close> looks at the flag and the state before the dispatch takes the lock: a timer
  that is cancelled in between is dispatched nevertheless.
\<close>

lemma cancelled_timer_dispatched:
  "\<exists>s. sys_reach 12 chart_t3 s \<and> sys_workers s = [Busy (Dispatching 1)] \<and> invalid (sys_sv s) 1 \<and>
     \<not> isActive (sys_rt s) (e_state (entries (sys_sv s) ! 1))"
proof -
  have "\<exists>s. play 12 chart_t3
      ([Begin, Work, Work, Work, Until 1000, Timeout, Timeout, Timeout] @ [Work, Work, Call (Dispatch (Some (TestEvent 1)))])
      (demo_sys, [], []) = Some (s, [0, 1], [0]) \<and> sys_workers s = [Busy (Dispatching 1)] \<and> invalid (sys_sv s) 1 \<and>
     \<not> isActive (sys_rt s) (e_state (entries (sys_sv s) ! 1))"
    by (simp add: thread_defs run_defs chart_facts run_input_def cong: stop_congs)
  then show ?thesis by (elim ex_forward conj_forward) (rule sys_log_reach[OF played])
qed

text \<open>
  \<open>start(data)\<close> passes its own parameter on to the timers; when one fires, that object is gone.
\<close>

lemma timer_parameter_dangles:
  "\<exists>s. sys_reach 12 chart_t3 s \<and> sys_workers s = [Busy (Dispatching 0)] \<and>
     run_dispatch 12 chart_t3 0 (sys_rt s) = Undef"
proof -
  have "\<exists>s. play 12 chart_t3 [Call StartFresh, Until 1000, Timeout, Timeout, Timeout, Work, Work] (demo_sys, [], []) =
      Some (s, [0], []) \<and> sys_workers s = [Busy (Dispatching 0)] \<and>
      run_dispatch 12 chart_t3 0 (sys_rt s) = Undef"
    by (simp add: thread_defs run_defs chart_facts run_input_def cong: stop_congs)
  then show ?thesis by (elim ex_forward conj_forward) (rule sys_log_reach[OF played])
qed

end
