(* ===== verification/Example_Nested.thy ===== *)
theory Example_Nested
  imports Console Test_Threads
begin

text \<open>
  The programs of \<open>doc/examples\<close> with composite and concurrent states: three demonstrations, the
  dead-man switch of a pump, and the program of the tutorial.  The identifier of a timeout event is
  random in the code; here it is a pair of small numbers, different for each event.
\<close>

section \<open>SimpleComposite\<close>

definition simple_composite :: "unit console chart" where
  "simple_composite = build_chart ''SimpleComposite''
    [start_state ''start'' 0,
     hierarchical_state ''EnableSystem'' 0 (says ''[EnableSystem] entered'') None (says ''[EnableSystem] exited''),
     start_state ''enableStart'' 2,
     simple_state ''ON'' 2 (says ''  [ON] light is on'') None None,
     simple_state ''OFF'' 2 (says ''  [OFF] light is off'') None None,
     simple_state ''DisableSystem'' 0 (says ''[DisableSystem] entered'') None None,
     tr 1 2 None None None,
     tr 3 4 None None None,
     tr 4 5 (Some (Event ''off'')) None None,
     tr 5 4 (Some (Event ''on'')) None None,
     tr 2 6 (Some (Event ''disable'')) None None,
     tr 6 2 (Some (Event ''enable'')) None None]"

definition simple_composite_main :: "nat \<Rightarrow> (unit, unit console rt) prog" where
  "simple_composite_main n = statements
    [print_lines [''=== Simple composite state ===''],
     launch n simple_composite,
     print_lines ['''', ''>> off: ON -> OFF''],
     send n simple_composite (Some (Event ''off'')),
     print_lines ['''', ''>> on : OFF -> ON''],
     send n simple_composite (Some (Event ''on'')),
     print_lines ['''', ''>> disable: EnableSystem -> DisableSystem''],
     send n simple_composite (Some (Event ''disable'')),
     print_lines ['''', ''>> enable : DisableSystem -> EnableSystem''],
     send n simple_composite (Some (Event ''enable''))]"

section \<open>ComplexComposite\<close>

abbreviation entry_of_state :: "string \<Rightarrow> unit console action option" where
  "entry_of_state s \<equiv> says (''  Entering '' @ s)"

abbreviation exit_of_state :: "string \<Rightarrow> unit console action option" where
  "exit_of_state s \<equiv> says (''  Leaving '' @ s)"

definition complex_composite :: "unit console chart" where
  "complex_composite = build_chart ''ComplexComposite''
    [start_state ''start'' 0,
     hierarchical_state ''State0'' 0 (entry_of_state ''State0'') None (exit_of_state ''State0''),
     start_state ''s0Start'' 2,
     hierarchical_state ''State1'' 2 (entry_of_state ''State1'') None (exit_of_state ''State1''),
     start_state ''s1Start'' 4,
     simple_state ''State11'' 4 (entry_of_state ''State11'') None (exit_of_state ''State11''),
     hierarchical_state ''State2'' 2 (entry_of_state ''State2'') None (exit_of_state ''State2''),
     start_state ''s2Start'' 7,
     hierarchical_state ''State21'' 7 (entry_of_state ''State21'') None (exit_of_state ''State21''),
     start_state ''s21Start'' 9,
     simple_state ''State211'' 9 (entry_of_state ''State211'') None (exit_of_state ''State211''),
     tr 1 2 None None None,
     tr 3 4 None None None,
     tr 5 6 None None None,
     tr 8 9 None None None,
     tr 10 11 None None None,
     tr 4 11 (Some (Event ''f'')) None None]"

definition complex_composite_main :: "nat \<Rightarrow> (unit, unit console rt) prog" where
  "complex_composite_main n = statements
    [print_lines [''=== Complex composite (nested 3-level) ===''],
     launch n complex_composite,
     print_lines ['''', ''>> Dispatch event '' @ [CHR 0x27] @ ''f'' @ [CHR 0x27] @ '' : State1 -> State211''],
     send n complex_composite (Some (Event ''f''))]"

section \<open>SimpleOrthogonal\<close>

definition simple_orthogonal :: "unit console chart" where
  "simple_orthogonal = build_chart ''SimpleOrthogonal''
    [start_state ''start'' 0,
     concurrent_state ''EnableSystem'' 0 (says ''[EnableSystem] entered'') None (says ''[EnableSystem] exited''),
     hierarchical_state ''Region1'' 2 None None None,
     start_state ''r1Start'' 3,
     simple_state ''State1'' 3 (says ''  [Region1] State1'') None None,
     new_obj ''r1Final'' 3 CFinal,
     hierarchical_state ''Region2'' 2 None None None,
     start_state ''r2Start'' 7,
     simple_state ''State2'' 7 (says ''  [Region2] State2'') None None,
     new_obj ''r2Final'' 7 CFinal,
     simple_state ''DisableSystem'' 0 (says ''[DisableSystem] entered'') None None,
     tr 1 2 None None None,
     tr 4 5 None None None,
     tr 5 6 None None None,
     tr 8 9 None None None,
     tr 9 10 None None None,
     tr 2 11 None None None]"

definition simple_orthogonal_main :: "nat \<Rightarrow> (unit, unit console rt) prog" where
  "simple_orthogonal_main n = statements
    [print_lines [''=== Simple orthogonal (concurrent) state ===''],
     launch n simple_orthogonal]"

section \<open>Pompe\<close>

record pompe_parameter =
  HM :: bool
  AU :: bool
  DHM :: bool
  DPP :: bool

definition SIM_DIV :: int where
  "SIM_DIV = 10"

definition TIMEOUT_40S_MS :: int where
  "TIMEOUT_40S_MS = 40000 div SIM_DIV"

definition TIMEOUT_20S_MS :: int where
  "TIMEOUT_20S_MS = 20000 div SIM_DIV"

definition TIMEOUT_5S_MS :: int where
  "TIMEOUT_5S_MS = 5000 div SIM_DIV"

definition startPump :: "pompe_parameter console action option" where
  "startPump = says ''  >> startPump()''"

definition stopPump :: "pompe_parameter console action option" where
  "stopPump = says ''  >> stopPump()''"

definition alarm :: "int \<Rightarrow> pompe_parameter console action option" where
  "alarm ty = says (''  >> alarmType'' @ show_int ty @ ''()'')"

definition canStart :: "pompe_parameter console guard option" where
  "canStart = whenever (\<lambda>p. HM p \<and> \<not> AU p \<and> \<not> DHM p \<and> \<not> DPP p)"

definition pompe :: "pompe_parameter console chart" where
  "pompe = build_chart ''Pump''
    [start_state ''start'' 0,
     simple_state ''PumpStopped'' 0 (says ''[PumpStopped] pump idle'') None None,
     simple_state ''Default'' 0 stopPump (alarm 3) None,
     simple_state ''ReturnToService'' 0 (says ''[ReturnToService] returning to service'') None None,
     hierarchical_state ''PumpRunning'' 0 (says ''[PumpRunning] pump running'') None None,
     hierarchical_state ''WaitForHMRelease'' 5 None None None,
     start_state ''whmrStart'' 6,
     simple_state ''StartPump'' 6 startPump None None,
     simple_state ''Wait40Seconds'' 6 (says ''  [Wait40Seconds]'') None None,
     simple_state ''Wait20Seconds'' 6 (says ''  [Wait20Seconds] entering alarm window'') (alarm 1) None,
     simple_state ''WaitForHM'' 5 (says ''  [WaitForHM] HM released, type-2 alarm'') (alarm 2) None,
     tr 1 2 None None None,
     tr 2 8 (Some (Event ''BPM'')) canStart None,
     tr 7 8 None None None,
     tr 8 9 None None None,
     tr 9 10 (Some (TimeoutEvent TIMEOUT_40S_MS 1 1)) None None,
     tr 10 3 (Some (TimeoutEvent TIMEOUT_20S_MS 2 2)) None None,
     tr 6 11 (Some (Event ''falling_HM'')) None None,
     tr 11 9 (Some (Event ''rising_HM'')) None None,
     tr 11 3 (Some (TimeoutEvent TIMEOUT_5S_MS 3 3)) None None,
     tr 5 2 (Some (Event ''AU'')) None None,
     tr 5 2 (Some (Event ''BPA'')) None None,
     tr 5 2 (Some (Event ''DPP'')) None None,
     tr 3 4 (Some (Event ''Acq'')) None None,
     tr 4 2 None None None]"

definition waitMs :: "int \<Rightarrow> (unit, 'e rt) prog" where
  "waitMs ms = sleep_for ms"

definition pompe_main :: "nat \<Rightarrow> (unit, pompe_parameter console rt) prog" where
  "pompe_main n = statements
    [print_lines [''=== Dead-Man pump controller (timeouts /'' @ show_int SIM_DIV @ '') ===''],
     launch n pompe,
     print_lines ['''', ''>> [1] Press BPM (HM held): start the pump''],
     send n pompe (Some (Event ''BPM'')),
     print_lines ['''', ''>> [1] Wait ~20 s sim-time (= '' @ show_int TIMEOUT_20S_MS @ '' ms)''],
     waitMs TIMEOUT_20S_MS,
     print_lines ['''', ''>> [1] Press BPA: stop the pump''],
     send n pompe (Some (Event ''BPA'')),
     print_lines ['''', ''>> [2] Press BPM again: restart the pump''],
     send n pompe (Some (Event ''BPM'')),
     print_lines ['''', ''>> [2] Wait a bit so the pump is well in Wait40Seconds''],
     waitMs 200,
     print_lines ['''', ''>> [2] Operator releases HM (falling HM): alarm type 2''],
     assign (\<lambda>p. p\<lparr>HM := False\<rparr>),
     send n pompe (Some (Event ''falling_HM'')),
     print_lines ['''', ''>> [2] Press BPM (does nothing: we are not in PumpStopped)''],
     send n pompe (Some (Event ''BPM'')),
     print_lines ['''', ''>> [2] Operator presses HM back (rising HM): resume''],
     assign (\<lambda>p. p\<lparr>HM := True\<rparr>),
     send n pompe (Some (Event ''rising_HM'')),
     waitMs 200,
     print_lines ['''', ''>> [2] Final BPA to terminate cleanly''],
     send n pompe (Some (Event ''BPA''))]"

section \<open>GettingStarted\<close>

record my_parameter =
  my_value :: int

definition setValue :: "int \<Rightarrow> my_parameter console action option" where
  "setValue v = sets (\<lambda>p. p\<lparr>my_value := v\<rparr>)"

definition decrementValue :: "my_parameter console action option" where
  "decrementValue = sets (\<lambda>p. p\<lparr>my_value := my_value p - 1\<rparr>)"

definition valueEquals :: "int \<Rightarrow> my_parameter console guard option" where
  "valueEquals v = whenever (\<lambda>p. my_value p = v)"

definition getting_started :: "my_parameter console chart" where
  "getting_started = build_chart ''example''
    [start_state ''start'' 0,
     new_obj ''final'' 0 CFinal,
     hierarchical_state ''a'' 0 (setValue 10) None None,
     simple_state ''b'' 3 None None None,
     new_obj ''j'' 3 (CPseudo Junction),
     new_obj ''a_final'' 3 CFinal,
     concurrent_state ''c'' 3 None None None,
     hierarchical_state ''c_r1'' 7 None None None,
     start_state ''c_r1_start'' 8,
     simple_state ''d'' 8 (says ''c_r1 active'') None (says ''c_r1 inactive''),
     hierarchical_state ''c_r2'' 7 None None None,
     start_state ''c_r2_start'' 11,
     simple_state ''e'' 11 (says ''start timeout'') None None,
     simple_state ''f'' 11 decrementValue None None,
     tr 1 4 None None None,
     tr 4 7 None None None,
     tr 9 10 None None None,
     tr 12 13 None None None,
     tr 13 14 (Some (TimeoutEvent 1000 1 1)) None (says ''timeout''),
     tr 14 13 (Some (Event ''AnotherEvent'')) None None,
     tr 7 5 (Some (Event ''AnEvent'')) None None,
     tr 5 4 None (valueEquals 0) None,
     tr 5 6 None None None,
     tr 3 2 None None None]"

text \<open>
  What \<open>main\<close> does, between its own messages: start, sleep for 1.5 seconds while the timeout thread
  and the worker thread run the timer, then dispatch.
\<close>

definition getting_started_main :: "move list" where
  "getting_started_main =
    [Call (StartWith (CallerParam 0)), Until 1500, Timeout, Timeout, Timeout, Work, Work, Work,
     Call (DispatchWith (Some (Event ''AnEvent'')) (CallerParam 0))]"

section \<open>The charts as records\<close>

lemma nested_guards [simp]:
  "\<exists>g. canStart = Some g" "\<exists>g. valueEquals v = Some g"
  by (simp_all add: canStart_def valueEquals_def)

lemma simple_composite_literal:
  "simple_composite =
    \<lparr>ownedStates =
       [lit_state Chart ''SimpleComposite'' None None None [] (Some 1) None [] [],
        lit_state (Pseudo Start) ''start'' (Some 0) None None [0] None None [] [],
        lit_state Hierarchical ''EnableSystem'' (Some 0) (says ''[EnableSystem] entered'') (says
          ''[EnableSystem] exited'') [4] (Some 3) None [] [],
        lit_state (Pseudo Start) ''enableStart'' (Some 2) None None [1] None None [] [],
        lit_state Simple ''ON'' (Some 2) (says ''  [ON] light is on'') None [2] None None [] [],
        lit_state Simple ''OFF'' (Some 2) (says ''  [OFF] light is off'') None [3] None None []
          [],
        lit_state Simple ''DisableSystem'' (Some 0) (says ''[DisableSystem] entered'') None [5]
          None None [] []],
     ownedTransitions =
       [lit_trans False None None None [1] [2],
        lit_trans False None None None [3] [4],
        lit_trans False (Some (Event ''off'')) None None [4] [5],
        lit_trans False (Some (Event ''on'')) None None [5] [4],
        lit_trans False (Some (Event ''disable'')) None None [2] [6],
        lit_trans False (Some (Event ''enable'')) None None [6] [2]],
     ownedEvents = [Event ''off'', Event ''on'', Event ''disable'', Event ''enable''],
     stateNames =
       [(''start'', 1), (''EnableSystem'', 2), (''enableStart'', 3), (''ON'', 4), (''OFF'', 5),
        (''DisableSystem'', 6)],
     loopThreshold = 1000, user_equals = no_user_event\<rparr>"
  by (simp add: simple_composite_def build_eval console_build lit_defs cong: let_weak_cong)

lemma simple_composite_facts [chart_facts]:
  "n_states simple_composite = 7" "length (ownedTransitions simple_composite) = 6"
  "loopThreshold simple_composite = 1000" "user_equals simple_composite = no_user_event"
  "ownedStates simple_composite ! 0 = lit_state Chart ''SimpleComposite'' None None None [] (Some 1) None [] []"
  "ownedStates simple_composite ! Suc 0 = lit_state (Pseudo Start) ''start'' (Some 0) None None [0] None None [] []"
  "ownedStates simple_composite ! 2 = lit_state Hierarchical ''EnableSystem'' (Some 0) (says ''[EnableSystem] entered'') (says
    ''[EnableSystem] exited'') [4] (Some 3) None [] []"
  "ownedStates simple_composite ! 3 = lit_state (Pseudo Start) ''enableStart'' (Some 2) None None [1] None None [] []"
  "ownedStates simple_composite ! 4 = lit_state Simple ''ON'' (Some 2) (says ''  [ON] light is on'') None [2] None None [] []"
  "ownedStates simple_composite ! 5 = lit_state Simple ''OFF'' (Some 2) (says ''  [OFF] light is off'') None [3] None None [] []"
  "ownedStates simple_composite ! 6 = lit_state Simple ''DisableSystem'' (Some 0) (says ''[DisableSystem] entered'') None [5] None
    None [] []"
  "ownedTransitions simple_composite ! 0 = lit_trans False None None None [1] [2]"
  "ownedTransitions simple_composite ! Suc 0 = lit_trans False None None None [3] [4]"
  "ownedTransitions simple_composite ! 2 = lit_trans False (Some (Event ''off'')) None None [4] [5]"
  "ownedTransitions simple_composite ! 3 = lit_trans False (Some (Event ''on'')) None None [5] [4]"
  "ownedTransitions simple_composite ! 4 = lit_trans False (Some (Event ''disable'')) None None [2] [6]"
  "ownedTransitions simple_composite ! 5 = lit_trans False (Some (Event ''enable'')) None None [6] [2]"
  by (simp_all add: simple_composite_literal)

lemma complex_composite_literal:
  "complex_composite =
    \<lparr>ownedStates =
       [lit_state Chart ''ComplexComposite'' None None None [] (Some 1) None [] [],
        lit_state (Pseudo Start) ''start'' (Some 0) None None [0] None None [] [],
        lit_state Hierarchical ''State0'' (Some 0) (says ''  Entering State0'') (says
          ''  Leaving State0'') [] (Some 3) None [] [],
        lit_state (Pseudo Start) ''s0Start'' (Some 2) None None [1] None None [] [],
        lit_state Hierarchical ''State1'' (Some 2) (says ''  Entering State1'') (says
          ''  Leaving State1'') [5] (Some 5) None [] [],
        lit_state (Pseudo Start) ''s1Start'' (Some 4) None None [2] None None [] [],
        lit_state Simple ''State11'' (Some 4) (says ''  Entering State11'') (says
          ''  Leaving State11'') [] None None [] [],
        lit_state Hierarchical ''State2'' (Some 2) (says ''  Entering State2'') (says
          ''  Leaving State2'') [] (Some 8) None [] [],
        lit_state (Pseudo Start) ''s2Start'' (Some 7) None None [3] None None [] [],
        lit_state Hierarchical ''State21'' (Some 7) (says ''  Entering State21'') (says
          ''  Leaving State21'') [] (Some 10) None [] [],
        lit_state (Pseudo Start) ''s21Start'' (Some 9) None None [4] None None [] [],
        lit_state Simple ''State211'' (Some 9) (says ''  Entering State211'') (says
          ''  Leaving State211'') [] None None [] []],
     ownedTransitions =
       [lit_trans False None None None [1] [2],
        lit_trans False None None None [3] [4],
        lit_trans False None None None [5] [6],
        lit_trans False None None None [8] [9],
        lit_trans False None None None [10] [11],
        lit_trans False (Some (Event ''f'')) None None [4] [7, 9, 11]],
     ownedEvents = [Event ''f''],
     stateNames =
       [(''start'', 1), (''State0'', 2), (''s0Start'', 3), (''State1'', 4), (''s1Start'', 5),
        (''State11'', 6), (''State2'', 7), (''s2Start'', 8), (''State21'', 9), (''s21Start'', 10),
        (''State211'', 11)],
     loopThreshold = 1000, user_equals = no_user_event\<rparr>"
  by (simp add: complex_composite_def build_eval console_build lit_defs cong: let_weak_cong)

lemma complex_composite_facts [chart_facts]:
  "n_states complex_composite = 12" "length (ownedTransitions complex_composite) = 6"
  "loopThreshold complex_composite = 1000" "user_equals complex_composite = no_user_event"
  "ownedStates complex_composite ! 0 = lit_state Chart ''ComplexComposite'' None None None [] (Some 1) None [] []"
  "ownedStates complex_composite ! Suc 0 = lit_state (Pseudo Start) ''start'' (Some 0) None None [0] None None [] []"
  "ownedStates complex_composite ! 2 = lit_state Hierarchical ''State0'' (Some 0) (says ''  Entering State0'') (says
    ''  Leaving State0'') [] (Some 3) None [] []"
  "ownedStates complex_composite ! 3 = lit_state (Pseudo Start) ''s0Start'' (Some 2) None None [1] None None [] []"
  "ownedStates complex_composite ! 4 = lit_state Hierarchical ''State1'' (Some 2) (says ''  Entering State1'') (says
    ''  Leaving State1'') [5] (Some 5) None [] []"
  "ownedStates complex_composite ! 5 = lit_state (Pseudo Start) ''s1Start'' (Some 4) None None [2] None None [] []"
  "ownedStates complex_composite ! 6 = lit_state Simple ''State11'' (Some 4) (says ''  Entering State11'') (says
    ''  Leaving State11'') [] None None [] []"
  "ownedStates complex_composite ! 7 = lit_state Hierarchical ''State2'' (Some 2) (says ''  Entering State2'') (says
    ''  Leaving State2'') [] (Some 8) None [] []"
  "ownedStates complex_composite ! 8 = lit_state (Pseudo Start) ''s2Start'' (Some 7) None None [3] None None [] []"
  "ownedStates complex_composite ! 9 = lit_state Hierarchical ''State21'' (Some 7) (says ''  Entering State21'') (says
    ''  Leaving State21'') [] (Some 10) None [] []"
  "ownedStates complex_composite ! 10 = lit_state (Pseudo Start) ''s21Start'' (Some 9) None None [4] None None [] []"
  "ownedStates complex_composite ! 11 = lit_state Simple ''State211'' (Some 9) (says ''  Entering State211'') (says
    ''  Leaving State211'') [] None None [] []"
  "ownedTransitions complex_composite ! 0 = lit_trans False None None None [1] [2]"
  "ownedTransitions complex_composite ! Suc 0 = lit_trans False None None None [3] [4]"
  "ownedTransitions complex_composite ! 2 = lit_trans False None None None [5] [6]"
  "ownedTransitions complex_composite ! 3 = lit_trans False None None None [8] [9]"
  "ownedTransitions complex_composite ! 4 = lit_trans False None None None [10] [11]"
  "ownedTransitions complex_composite ! 5 = lit_trans False (Some (Event ''f'')) None None [4] [7, 9, 11]"
  by (simp_all add: complex_composite_literal)

lemma simple_orthogonal_literal:
  "simple_orthogonal =
    \<lparr>ownedStates =
       [lit_state Chart ''SimpleOrthogonal'' None None None [] (Some 1) None [] [],
        lit_state (Pseudo Start) ''start'' (Some 0) None None [0] None None [] [],
        lit_state Concurrent ''EnableSystem'' (Some 0) (says ''[EnableSystem] entered'') (says
          ''[EnableSystem] exited'') [5] None None [3, 7] [],
        lit_state Hierarchical ''Region1'' (Some 2) None None [] (Some 4) None [] [],
        lit_state (Pseudo Start) ''r1Start'' (Some 3) None None [1] None None [] [],
        lit_state Simple ''State1'' (Some 3) (says ''  [Region1] State1'') None [2] None None []
          [],
        lit_state Final ''r1Final'' (Some 3) None None [] None None [] [],
        lit_state Hierarchical ''Region2'' (Some 2) None None [] (Some 8) None [] [],
        lit_state (Pseudo Start) ''r2Start'' (Some 7) None None [3] None None [] [],
        lit_state Simple ''State2'' (Some 7) (says ''  [Region2] State2'') None [4] None None []
          [],
        lit_state Final ''r2Final'' (Some 7) None None [] None None [] [],
        lit_state Simple ''DisableSystem'' (Some 0) (says ''[DisableSystem] entered'') None []
          None None [] []],
     ownedTransitions =
       [lit_trans False None None None [1] [2],
        lit_trans False None None None [4] [5],
        lit_trans False None None None [5] [6],
        lit_trans False None None None [8] [9],
        lit_trans False None None None [9] [10],
        lit_trans False None None None [2] [11]],
     ownedEvents = [],
     stateNames =
       [(''start'', 1), (''EnableSystem'', 2), (''Region1'', 3), (''r1Start'', 4), (''State1'',
        5), (''r1Final'', 6), (''Region2'', 7), (''r2Start'', 8), (''State2'', 9), (''r2Final'',
        10), (''DisableSystem'', 11)],
     loopThreshold = 1000, user_equals = no_user_event\<rparr>"
  by (simp add: simple_orthogonal_def build_eval console_build lit_defs cong: let_weak_cong)

lemma simple_orthogonal_facts [chart_facts]:
  "n_states simple_orthogonal = 12" "length (ownedTransitions simple_orthogonal) = 6"
  "loopThreshold simple_orthogonal = 1000" "user_equals simple_orthogonal = no_user_event"
  "ownedStates simple_orthogonal ! 0 = lit_state Chart ''SimpleOrthogonal'' None None None [] (Some 1) None [] []"
  "ownedStates simple_orthogonal ! Suc 0 = lit_state (Pseudo Start) ''start'' (Some 0) None None [0] None None [] []"
  "ownedStates simple_orthogonal ! 2 = lit_state Concurrent ''EnableSystem'' (Some 0) (says ''[EnableSystem] entered'') (says
    ''[EnableSystem] exited'') [5] None None [3, 7] []"
  "ownedStates simple_orthogonal ! 3 = lit_state Hierarchical ''Region1'' (Some 2) None None [] (Some 4) None [] []"
  "ownedStates simple_orthogonal ! 4 = lit_state (Pseudo Start) ''r1Start'' (Some 3) None None [1] None None [] []"
  "ownedStates simple_orthogonal ! 5 = lit_state Simple ''State1'' (Some 3) (says ''  [Region1] State1'') None [2] None None [] []"
  "ownedStates simple_orthogonal ! 6 = lit_state Final ''r1Final'' (Some 3) None None [] None None [] []"
  "ownedStates simple_orthogonal ! 7 = lit_state Hierarchical ''Region2'' (Some 2) None None [] (Some 8) None [] []"
  "ownedStates simple_orthogonal ! 8 = lit_state (Pseudo Start) ''r2Start'' (Some 7) None None [3] None None [] []"
  "ownedStates simple_orthogonal ! 9 = lit_state Simple ''State2'' (Some 7) (says ''  [Region2] State2'') None [4] None None [] []"
  "ownedStates simple_orthogonal ! 10 = lit_state Final ''r2Final'' (Some 7) None None [] None None [] []"
  "ownedStates simple_orthogonal ! 11 = lit_state Simple ''DisableSystem'' (Some 0) (says ''[DisableSystem] entered'') None [] None
    None [] []"
  "ownedTransitions simple_orthogonal ! 0 = lit_trans False None None None [1] [2]"
  "ownedTransitions simple_orthogonal ! Suc 0 = lit_trans False None None None [4] [5]"
  "ownedTransitions simple_orthogonal ! 2 = lit_trans False None None None [5] [6]"
  "ownedTransitions simple_orthogonal ! 3 = lit_trans False None None None [8] [9]"
  "ownedTransitions simple_orthogonal ! 4 = lit_trans False None None None [9] [10]"
  "ownedTransitions simple_orthogonal ! 5 = lit_trans False None None None [2] [11]"
  by (simp_all add: simple_orthogonal_literal)

lemma pompe_literal:
  "pompe =
    \<lparr>ownedStates =
       [lit_state Chart ''Pump'' None None None [] (Some 1) None [] [],
        lit_state (Pseudo Start) ''start'' (Some 0) None None [0] None None [] [],
        lit_state Simple ''PumpStopped'' (Some 0) (says ''[PumpStopped] pump idle'') None [1]
          None None [] [],
        lit_do (alarm 3) (lit_state Simple ''Default'' (Some 0) stopPump None [12] None None []
          []),
        lit_state Simple ''ReturnToService'' (Some 0) (says
          ''[ReturnToService] returning to service'') None [13] None None [] [],
        lit_state Hierarchical ''PumpRunning'' (Some 0) (says ''[PumpRunning] pump running'')
          None [9, 10, 11] None None [] [],
        lit_state Hierarchical ''WaitForHMRelease'' (Some 5) None None [6] (Some 7) None [] [],
        lit_state (Pseudo Start) ''whmrStart'' (Some 6) None None [2] None None [] [],
        lit_state Simple ''StartPump'' (Some 6) startPump None [3] None None [] [],
        lit_state Simple ''Wait40Seconds'' (Some 6) (says ''  [Wait40Seconds]'') None [4] None
          None [] [],
        lit_do (alarm 1) (lit_state Simple ''Wait20Seconds'' (Some 6) (says
          ''  [Wait20Seconds] entering alarm window'') None [5] None None [] []),
        lit_do (alarm 2) (lit_state Simple ''WaitForHM'' (Some 5) (says
          ''  [WaitForHM] HM released, type-2 alarm'') None [7, 8] None None [] [])],
     ownedTransitions =
       [lit_trans False None None None [1] [2],
        lit_trans False (Some (Event ''BPM'')) canStart None [2] [5, 6, 8],
        lit_trans False None None None [7] [8],
        lit_trans False None None None [8] [9],
        lit_trans False (Some (TimeoutEvent TIMEOUT_40S_MS 1 1)) None None [9] [10],
        lit_trans False (Some (TimeoutEvent TIMEOUT_20S_MS 2 2)) None None [10, 6, 5] [3],
        lit_trans False (Some (Event ''falling_HM'')) None None [6] [11],
        lit_trans False (Some (Event ''rising_HM'')) None None [11] [6, 9],
        lit_trans False (Some (TimeoutEvent TIMEOUT_5S_MS 3 3)) None None [11, 5] [3],
        lit_trans False (Some (Event ''AU'')) None None [5] [2],
        lit_trans False (Some (Event ''BPA'')) None None [5] [2],
        lit_trans False (Some (Event ''DPP'')) None None [5] [2],
        lit_trans False (Some (Event ''Acq'')) None None [3] [4],
        lit_trans False None None None [4] [2]],
     ownedEvents = [Event ''BPM'', TimeoutEvent TIMEOUT_40S_MS 1 1, TimeoutEvent TIMEOUT_20S_MS 2 2, Event
        ''falling_HM'', Event ''rising_HM'', TimeoutEvent TIMEOUT_5S_MS 3 3, Event ''AU'', Event
        ''BPA'', Event ''DPP'', Event ''Acq''],
     stateNames =
       [(''start'', 1), (''PumpStopped'', 2), (''Default'', 3), (''ReturnToService'', 4),
        (''PumpRunning'', 5), (''WaitForHMRelease'', 6), (''whmrStart'', 7), (''StartPump'', 8),
        (''Wait40Seconds'', 9), (''Wait20Seconds'', 10), (''WaitForHM'', 11)],
     loopThreshold = 1000, user_equals = no_user_event\<rparr>"
  by (simp add: pompe_def build_eval console_build lit_defs cong: let_weak_cong)

lemma pompe_facts [chart_facts]:
  "n_states pompe = 12" "length (ownedTransitions pompe) = 14"
  "loopThreshold pompe = 1000" "user_equals pompe = no_user_event"
  "ownedStates pompe ! 0 = lit_state Chart ''Pump'' None None None [] (Some 1) None [] []"
  "ownedStates pompe ! Suc 0 = lit_state (Pseudo Start) ''start'' (Some 0) None None [0] None None [] []"
  "ownedStates pompe ! 2 = lit_state Simple ''PumpStopped'' (Some 0) (says ''[PumpStopped] pump idle'') None [1] None
    None [] []"
  "ownedStates pompe ! 3 = lit_do (alarm 3) (lit_state Simple ''Default'' (Some 0) stopPump None [12] None None [] [])"
  "ownedStates pompe ! 4 = lit_state Simple ''ReturnToService'' (Some 0) (says
    ''[ReturnToService] returning to service'') None [13] None None [] []"
  "ownedStates pompe ! 5 = lit_state Hierarchical ''PumpRunning'' (Some 0) (says ''[PumpRunning] pump running'') None [9,
    10, 11] None None [] []"
  "ownedStates pompe ! 6 = lit_state Hierarchical ''WaitForHMRelease'' (Some 5) None None [6] (Some 7) None [] []"
  "ownedStates pompe ! 7 = lit_state (Pseudo Start) ''whmrStart'' (Some 6) None None [2] None None [] []"
  "ownedStates pompe ! 8 = lit_state Simple ''StartPump'' (Some 6) startPump None [3] None None [] []"
  "ownedStates pompe ! 9 = lit_state Simple ''Wait40Seconds'' (Some 6) (says ''  [Wait40Seconds]'') None [4] None None []
    []"
  "ownedStates pompe ! 10 = lit_do (alarm 1) (lit_state Simple ''Wait20Seconds'' (Some 6) (says
    ''  [Wait20Seconds] entering alarm window'') None [5] None None [] [])"
  "ownedStates pompe ! 11 = lit_do (alarm 2) (lit_state Simple ''WaitForHM'' (Some 5) (says
    ''  [WaitForHM] HM released, type-2 alarm'') None [7, 8] None None [] [])"
  "ownedTransitions pompe ! 0 = lit_trans False None None None [1] [2]"
  "ownedTransitions pompe ! Suc 0 = lit_trans False (Some (Event ''BPM'')) canStart None [2] [5, 6, 8]"
  "ownedTransitions pompe ! 2 = lit_trans False None None None [7] [8]"
  "ownedTransitions pompe ! 3 = lit_trans False None None None [8] [9]"
  "ownedTransitions pompe ! 4 = lit_trans False (Some (TimeoutEvent TIMEOUT_40S_MS 1 1)) None None [9] [10]"
  "ownedTransitions pompe ! 5 = lit_trans False (Some (TimeoutEvent TIMEOUT_20S_MS 2 2)) None None [10, 6, 5] [3]"
  "ownedTransitions pompe ! 6 = lit_trans False (Some (Event ''falling_HM'')) None None [6] [11]"
  "ownedTransitions pompe ! 7 = lit_trans False (Some (Event ''rising_HM'')) None None [11] [6, 9]"
  "ownedTransitions pompe ! 8 = lit_trans False (Some (TimeoutEvent TIMEOUT_5S_MS 3 3)) None None [11, 5] [3]"
  "ownedTransitions pompe ! 9 = lit_trans False (Some (Event ''AU'')) None None [5] [2]"
  "ownedTransitions pompe ! 10 = lit_trans False (Some (Event ''BPA'')) None None [5] [2]"
  "ownedTransitions pompe ! 11 = lit_trans False (Some (Event ''DPP'')) None None [5] [2]"
  "ownedTransitions pompe ! 12 = lit_trans False (Some (Event ''Acq'')) None None [3] [4]"
  "ownedTransitions pompe ! 13 = lit_trans False None None None [4] [2]"
  by (simp_all add: pompe_literal)

lemma getting_started_literal:
  "getting_started =
    \<lparr>ownedStates =
       [lit_state Chart ''example'' None None None [] (Some 1) None [] [],
        lit_state (Pseudo Start) ''start'' (Some 0) None None [0] None None [] [],
        lit_state Final ''final'' (Some 0) None None [] None None [] [],
        lit_state Hierarchical ''a'' (Some 0) (setValue 10) None [9] None None [] [],
        lit_state Simple ''b'' (Some 3) None None [1] None None [] [],
        lit_state (Pseudo Junction) ''j'' (Some 3) None None [7, 8] None None [] [],
        lit_state Final ''a_final'' (Some 3) None None [] None None [] [],
        lit_state Concurrent ''c'' (Some 3) None None [6] None None [8, 11] [],
        lit_state Hierarchical ''c_r1'' (Some 7) None None [] (Some 9) None [] [],
        lit_state (Pseudo Start) ''c_r1_start'' (Some 8) None None [2] None None [] [],
        lit_state Simple ''d'' (Some 8) (says ''c_r1 active'') (says ''c_r1 inactive'') [] None
          None [] [],
        lit_state Hierarchical ''c_r2'' (Some 7) None None [] (Some 12) None [] [],
        lit_state (Pseudo Start) ''c_r2_start'' (Some 11) None None [3] None None [] [],
        lit_state Simple ''e'' (Some 11) (says ''start timeout'') None [4] None None [] [],
        lit_state Simple ''f'' (Some 11) decrementValue None [5] None None [] []],
     ownedTransitions =
       [lit_trans False None None None [1] [3, 4],
        lit_trans False None None None [4] [7],
        lit_trans False None None None [9] [10],
        lit_trans False None None None [12] [13],
        lit_trans False (Some (TimeoutEvent 1000 1 1)) None (says ''timeout'') [13] [14],
        lit_trans False (Some (Event ''AnotherEvent'')) None None [14] [13],
        lit_trans False (Some (Event ''AnEvent'')) None None [7] [5],
        lit_trans False None (valueEquals 0) None [5] [4],
        lit_trans False None None None [5] [6],
        lit_trans False None None None [3] [2]],
     ownedEvents = [TimeoutEvent 1000 1 1, Event ''AnotherEvent'', Event ''AnEvent''],
     stateNames =
       [(''start'', 1), (''final'', 2), (''a'', 3), (''b'', 4), (''j'', 5), (''a_final'', 6),
        (''c'', 7), (''c_r1'', 8), (''c_r1_start'', 9), (''d'', 10), (''c_r2'', 11),
        (''c_r2_start'', 12), (''e'', 13), (''f'', 14)],
     loopThreshold = 1000, user_equals = no_user_event\<rparr>"
  by (simp add: getting_started_def build_eval console_build lit_defs cong: let_weak_cong)

lemma getting_started_facts [chart_facts]:
  "n_states getting_started = 15" "length (ownedTransitions getting_started) = 10"
  "loopThreshold getting_started = 1000" "user_equals getting_started = no_user_event"
  "ownedStates getting_started ! 0 = lit_state Chart ''example'' None None None [] (Some 1) None [] []"
  "ownedStates getting_started ! Suc 0 = lit_state (Pseudo Start) ''start'' (Some 0) None None [0] None None [] []"
  "ownedStates getting_started ! 2 = lit_state Final ''final'' (Some 0) None None [] None None [] []"
  "ownedStates getting_started ! 3 = lit_state Hierarchical ''a'' (Some 0) (setValue 10) None [9] None None [] []"
  "ownedStates getting_started ! 4 = lit_state Simple ''b'' (Some 3) None None [1] None None [] []"
  "ownedStates getting_started ! 5 = lit_state (Pseudo Junction) ''j'' (Some 3) None None [7, 8] None None [] []"
  "ownedStates getting_started ! 6 = lit_state Final ''a_final'' (Some 3) None None [] None None [] []"
  "ownedStates getting_started ! 7 = lit_state Concurrent ''c'' (Some 3) None None [6] None None [8, 11] []"
  "ownedStates getting_started ! 8 = lit_state Hierarchical ''c_r1'' (Some 7) None None [] (Some 9) None [] []"
  "ownedStates getting_started ! 9 = lit_state (Pseudo Start) ''c_r1_start'' (Some 8) None None [2] None None [] []"
  "ownedStates getting_started ! 10 = lit_state Simple ''d'' (Some 8) (says ''c_r1 active'') (says ''c_r1 inactive'') [] None None
    [] []"
  "ownedStates getting_started ! 11 = lit_state Hierarchical ''c_r2'' (Some 7) None None [] (Some 12) None [] []"
  "ownedStates getting_started ! 12 = lit_state (Pseudo Start) ''c_r2_start'' (Some 11) None None [3] None None [] []"
  "ownedStates getting_started ! 13 = lit_state Simple ''e'' (Some 11) (says ''start timeout'') None [4] None None [] []"
  "ownedStates getting_started ! 14 = lit_state Simple ''f'' (Some 11) decrementValue None [5] None None [] []"
  "ownedTransitions getting_started ! 0 = lit_trans False None None None [1] [3, 4]"
  "ownedTransitions getting_started ! Suc 0 = lit_trans False None None None [4] [7]"
  "ownedTransitions getting_started ! 2 = lit_trans False None None None [9] [10]"
  "ownedTransitions getting_started ! 3 = lit_trans False None None None [12] [13]"
  "ownedTransitions getting_started ! 4 = lit_trans False (Some (TimeoutEvent 1000 1 1)) None (says ''timeout'') [13] [14]"
  "ownedTransitions getting_started ! 5 = lit_trans False (Some (Event ''AnotherEvent'')) None None [14] [13]"
  "ownedTransitions getting_started ! 6 = lit_trans False (Some (Event ''AnEvent'')) None None [7] [5]"
  "ownedTransitions getting_started ! 7 = lit_trans False None (valueEquals 0) None [5] [4]"
  "ownedTransitions getting_started ! 8 = lit_trans False None None None [5] [6]"
  "ownedTransitions getting_started ! 9 = lit_trans False None None None [3] [2]"
  by (simp_all add: getting_started_literal)

section \<open>What they print\<close>

lemma simple_composite_prints:
  "prints (simple_composite_main 24) ()
    [''=== Simple composite state ==='', ''[EnableSystem] entered'', ''  [ON] light is on'', '''',
     ''>> off: ON -> OFF'', ''  [OFF] light is off'', '''', ''>> on : OFF -> ON'', ''  [ON] light is on'', '''',
     ''>> disable: EnableSystem -> DisableSystem'', ''[EnableSystem] exited'', ''[DisableSystem] entered'', '''',
     ''>> enable : DisableSystem -> EnableSystem'', ''[EnableSystem] entered'', ''  [ON] light is on'']"
  by (simp add: simple_composite_main_def console_defs run_defs chart_facts cong: stop_congs)

lemma complex_composite_prints:
  "prints (complex_composite_main 24) ()
    [''=== Complex composite (nested 3-level) ==='', ''  Entering State0'', ''  Entering State1'', ''  Entering State11'',
     '''', ''>> Dispatch event '' @ [CHR 0x27] @ ''f'' @ [CHR 0x27] @ '' : State1 -> State211'',
     ''  Leaving State11'', ''  Leaving State1'', ''  Entering State2'', ''  Entering State21'', ''  Entering State211'']"
  by (simp add: complex_composite_main_def console_defs run_defs chart_facts cong: stop_congs)

lemma simple_orthogonal_prints:
  "prints (simple_orthogonal_main 24) ()
    [''=== Simple orthogonal (concurrent) state ==='', ''[EnableSystem] entered'', ''  [Region1] State1'',
     ''  [Region2] State2'', ''[EnableSystem] exited'', ''[DisableSystem] entered'']"
  by (simp add: simple_orthogonal_main_def console_defs run_defs chart_facts cong: stop_congs)

text \<open>
  The button BPA leads back to \<open>PumpStopped\<close>, but nothing on the way calls \<open>stopPump\<close>: only the
  state \<open>Default\<close> does.
\<close>

lemma pump_never_stopped:
  "prints (statements [launch 24 pompe, send 24 pompe (Some (Event ''BPM'')), send 24 pompe (Some (Event ''BPA''))])
    \<lparr>HM = True, AU = False, DHM = False, DPP = False\<rparr>
    [''[PumpStopped] pump idle'', ''[PumpRunning] pump running'', ''  >> startPump()'', ''  [Wait40Seconds]'',
     ''[PumpStopped] pump idle'']"
  by (simp add: console_defs run_defs chart_facts canStart_def startPump_def TIMEOUT_40S_MS_def SIM_DIV_def
      timeout_equals_def cong: stop_congs)

text \<open>The program of the tutorial: the timer fires while \<open>main\<close> sleeps, and the value ends at 9.\<close>

lemma getting_started_value:
  "case play 24 getting_started getting_started_main (new_sys 2 \<lparr>cout = [], parameter = \<lparr>my_value = 0\<rparr>\<rparr> 0, [], []) of
     None \<Rightarrow> False
   | Some (s, sub, fin) \<Rightarrow> sub = [0] \<and> fin = [0] \<and> parameter (rt_env (sys_rt s)) = \<lparr>my_value = 9\<rparr> \<and>
       cout (rt_env (sys_rt s)) = [''c_r1 active'', ''start timeout'', ''timeout'', ''c_r1 inactive'']"
  by (simp add: getting_started_main_def console_defs thread_defs run_defs chart_facts run_input_def setValue_def
      decrementValue_def valueEquals_def timeout_equals_def cong: stop_congs)

end
