(* ===== verification/Divergences.thy ===== *)
theory Divergences
  imports Example_Nested Example_Flat
begin

text \<open>
  Small charts on which the library does something else than its documentation says, or than a
  client would expect, each with the run that shows it.
\<close>

section \<open>The charts\<close>

text \<open>A start transition of the first of two regions that leaves the concurrent state.\<close>

definition leaving_region :: "unit console chart" where
  "leaving_region = build_chart ''leaving region''
    [start_state ''start'' 0,
     concurrent_state ''c'' 0 None None None,
     hierarchical_state ''r1'' 2 None None None,
     start_state ''s1'' 3,
     hierarchical_state ''r2'' 2 None None None,
     simple_state ''out'' 0 None None None,
     tr 1 2 None None None,
     tr 4 6 None None None]"

text \<open>Transitions between a composite state and its own children, and a final state inside.\<close>

definition nested_moves :: "unit console chart" where
  "nested_moves = build_chart ''nested moves''
    [start_state ''start'' 0,
     hierarchical_state ''p'' 0 None None None,
     start_state ''start p'' 2,
     simple_state ''a'' 2 None None None,
     simple_state ''b'' 2 None None None,
     new_obj ''end p'' 2 CFinal,
     simple_state ''q'' 0 None None None,
     tr 1 2 None None None,
     tr 3 4 None None None,
     tr 2 5 (Some (Event ''down'')) None None,
     tr 4 2 (Some (Event ''up'')) None None,
     tr 4 6 (Some (Event ''end'')) None None,
     tr 2 7 (Some (Event ''end'')) None None]"

text \<open>Two junctions that lead to each other.\<close>

definition junction_cycle :: "unit console chart" where
  "junction_cycle = build_chart ''junction cycle''
    [start_state ''start'' 0,
     new_obj ''j'' 0 (CPseudo Junction),
     new_obj ''k'' 0 (CPseudo Junction),
     tr 1 2 None None None,
     tr 2 3 None None None,
     tr 3 2 None None None]"

text \<open>A history state that no transition leads to.\<close>

definition unvisited_history :: "unit console chart" where
  "unvisited_history = build_chart ''unvisited history''
    [start_state ''start'' 0,
     hierarchical_state ''p'' 0 None None None,
     start_state ''start p'' 2,
     new_obj ''history p'' 2 (CPseudo History),
     simple_state ''a'' 2 None None None,
     simple_state ''b'' 2 None None None,
     simple_state ''q'' 0 None None None,
     tr 1 2 None None None,
     tr 3 5 None None None,
     tr 4 5 None None None,
     tr 5 6 (Some (Event ''next'')) None None,
     tr 2 7 (Some (Event ''leave'')) None None,
     tr 7 4 (Some (Event ''back'')) None None]"

text \<open>A deep history state, and two ways out: from a state inside, and from the composite state.\<close>

definition nested_history :: "unit console chart" where
  "nested_history = build_chart ''nested history''
    [start_state ''start'' 0,
     hierarchical_state ''p'' 0 None None None,
     start_state ''start p'' 2,
     new_obj ''deep history p'' 2 (CPseudo DeepHistory),
     hierarchical_state ''q'' 2 None None None,
     start_state ''start q'' 5,
     simple_state ''a'' 5 None None None,
     simple_state ''b'' 5 None None None,
     simple_state ''out'' 0 None None None,
     tr 1 2 None None None,
     tr 3 4 None None None,
     tr 4 5 None None None,
     tr 6 7 None None None,
     tr 7 8 (Some (Event ''next'')) None None,
     tr 8 9 (Some (Event ''leave'')) None None,
     tr 2 9 (Some (Event ''exit'')) None None,
     tr 9 4 (Some (Event ''back'')) None None]"

section \<open>The charts as records\<close>

lemma leaving_region_literal:
  "leaving_region =
    \<lparr>ownedStates =
       [lit_state Chart ''leaving region'' None None None [] (Some 1) None [] [],
        lit_state (Pseudo Start) ''start'' (Some 0) None None [0] None None [] [],
        lit_state Concurrent ''c'' (Some 0) None None [] None None [3, 5] [],
        lit_state Hierarchical ''r1'' (Some 2) None None [] (Some 4) None [] [],
        lit_state (Pseudo Start) ''s1'' (Some 3) None None [1] None None [] [],
        lit_state Hierarchical ''r2'' (Some 2) None None [] None None [] [],
        lit_state Simple ''out'' (Some 0) None None [] None None [] []],
     ownedTransitions =
       [lit_trans False None None None [1] [2],
        lit_trans False None None None [4, 3, 2] [6]],
     ownedEvents = [],
     stateNames =
       [(''start'', 1), (''c'', 2), (''r1'', 3), (''s1'', 4), (''r2'', 5), (''out'', 6)],
     loopThreshold = 1000, user_equals = no_user_event\<rparr>"
  by (simp add: leaving_region_def build_eval console_build lit_defs cong: let_weak_cong)

lemma leaving_region_facts [chart_facts]:
  "n_states leaving_region = 7" "length (ownedTransitions leaving_region) = 2"
  "loopThreshold leaving_region = 1000" "user_equals leaving_region = no_user_event"
  "ownedStates leaving_region ! 0 = lit_state Chart ''leaving region'' None None None [] (Some 1) None [] []"
  "ownedStates leaving_region ! Suc 0 = lit_state (Pseudo Start) ''start'' (Some 0) None None [0] None None [] []"
  "ownedStates leaving_region ! 2 = lit_state Concurrent ''c'' (Some 0) None None [] None None [3, 5] []"
  "ownedStates leaving_region ! 3 = lit_state Hierarchical ''r1'' (Some 2) None None [] (Some 4) None [] []"
  "ownedStates leaving_region ! 4 = lit_state (Pseudo Start) ''s1'' (Some 3) None None [1] None None [] []"
  "ownedStates leaving_region ! 5 = lit_state Hierarchical ''r2'' (Some 2) None None [] None None [] []"
  "ownedStates leaving_region ! 6 = lit_state Simple ''out'' (Some 0) None None [] None None [] []"
  "ownedTransitions leaving_region ! 0 = lit_trans False None None None [1] [2]"
  "ownedTransitions leaving_region ! Suc 0 = lit_trans False None None None [4, 3, 2] [6]"
  by (simp_all add: leaving_region_literal)

lemma nested_moves_literal:
  "nested_moves =
    \<lparr>ownedStates =
       [lit_state Chart ''nested moves'' None None None [] (Some 1) None [] [],
        lit_state (Pseudo Start) ''start'' (Some 0) None None [0] None None [] [],
        lit_state Hierarchical ''p'' (Some 0) None None [2, 5] (Some 3) None [] [],
        lit_state (Pseudo Start) ''start p'' (Some 2) None None [1] None None [] [],
        lit_state Simple ''a'' (Some 2) None None [3, 4] None None [] [],
        lit_state Simple ''b'' (Some 2) None None [] None None [] [],
        lit_state Final ''end p'' (Some 2) None None [] None None [] [],
        lit_state Simple ''q'' (Some 0) None None [] None None [] []],
     ownedTransitions =
       [lit_trans False None None None [1] [2],
        lit_trans False None None None [3] [4],
        lit_trans False (Some (Event ''down'')) None None [] [5],
        lit_trans False (Some (Event ''up'')) None None [4] [],
        lit_trans False (Some (Event ''end'')) None None [4] [6],
        lit_trans False (Some (Event ''end'')) None None [2] [7]],
     ownedEvents = [Event ''down'', Event ''up'', Event ''end'', Event ''end''],
     stateNames =
       [(''start'', 1), (''p'', 2), (''start p'', 3), (''a'', 4), (''b'', 5), (''end p'', 6),
        (''q'', 7)],
     loopThreshold = 1000, user_equals = no_user_event\<rparr>"
  by (simp add: nested_moves_def build_eval console_build lit_defs cong: let_weak_cong)

lemma nested_moves_facts [chart_facts]:
  "n_states nested_moves = 8" "length (ownedTransitions nested_moves) = 6"
  "loopThreshold nested_moves = 1000" "user_equals nested_moves = no_user_event"
  "ownedStates nested_moves ! 0 = lit_state Chart ''nested moves'' None None None [] (Some 1) None [] []"
  "ownedStates nested_moves ! Suc 0 = lit_state (Pseudo Start) ''start'' (Some 0) None None [0] None None [] []"
  "ownedStates nested_moves ! 2 = lit_state Hierarchical ''p'' (Some 0) None None [2, 5] (Some 3) None [] []"
  "ownedStates nested_moves ! 3 = lit_state (Pseudo Start) ''start p'' (Some 2) None None [1] None None [] []"
  "ownedStates nested_moves ! 4 = lit_state Simple ''a'' (Some 2) None None [3, 4] None None [] []"
  "ownedStates nested_moves ! 5 = lit_state Simple ''b'' (Some 2) None None [] None None [] []"
  "ownedStates nested_moves ! 6 = lit_state Final ''end p'' (Some 2) None None [] None None [] []"
  "ownedStates nested_moves ! 7 = lit_state Simple ''q'' (Some 0) None None [] None None [] []"
  "ownedTransitions nested_moves ! 0 = lit_trans False None None None [1] [2]"
  "ownedTransitions nested_moves ! Suc 0 = lit_trans False None None None [3] [4]"
  "ownedTransitions nested_moves ! 2 = lit_trans False (Some (Event ''down'')) None None [] [5]"
  "ownedTransitions nested_moves ! 3 = lit_trans False (Some (Event ''up'')) None None [4] []"
  "ownedTransitions nested_moves ! 4 = lit_trans False (Some (Event ''end'')) None None [4] [6]"
  "ownedTransitions nested_moves ! 5 = lit_trans False (Some (Event ''end'')) None None [2] [7]"
  by (simp_all add: nested_moves_literal)

lemma junction_cycle_literal:
  "junction_cycle =
    \<lparr>ownedStates =
       [lit_state Chart ''junction cycle'' None None None [] (Some 1) None [] [],
        lit_state (Pseudo Start) ''start'' (Some 0) None None [0] None None [] [],
        lit_state (Pseudo Junction) ''j'' (Some 0) None None [1] None None [] [],
        lit_state (Pseudo Junction) ''k'' (Some 0) None None [2] None None [] []],
     ownedTransitions =
       [lit_trans False None None None [1] [2],
        lit_trans False None None None [2] [3],
        lit_trans False None None None [3] [2]],
     ownedEvents = [],
     stateNames =
       [(''start'', 1), (''j'', 2), (''k'', 3)],
     loopThreshold = 1000, user_equals = no_user_event\<rparr>"
  by (simp add: junction_cycle_def build_eval console_build lit_defs cong: let_weak_cong)

lemma junction_cycle_facts [chart_facts]:
  "n_states junction_cycle = 4" "length (ownedTransitions junction_cycle) = 3"
  "loopThreshold junction_cycle = 1000" "user_equals junction_cycle = no_user_event"
  "ownedStates junction_cycle ! 0 = lit_state Chart ''junction cycle'' None None None [] (Some 1) None [] []"
  "ownedStates junction_cycle ! Suc 0 = lit_state (Pseudo Start) ''start'' (Some 0) None None [0] None None [] []"
  "ownedStates junction_cycle ! 2 = lit_state (Pseudo Junction) ''j'' (Some 0) None None [1] None None [] []"
  "ownedStates junction_cycle ! 3 = lit_state (Pseudo Junction) ''k'' (Some 0) None None [2] None None [] []"
  "ownedTransitions junction_cycle ! 0 = lit_trans False None None None [1] [2]"
  "ownedTransitions junction_cycle ! Suc 0 = lit_trans False None None None [2] [3]"
  "ownedTransitions junction_cycle ! 2 = lit_trans False None None None [3] [2]"
  by (simp_all add: junction_cycle_literal)

lemma unvisited_history_literal:
  "unvisited_history =
    \<lparr>ownedStates =
       [lit_state Chart ''unvisited history'' None None None [] (Some 1) None [] [],
        lit_state (Pseudo Start) ''start'' (Some 0) None None [0] None None [] [],
        lit_state Hierarchical ''p'' (Some 0) None None [4] (Some 3) (Some 4) [] [],
        lit_state (Pseudo Start) ''start p'' (Some 2) None None [1] None None [] [],
        lit_state (Pseudo History) ''history p'' (Some 2) None None [2] None None [] [],
        lit_state Simple ''a'' (Some 2) None None [3] None None [] [],
        lit_state Simple ''b'' (Some 2) None None [] None None [] [],
        lit_state Simple ''q'' (Some 0) None None [5] None None [] []],
     ownedTransitions =
       [lit_trans False None None None [1] [2],
        lit_trans False None None None [3] [5],
        lit_trans False None None None [4] [5],
        lit_trans False (Some (Event ''next'')) None None [5] [6],
        lit_trans False (Some (Event ''leave'')) None None [2] [7],
        lit_trans False (Some (Event ''back'')) None None [7] [2, 4]],
     ownedEvents = [Event ''next'', Event ''leave'', Event ''back''],
     stateNames =
       [(''start'', 1), (''p'', 2), (''start p'', 3), (''history p'', 4), (''a'', 5), (''b'', 6),
        (''q'', 7)],
     loopThreshold = 1000, user_equals = no_user_event\<rparr>"
  by (simp add: unvisited_history_def build_eval console_build lit_defs cong: let_weak_cong)

lemma unvisited_history_facts [chart_facts]:
  "n_states unvisited_history = 8" "length (ownedTransitions unvisited_history) = 6"
  "loopThreshold unvisited_history = 1000" "user_equals unvisited_history = no_user_event"
  "ownedStates unvisited_history ! 0 = lit_state Chart ''unvisited history'' None None None [] (Some 1) None [] []"
  "ownedStates unvisited_history ! Suc 0 = lit_state (Pseudo Start) ''start'' (Some 0) None None [0] None None [] []"
  "ownedStates unvisited_history ! 2 = lit_state Hierarchical ''p'' (Some 0) None None [4] (Some 3) (Some 4) [] []"
  "ownedStates unvisited_history ! 3 = lit_state (Pseudo Start) ''start p'' (Some 2) None None [1] None None [] []"
  "ownedStates unvisited_history ! 4 = lit_state (Pseudo History) ''history p'' (Some 2) None None [2] None None [] []"
  "ownedStates unvisited_history ! 5 = lit_state Simple ''a'' (Some 2) None None [3] None None [] []"
  "ownedStates unvisited_history ! 6 = lit_state Simple ''b'' (Some 2) None None [] None None [] []"
  "ownedStates unvisited_history ! 7 = lit_state Simple ''q'' (Some 0) None None [5] None None [] []"
  "ownedTransitions unvisited_history ! 0 = lit_trans False None None None [1] [2]"
  "ownedTransitions unvisited_history ! Suc 0 = lit_trans False None None None [3] [5]"
  "ownedTransitions unvisited_history ! 2 = lit_trans False None None None [4] [5]"
  "ownedTransitions unvisited_history ! 3 = lit_trans False (Some (Event ''next'')) None None [5] [6]"
  "ownedTransitions unvisited_history ! 4 = lit_trans False (Some (Event ''leave'')) None None [2] [7]"
  "ownedTransitions unvisited_history ! 5 = lit_trans False (Some (Event ''back'')) None None [7] [2, 4]"
  by (simp_all add: unvisited_history_literal)

lemma nested_history_literal:
  "nested_history =
    \<lparr>ownedStates =
       [lit_state Chart ''nested history'' None None None [] (Some 1) None [] [],
        lit_state (Pseudo Start) ''start'' (Some 0) None None [0] None None [] [],
        lit_state Hierarchical ''p'' (Some 0) None None [6] (Some 3) (Some 4) [] [],
        lit_state (Pseudo Start) ''start p'' (Some 2) None None [1] None None [] [],
        lit_state (Pseudo DeepHistory) ''deep history p'' (Some 2) None None [2] None None [] [],
        lit_state Hierarchical ''q'' (Some 2) None None [] (Some 6) None [] [],
        lit_state (Pseudo Start) ''start q'' (Some 5) None None [3] None None [] [],
        lit_state Simple ''a'' (Some 5) None None [4] None None [] [],
        lit_state Simple ''b'' (Some 5) None None [5] None None [] [],
        lit_state Simple ''out'' (Some 0) None None [7] None None [] []],
     ownedTransitions =
       [lit_trans False None None None [1] [2],
        lit_trans False None None None [3] [4],
        lit_trans False None None None [4] [5],
        lit_trans False None None None [6] [7],
        lit_trans False (Some (Event ''next'')) None None [7] [8],
        lit_trans False (Some (Event ''leave'')) None None [8, 5, 2] [9],
        lit_trans False (Some (Event ''exit'')) None None [2] [9],
        lit_trans False (Some (Event ''back'')) None None [9] [2, 4]],
     ownedEvents = [Event ''next'', Event ''leave'', Event ''exit'', Event ''back''],
     stateNames =
       [(''start'', 1), (''p'', 2), (''start p'', 3), (''deep history p'', 4), (''q'', 5),
        (''start q'', 6), (''a'', 7), (''b'', 8), (''out'', 9)],
     loopThreshold = 1000, user_equals = no_user_event\<rparr>"
  by (simp add: nested_history_def build_eval console_build lit_defs cong: let_weak_cong)

lemma nested_history_facts [chart_facts]:
  "n_states nested_history = 10" "length (ownedTransitions nested_history) = 8"
  "loopThreshold nested_history = 1000" "user_equals nested_history = no_user_event"
  "ownedStates nested_history ! 0 = lit_state Chart ''nested history'' None None None [] (Some 1) None [] []"
  "ownedStates nested_history ! Suc 0 = lit_state (Pseudo Start) ''start'' (Some 0) None None [0] None None [] []"
  "ownedStates nested_history ! 2 = lit_state Hierarchical ''p'' (Some 0) None None [6] (Some 3) (Some 4) [] []"
  "ownedStates nested_history ! 3 = lit_state (Pseudo Start) ''start p'' (Some 2) None None [1] None None [] []"
  "ownedStates nested_history ! 4 = lit_state (Pseudo DeepHistory) ''deep history p'' (Some 2) None None [2] None None [] []"
  "ownedStates nested_history ! 5 = lit_state Hierarchical ''q'' (Some 2) None None [] (Some 6) None [] []"
  "ownedStates nested_history ! 6 = lit_state (Pseudo Start) ''start q'' (Some 5) None None [3] None None [] []"
  "ownedStates nested_history ! 7 = lit_state Simple ''a'' (Some 5) None None [4] None None [] []"
  "ownedStates nested_history ! 8 = lit_state Simple ''b'' (Some 5) None None [5] None None [] []"
  "ownedStates nested_history ! 9 = lit_state Simple ''out'' (Some 0) None None [7] None None [] []"
  "ownedTransitions nested_history ! 0 = lit_trans False None None None [1] [2]"
  "ownedTransitions nested_history ! Suc 0 = lit_trans False None None None [3] [4]"
  "ownedTransitions nested_history ! 2 = lit_trans False None None None [4] [5]"
  "ownedTransitions nested_history ! 3 = lit_trans False None None None [6] [7]"
  "ownedTransitions nested_history ! 4 = lit_trans False (Some (Event ''next'')) None None [7] [8]"
  "ownedTransitions nested_history ! 5 = lit_trans False (Some (Event ''leave'')) None None [8, 5, 2] [9]"
  "ownedTransitions nested_history ! 6 = lit_trans False (Some (Event ''exit'')) None None [2] [9]"
  "ownedTransitions nested_history ! 7 = lit_trans False (Some (Event ''back'')) None None [9] [2, 4]"
  by (simp_all add: nested_history_literal)

section \<open>The runs\<close>

definition run_of :: "unit console chart \<Rightarrow> string list \<Rightarrow> (unit, unit console rt) outcome" where
  "run_of ch nms = statements [launch 24 ch, for_each nms (\<lambda>nm. send 24 ch (Some (Event nm)))] (console_rt ())"

lemmas run_of_eval = run_of_def console_defs run_defs chart_facts

text \<open>
  \<open>ConcurrentState::activate\<close> goes on with the runtime data of a state that is no longer active.
\<close>

lemma leaving_region_undefined: "run_of leaving_region [] = Undef"
  by (simp add: run_of_eval cong: stop_congs)

text \<open>A transition from a composite state to its own child: two children are active.\<close>

lemma two_active_children:
  "case run_of nested_moves [''down''] of
     Ret _ r \<Rightarrow> isActive r 4 \<and> isActive r 5 \<and> current_of r 2 = Some 5 | _ \<Rightarrow> False"
  by (simp add: run_of_eval cong: stop_congs)

text \<open>A transition from a child to its own parent: the child is left and stays the current state.\<close>

lemma left_but_current:
  "case run_of nested_moves [''up''] of
     Ret _ r \<Rightarrow> isActive r 2 \<and> \<not> isActive r 4 \<and> current_of r 2 = Some 4 | _ \<Rightarrow> False"
  by (simp add: run_of_eval cong: stop_congs)

text \<open>One event, two transitions: into the final state, and then out of the composite state.\<close>

lemma event_used_twice:
  "case run_of nested_moves [''end''] of
     Ret _ r \<Rightarrow> isActive r 7 \<and> \<not> isActive r 2 | _ \<Rightarrow> False"
  by (simp add: run_of_eval cong: stop_congs)

text \<open>\<open>PseudoState::lookup\<close> does not return on a cycle of junctions, however deep the calls may nest.\<close>

lemma junction_lookup_diverges:
  "lookup n junction_cycle 2 q r = NoReturn \<and> lookup n junction_cycle 3 q r = NoReturn"
proof (induction n)
  case 0
  then show ?case by (simp add: lookup_def vcalls.simps)
next
  case (Suc n)
  then show ?case
    by (simp add: lookup_def vcalls.simps vstep_def PseudoState_lookup_def allowed_def Transition_allowed_def guard_accepts_def
        mbind_def chart_facts)
qed

lemma chain_numeral:
  "calculateHistoryChain (numeral k) ch hist (Some x) r History = hist @ [x]"
  by (simp add: numeral_eq_Suc)

text \<open>
  \<open>State\<close> \<open>b\<close> was left, the history state is entered, and the state \<open>a\<close> is active: nothing was
  recorded, because the history state had not been visited before.
\<close>

lemma history_forgets_first_visit:
  "case run_of unvisited_history [''next'', ''leave'', ''back''] of
     Ret _ r \<Rightarrow> isActive r 5 \<and> \<not> isActive r 6 | _ \<Rightarrow> False"
  "case run_of unvisited_history [''next'', ''leave'', ''back'', ''next'', ''leave'', ''back''] of
     Ret _ r \<Rightarrow> \<not> isActive r 5 \<and> isActive r 6 | _ \<Rightarrow> False"
  by (simp_all add: run_of_eval chain_numeral cong: stop_congs)

lemma deep_chain_numeral:
  "calculateHistoryChain (numeral k) ch hist (Some x) r DeepHistory =
    (if kind_of ch x = Hierarchical then
       (case (case getData r x of None \<Rightarrow> None | Some d \<Rightarrow> currentState d) of
          None \<Rightarrow> hist @ [x]
        | Some sub \<Rightarrow> calculateHistoryChain (pred_numeral k) ch (hist @ [x]) (Some sub) r DeepHistory)
     else hist @ [x])"
  by (simp add: numeral_eq_Suc)

text \<open>
  Left by a transition of the composite state, the deep history brings back \<open>b\<close>.  Left by a
  transition of \<open>b\<close> itself, it does not: the transition deactivates \<open>q\<close> first, whose runtime data is
  gone when the chain below it is recorded, so \<open>q\<close> starts afresh in \<open>a\<close>.
\<close>

lemma deep_history_forgets_inner:
  "case run_of nested_history [''next'', ''exit'', ''back''] of
     Ret _ r \<Rightarrow> isActive r 8 \<and> \<not> isActive r 7 | _ \<Rightarrow> False"
  "case run_of nested_history [''next'', ''leave'', ''back''] of
     Ret _ r \<Rightarrow> isActive r 7 \<and> \<not> isActive r 8 | _ \<Rightarrow> False"
  by (simp_all add: run_of_eval deep_chain_numeral cong: stop_congs)

text \<open>\<open>restoreState\<close> runs the entry action of the parent.\<close>

lemma restore_runs_parent_entry:
  "case restoreState 24 simple_composite (Some 5) (CallerParam 0) (console_rt ()) of
     Ret b r \<Rightarrow> b \<and> cout (rt_env r) = [''[EnableSystem] entered'', ''  [OFF] light is off''] | _ \<Rightarrow> False"
proof -
  have step: "context_path (numeral k) simple_composite s acc =
      (case s of None \<Rightarrow> acc | Some x \<Rightarrow> context_path (pred_numeral k) simple_composite (parent_of simple_composite x) (x # acc))"
    for k s acc by (simp add: numeral_eq_Suc)
  show ?thesis by (simp add: step run_of_eval cong: stop_congs)
qed

text \<open>\<open>Metadata::isRunning\<close> is false as soon as one final state has data, whatever else is active.\<close>

lemma fold_blocked: "(\<And>x. \<not> f x False) \<Longrightarrow> x \<in> set xs \<Longrightarrow> (\<And>b. \<not> f x b) \<Longrightarrow> \<not> fold f xs b"
proof (induction xs arbitrary: b)
  case (Cons y ys)
  have "\<not> fold f ys False" by (induction ys) (simp_all add: Cons.prems(1))
  then show ?case using Cons by auto
qed simp

lemma isRunning_final: "getData r s = Some d \<Longrightarrow> kind_of ch s = Final \<Longrightarrow> \<not> isRunning ch r"
  unfolding isRunning_def getData_def by (rule fold_blocked[OF _ map_of_SomeD]) auto

text \<open>\<open>Metadata::getActiveStates\<close> reports states that are not active.\<close>

lemma getActiveStates_inactive:
  assumes "getData r s = None"
  shows "s \<in> getActiveStates (createRuntimedata s r) \<and> \<not> isActive (createRuntimedata s r) s"
proof -
  have "s \<in> getActiveStates r' \<longleftrightarrow> getData r' s \<noteq> None" for r' :: "'a rt"
    by (auto simp: getActiveStates_def getData_def map_of_eq_None_iff)
  then show ?thesis using assms by (simp add: isActive_def new_runtimedata_def)
qed

text \<open>The transition created last, with a guard, is tried first.\<close>

lemma triggers_order: "transitions (obj triggers 2) = [3, 1, 2]"
  by (simp add: chart_facts)

section \<open>Timers that outlive their states\<close>

text \<open>
  \<open>shutdown\<close> frees the entries of the timers, and the states still point to them: an event that
  leaves such a state afterwards accesses freed memory.
\<close>

lemma shutdown_frees_timers:
  "\<exists>s. sys_reach 12 chart_t3 s \<and> sys_closer s = Closed True \<and>
     dispatch_event 12 chart_t3 (Some (TestEvent 1)) (sys_rt s) = Undef"
proof -
  have "\<exists>s. play 12 chart_t3
      ([Call (StartWith (CallerParam 0)), Shut, Shut, Shut, Shut, Timeout, Timeout] @ [Shut, Work, Shut, Shut, Shut, Shut, Shut, Shut])
      (demo_sys, [], []) = Some (s, [], []) \<and> sys_closer s = Closed True \<and>
     dispatch_event 12 chart_t3 (Some (TestEvent 1)) (sys_rt s) = Undef"
    by (simp add: thread_defs run_defs chart_facts run_input_def cong: stop_congs)
  then show ?thesis by (elim ex_forward conj_forward) (rule sys_log_reach[OF played])
qed

text \<open>A second \<open>start\<close> forgets the timers of the first: they stay valid and fire.\<close>

lemma restart_leaves_timers:
  "\<exists>s. sys_reach 12 chart_t3 s \<and> \<not> invalid (sys_sv s) 0 \<and> 0 \<in> set (m_items (timeoutQueue (sys_sv s))) \<and>
     (\<exists>d. getData (sys_rt s) 1 = Some d \<and> timeoutEvents d = [1])"
proof -
  have "\<exists>s. play 12 chart_t3 [Call (StartWith (CallerParam 0)), Call (StartWith (CallerParam 0))] (demo_sys, [], []) =
     Some (s, [], []) \<and> \<not> invalid (sys_sv s) 0 \<and> 0 \<in> set (m_items (timeoutQueue (sys_sv s))) \<and>
     (\<exists>d. getData (sys_rt s) 1 = Some d \<and> timeoutEvents d = [1])"
    by (simp add: thread_defs run_defs chart_facts run_input_def cong: stop_congs)
  then show ?thesis by (elim ex_forward conj_forward) (rule sys_log_reach[OF played])
qed

end
