(* ===== verification/Witness_Charts.thy ===== *)
theory Witness_Charts
  imports Concurrency History Divergences
begin

text \<open>
  Charts the properties of the root theory are applied to: a join behind two regions, and the assumptions of
  theory \<open>Runs\<close> for the chart \<open>unvisited_history\<close>.
\<close>

section \<open>Two regions that lead into a join\<close>

definition two_into_join :: "unit console chart" where
  "two_into_join = build_chart ''two into join''
    [start_state ''start'' 0,
     concurrent_state ''c'' 0 None None None,
     hierarchical_state ''r1'' 2 None None None,
     start_state ''s1'' 3,
     simple_state ''a'' 3 None None None,
     hierarchical_state ''r2'' 2 None None None,
     start_state ''s2'' 6,
     simple_state ''b'' 6 None None None,
     new_obj ''join'' 0 (CPseudo pseudo_type.Join),
     new_obj ''end'' 0 CFinal,
     tr 1 2 None None None,
     tr 4 5 None None None,
     tr 7 8 None None None,
     tr 5 9 (Some (Event ''go'')) None None,
     tr 8 9 (Some (Event ''go'')) None None,
     tr 9 10 None None None]"
lemma two_into_join_literal:
  "two_into_join =
    \<lparr>ownedStates =
       [lit_state Chart ''two into join'' None None None [] (Some 1) None [] [],
        lit_state (Pseudo Start) ''start'' (Some 0) None None [0] None None [] [],
        lit_state Concurrent ''c'' (Some 0) None None [] None None [3, 6] [],
        lit_state Hierarchical ''r1'' (Some 2) None None [] (Some 4) None [] [],
        lit_state (Pseudo Start) ''s1'' (Some 3) None None [1] None None [] [],
        lit_state Simple ''a'' (Some 3) None None [3] None None [] [],
        lit_state Hierarchical ''r2'' (Some 2) None None [] (Some 7) None [] [],
        lit_state (Pseudo Start) ''s2'' (Some 6) None None [2] None None [] [],
        lit_state Simple ''b'' (Some 6) None None [4] None None [] [],
        lit_state (Pseudo pseudo_type.Join) ''join'' (Some 0) None None [5] None None [] [3, 4],
        lit_state Final ''end'' (Some 0) None None [] None None [] []],
     ownedTransitions =
       [lit_trans False None None None [1] [2],
        lit_trans False None None None [4] [5],
        lit_trans False None None None [7] [8],
        lit_trans False (Some (Event ''go'')) None None [5, 3, 2] [9],
        lit_trans False (Some (Event ''go'')) None None [8, 6, 2] [9],
        lit_trans False None None None [9] [10]],
     ownedEvents = [Event ''go'', Event ''go''],
     stateNames =
       [(''start'', 1), (''c'', 2), (''r1'', 3), (''s1'', 4), (''a'', 5), (''r2'', 6), (''s2'',
        7), (''b'', 8), (''join'', 9), (''end'', 10)],
     loopThreshold = 1000, user_equals = no_user_event\<rparr>"
  by (simp add: two_into_join_def build_eval console_build lit_defs cong: let_weak_cong)

lemma two_into_join_facts [chart_facts]:
  "n_states two_into_join = 11" "length (ownedTransitions two_into_join) = 6"
  "loopThreshold two_into_join = 1000" "user_equals two_into_join = no_user_event"
  "ownedStates two_into_join ! 0 = lit_state Chart ''two into join'' None None None [] (Some 1) None [] []"
  "ownedStates two_into_join ! Suc 0 = lit_state (Pseudo Start) ''start'' (Some 0) None None [0] None None [] []"
  "ownedStates two_into_join ! 2 = lit_state Concurrent ''c'' (Some 0) None None [] None None [3, 6] []"
  "ownedStates two_into_join ! 3 = lit_state Hierarchical ''r1'' (Some 2) None None [] (Some 4) None [] []"
  "ownedStates two_into_join ! 4 = lit_state (Pseudo Start) ''s1'' (Some 3) None None [1] None None [] []"
  "ownedStates two_into_join ! 5 = lit_state Simple ''a'' (Some 3) None None [3] None None [] []"
  "ownedStates two_into_join ! 6 = lit_state Hierarchical ''r2'' (Some 2) None None [] (Some 7) None [] []"
  "ownedStates two_into_join ! 7 = lit_state (Pseudo Start) ''s2'' (Some 6) None None [2] None None [] []"
  "ownedStates two_into_join ! 8 = lit_state Simple ''b'' (Some 6) None None [4] None None [] []"
  "ownedStates two_into_join ! 9 = lit_state (Pseudo pseudo_type.Join) ''join'' (Some 0) None None [5] None None [] [3, 4]"
  "ownedStates two_into_join ! 10 = lit_state Final ''end'' (Some 0) None None [] None None [] []"
  "ownedTransitions two_into_join ! 0 = lit_trans False None None None [1] [2]"
  "ownedTransitions two_into_join ! Suc 0 = lit_trans False None None None [4] [5]"
  "ownedTransitions two_into_join ! 2 = lit_trans False None None None [7] [8]"
  "ownedTransitions two_into_join ! 3 = lit_trans False (Some (Event ''go'')) None None [5, 3, 2] [9]"
  "ownedTransitions two_into_join ! 4 = lit_trans False (Some (Event ''go'')) None None [8, 6, 2] [9]"
  "ownedTransitions two_into_join ! 5 = lit_trans False None None None [9] [10]"
  by (simp_all add: two_into_join_literal)


lemma built_two_into_join: "built two_into_join"
  unfolding two_into_join_def console_build by (rule built_build_with) (rule legal_rules | simp)+

section \<open>A history state\<close>

lemma built_unvisited: "built unvisited_history"
  unfolding unvisited_history_def console_build by (rule built_build_with) (rule legal_rules | simp)+

lemma sequential_unvisited: "sequential unvisited_history"
  using built_wf[OF built_unvisited]
  by (simp add: sequential_def benign_chart_def chart_facts all_less all_conj_distrib)

lemma regular_unvisited: "regular unvisited_history"
  by (simp add: regular_def chart_facts all_less)

end
