(* ===== verification/Spec2Isabelle.thy ===== *)
theory Spec2Isabelle
  imports Completion Timers Machines Witness_Charts
begin

text \<open>
  A verification development for CppStatecharts, a C++ library of UML statecharts: a client builds a
  chart of states and transitions through a factory (\<open>Statechart\<close>), keeps the dynamic data of a run in
  a \<open>Metadata\<close> object, and calls \<open>start\<close>, \<open>dispatch\<close> and \<open>restoreState\<close> on it, directly or through
  one worker thread; timeouts are entries of a delay queue, which a second thread empties.

  \<^bold>\<open>The theories and the code.\<close>
  \<^item> \<open>Prelude\<close>: programs on a state, with exceptions, with undefined behaviour (an access to freed
    memory) and with calls that do not return as outcomes; their loops; weakest preconditions; the
    order of definedness used for fuel.
  \<^item> \<open>Events\<close> (\<open>Event\<close>, \<open>TimeoutEvent\<close>), \<open>Delay_Queue\<close> (\<open>DelayQueue.hpp\<close>).
  \<^item> \<open>Runtime\<close>: the mutable state - the data of the states, each object with an address, so that a
    pointer kept over a deletion is seen to dangle (\<open>Metadata\<close>, \<open>StateRuntimedata\<close>); the queue entries,
    the pending list and the flags of a statechart (\<open>EventQueueEntry\<close>, \<open>Statechart\<close>); the client's
    world \<open>'e\<close>.  \<open>Metadata\<close>: the operations on it, \<open>enqueueTimeout\<close> and \<open>cancelTimeout\<close>.
  \<^item> \<open>Chart\<close>: what the factory builds and how (\<open>Statechart::create\<close>, \<open>createTransition\<close>, the constructors
    of all state classes, \<open>Transition::calculateStateSet\<close>).  A chart is a record of tables; a state
    is its index, in order of creation, and state 0 is the statechart itself.
  \<^item> \<open>States\<close>: \<open>activate\<close>, \<open>deactivate\<close>, \<open>dispatch\<close>, \<open>lookup\<close>, \<open>allowed\<close> and \<open>execute\<close> of every class
    (\<open>State.cpp\<close>, \<open>Transition.cpp\<close>, \<open>InternalTransition.cpp\<close>, \<open>PseudoState.cpp\<close>,
    \<open>HierarchicalState.cpp\<close>, \<open>ConcurrentState.cpp\<close>, \<open>Statechart::dispatch\<close>).  Virtual calls go through
    a table; \<open>vcalls n\<close> is the table that allows \<open>n\<close> nested calls.  \<open>Statechart\<close>: \<open>start\<close>,
    \<open>restoreState\<close> and the overloads with a local parameter.
  \<^item> \<open>Thread_Pool\<close> (\<open>ThreadPool.cpp\<close>): one step per critical section of a worker, of \<open>awaitTermination\<close>
    and of the destructor.  \<open>Async\<close>: the whole program as a step relation - the client's calls, the
    asynchronous calls, the worker (\<open>EventQueueEntry::run\<close>, its unlocked tests and its dispatch apart),
    the timeout thread and \<open>shutdown\<close> interleaved in any order, time passing in between.
  \<^item> \<open>Test_Charts\<close> (\<open>tests/TestCharts.cpp\<close>), \<open>Console\<close> and \<open>Example_Flat\<close>, \<open>Example_Devices\<close>,
    \<open>Example_Nested\<close> (\<open>doc/examples\<close>): the charts of the tests and of the fifteen example programs, built
    by the modelled factory, and what the programs print.

  \<^bold>\<open>The lemmas.\<close>
  \<^item> \<open>Structure\<close>, \<open>Building\<close>: the invariant of a chart under construction and its preservation by every
    factory call.  \<open>Test_Built\<close>: the test charts are such charts, and what their tables are.
  \<^item> \<open>Fuel\<close>: more nesting changes no result that is there.  \<open>Effects\<close>: every elementary operation as one
    functional step.  \<open>Invariants\<close>, \<open>Config\<close>, \<open>Leaving\<close>, \<open>Entering\<close>, \<open>Safety\<close>: the invariant of a run in
    two layers - the data is well-typed and its timers are alive; the active states form a
    configuration - and, by induction on the nesting, its preservation by every virtual call, with
    the nesting each call needs.  \<open>Runs\<close>: by all calls of the client, and so in every reachable state.
    \<open>Firing\<close>: which transition an event fires, as a search from the innermost active state outwards, and
    the configuration after it.  \<open>History\<close>: what a history state records and restores.  \<open>Concurrency\<close>:
    joins, and the dispatch to regions.  \<open>Completion\<close>: the loop over trigger-less transitions.
    \<open>Timers\<close>: entering and leaving a state.
  \<^item> \<open>Service_Laws\<close> (locales \<open>service_law\<close>, \<open>service_invariant\<close>), \<open>Async\<close> (locale \<open>async_law\<close>): a law of the
    timers that every elementary operation keeps holds in every reachable state; \<open>Timer_Service\<close> and
    \<open>Scheduling\<close> interpret them for the order of the queue, the numbers of the entries and their
    deadlines.  \<open>Delay_Queue\<close> has the locale \<open>timed_queue\<close>, \<open>Machines\<close> the locale \<open>machine\<close> for charts
    that behave like a function on pairs of a state and a parameter.
  \<^item> \<open>Shutdown\<close>: the program simulates the pool, and what a finished \<open>shutdown\<close> means.
  \<^item> \<open>Evaluation\<close>, \<open>Test_Runs\<close>, \<open>Test_Threads\<close>: runs and schedules computed in the kernel.
    \<open>Divergences\<close>: small charts on which the code does not do what its documentation says.
    \<open>Witness_Charts\<close>: two more charts the properties are applied to.

  \<^bold>\<open>Bounds.\<close>  The nesting of virtual calls is a parameter \<open>n\<close>; a call that would nest deeper is the outcome
  \<open>NoReturn\<close>, and C6 shows that \<open>depth ch R\<close> = 2 * states + R + 2 is enough, \<open>R\<close> the length of the longest
  chain of pseudo-states.  The safety properties hold for every \<open>n\<close>.  Loops over lists are
  structural; the loop of \<open>Statechart::dispatch\<close> ends because of its own limit.  The entry counter is a
  64-bit word, times are unbounded integers (milliseconds), and sizes are natural numbers.

  \<^bold>\<open>Assumptions.\<close>  The properties of runs are about charts without concurrent states whose callbacks return
  or throw without calling back into the library (\<open>sequential\<close>); C1 to C4, C6, C11 and
  C14 also exclude forks and transitions between a state and its own ancestor or descendant (\<open>regular\<close>):
  theory \<open>Divergences\<close> shows that configurations break there.  C15 and C16 are about concurrent states and
  joins on any chart; there is no invariant for the configurations of concurrent states.  The
  properties of the threads hold for all well-formed charts with such callbacks.

  \<^bold>\<open>Not modelled.\<close>  A dispatch is one step for the other threads (it holds the mutex of the data), as is
  \<open>dispatchAsynchron\<close>; so the windows between the sections of the latter are not seen.  The random
  identifiers of timeout events are arguments.  Allocation failures, destruction of charts while they
  run, and the texts of the debug output (\<open>toString\<close>) are left out.
\<close>

section \<open>Running a chart\<close>

text \<open>
  Property C1.  State configurations: on a chart without concurrent states whose callbacks do not
  call back into the library, without forks and without transitions between a state and its own ancestor or
  descendant, after any sequence of calls of \<open>start\<close>, \<open>dispatch\<close> and \<open>restoreState\<close>, returning or
  throwing, an active state has an active parent whose current state it is, and no other child of
  that parent is active (history states apart).
\<close>

theorem reachable_configuration:
  assumes "sequential ch" "regular ch" "reachable n ch r"
    and "isActive r s" "\<not> is_history (kind_of ch s)" "0 < s"
  shows "\<exists>p. parent_of ch s = Some p \<and> isActive r p \<and> current_of r p = Some s \<and>
    (\<forall>x. parent_of ch x = Some p \<and> isActive r x \<and> \<not> is_history (kind_of ch x) \<longrightarrow> x = s)"
proof -
  have S: "assured True True ch (\<lambda>_. 0) 0" using assms(1,2) by (simp add: assured_def)
  have I: "steady True ch r" by (rule reachable_steady[OF S _ assms(3)]) simp
  then have c: "config ch r" using assms(4) by (auto simp: steady_def stopped_def isActive_def sound_def)
  note t = steady_tidy[OF I] and wf = assuredD(1)[OF S]
  obtain p where p: "parent_of ch s = Some p" "isActive r p" "current_of r p = Some s"
    using c assms(4-6) by (auto simp: config_def)
  have "x = s" if x: "parent_of ch x = Some p" "isActive r x" "\<not> is_history (kind_of ch x)" for x
    using config_exclusive[OF c x(2) assms(4) x(1) p(1) x(3) assms(5) _ assms(6)]
      wf_parent(3)[OF wf tidy_active[OF t x(2)] x(1)] by blast
  then show ?thesis using p by blast
qed

theorem reachable_configuration_witness:
  "\<exists>r. start 24 chart_h4 test_rt = Ret True r \<and> isActive r 1 \<and> current_of r 1 = Some 2 \<and>
     \<not> isActive r 3 \<and> \<not> isActive r 6"
proof -
  obtain r where r: "start 24 chart_h4 test_rt = Ret True r" "isActive r 2" "current_of r 1 = Some 2"
    by (rule start_h4)
  from reachable_configuration[OF sequential_h4 regular_h4 reachable_test[OF r(1)] r(2)]
  have "isActive r 1" "\<forall>x. parent_of chart_h4 x = Some 1 \<and> isActive r x \<and> \<not> is_history (kind_of chart_h4 x) \<longrightarrow> x = 2"
    by (simp_all add: chart_facts)
  then have "isActive r 1" "\<not> isActive r 3" "\<not> isActive r 6"
    by (auto dest: spec[of _ 3] spec[of _ 6] simp: chart_facts)
  then show ?thesis using r by blast
qed

text \<open>
  Property C2.  The active states are nested: on the charts of the first property, of two active states (history
  states apart) one contains the other, in every state the calls of the client can lead to.
\<close>

theorem active_states_nested:
  assumes "sequential ch" "regular ch" "reachable n ch r"
    and "isActive r x" "isActive r y" "\<not> is_history (kind_of ch x)" "\<not> is_history (kind_of ch y)"
  shows "under ch x y \<or> under ch y x"
proof -
  have S: "assured True True ch (\<lambda>_. 0) 0" using assms(1,2) by (simp add: assured_def)
  have "steady True ch r" by (rule reachable_steady[OF S _ assms(3)]) simp
  then have "sound True ch r" using assms(4) by (auto simp: steady_def stopped_def isActive_def)
  then show ?thesis
    using config_chain[OF assuredD(1)[OF S]] assms(4-7) by (auto simp: sound_def)
qed

theorem active_states_nested_witness:
  "\<exists>r. start 24 chart_h4 test_rt = Ret True r \<and> isActive r 2 \<and> \<not> isActive r 3 \<and> \<not> isActive r 5"
proof -
  obtain r where r: "start 24 chart_h4 test_rt = Ret True r" "isActive r 2" by (rule start_h4)
  have wf: "wf_tree chart_h4" using sequential_h4 by (simp add: sequential_def wf_chart_def wf_core_def)
  note le = under_le[OF _ wf] and up = under_child_up[of chart_h4]
  have no: "\<not> under chart_h4 2 3" "\<not> under chart_h4 3 2" "\<not> under chart_h4 2 5" "\<not> under chart_h4 5 2"
    using le[of 2 1] le[of 3 2] le[of 2 0] le[of 5 2] up[of 2 3 1] up[of 2 5 0] by (auto simp: chart_facts)
  note nested = active_states_nested[OF sequential_h4 regular_h4 reachable_test[OF r(1)] r(2)]
  have "\<not> isActive r 3" "\<not> isActive r 5"
    using nested[of 3] nested[of 5] no by (auto simp: chart_facts)
  then show ?thesis using r by blast
qed

text \<open>
  Property C3.  Innermost first: on a chart of the kind of the first property, when the current states
  form a path from the statechart down to a simple state, \<open>Statechart::dispatch\<close> fires the first enabled
  transition (trigger matches, guard accepts, the pseudo-states let it pass) of the innermost
  state of the path that has one - for a composite state those without trigger count only once its
  final state is current -, or none, and then runs to completion.  The hypothesis \<open>settled\<close> says
  that the transition does not complete a composite state of the path that stays active.
\<close>

theorem dispatch_innermost_first:
  assumes "sequential ch" "regular ch" "ranked ch rk R" "reachable n ch r"
    and "active_path ch r 0 xs" "n_states ch < k" "R < k" "k + length xs \<le> m"
    and "\<And>r'. select ch (vcalls k ch) ev p xs r = Ret True r' \<Longrightarrow> settled ch xs r'"
  shows "dispatch (Suc m) ch 0 ev p r =
    mbind (select ch (vcalls k ch) ev p xs) (\<lambda>rc.
      mbind (completion_loop ch (vcalls m ch) 0 p 0) (\<lambda>_. mret rc)) r"
proof -
  have S: "assured False True ch rk R" "assured True True ch rk R" using assms(1-3) by (simp_all add: assured_def)
  have q: "isActive r 0" "current_of r 0 = Some (hd xs)"
    using assms(5) by (cases "(ch, r, 0 :: sid, xs)" rule: active_path.cases; simp)+
  then have I: "sound True ch r"
    using reachable_steady[OF S(2) _ assms(4)] by (auto simp: steady_def stopped_def isActive_def)
  note path = dispatch_path[OF S(1) assms(6,7) I assms(5,8,9)]
  have "kind_of ch 0 = Chart"
    using assuredD(1)[OF S(1)] wf_kind_Chart by (auto simp: wf_tree_def)
  then show ?thesis
    using path q(2)
    by (auto simp: dispatch_def vstep_def call_dispatch_def Statechart_dispatch_def current_of_def mbind_def
        split: option.splits)
qed

theorem dispatch_innermost_first_witness:
  "\<exists>r. start 24 chart_h4 test_rt = Ret True r \<and>
     dispatch 13 chart_h4 0 (Some (TestEvent 2)) (CallerParam 0) r =
     mbind (fire chart_h4 (vcalls 10 chart_h4) (CallerParam 0) 5) (\<lambda>rc.
       mbind (completion_loop chart_h4 (vcalls 12 chart_h4) 0 (CallerParam 0) 0) (\<lambda>_. mret rc)) r"
proof -
  obtain r where r: "start 24 chart_h4 test_rt = Ret True r" "isActive r 2" "current_of r 1 = Some 2"
    by (rule start_h4)
  let ?V = "vcalls 10 chart_h4" and ?ev = "Some (TestEvent 2)" and ?p = "CallerParam 0"
  have S: "assured True True chart_h4 (\<lambda>_. 0) 0" using sequential_h4 regular_h4 by (simp add: assured_def)
  have I: "sound True chart_h4 r"
    using reachable_steady[OF S _ reachable_test[OF r(1)]] r(2) by (auto simp: steady_def stopped_def isActive_def)
  have "isActive r 1 \<and> current_of r 0 = Some 1" "isActive r 0"
    using config_ancestors[OF assuredD(1)[OF S] sound_tidy[OF I] sound_config[OF I], of _ 2] r(2)
      under.step[of chart_h4 2 1 1] under.step[of chart_h4 2 1 0] under.step[of chart_h4 1 0 0]
    by (auto simp: chart_facts under.refl)
  then have path: "active_path chart_h4 r 0 [1, 2]" "onpath chart_h4 2 r"
    using r(3) by (simp_all add: chart_facts onpath_def)
  have en: "can_fire chart_h4 ?V ?ev ?p r 5"
    by (simp add: can_fire_def triggered_def allowed_def Transition_allowed_def guard_accepts_def chart_facts
        trigger_equals_def TestEvent_def TestEvent_equals_def)
  have sel: "select chart_h4 ?V ?ev ?p [1, 2] r = fire chart_h4 ?V ?p 5 r"
    using en r(3) by (simp add: select_def candidates_def chart_facts)
  have al: "allowed chart_h4 ?V 5 ?p r = Ret True r"
    by (simp add: allowed_def Transition_allowed_def guard_accepts_def chart_facts)
  have "settled chart_h4 [1, 2] r'" if "select chart_h4 ?V ?ev ?p [1, 2] r = Ret True r'" for r'
  proof -
    have "execute chart_h4 ?V 5 ?ev ?p r = Ret True r'"
      using that sel en execute_can_fire[OF al] by simp
    moreover have "wp True False (execute chart_h4 ?V 5 ?ev ?p)
        (\<lambda>b r'. if b then arrived True chart_h4 5 r' else r' = r) (\<lambda>_ r'. sound True chart_h4 r') r"
      using wp_Transition_execute[OF S deact_spec_vcalls[OF S] act_spec_vcalls[OF S] look_spec_vcalls[OF S],
          of 2 5 10 r ?ev ?p] I path(2) by (simp add: chart_facts execute_def)
    ultimately have "arrived True chart_h4 5 r'" by (auto dest: wp_conj_Ret)
    then have "current_of r' 1 = Some 3"
      using arrived_configuration(1)[OF S, of 2 5 r' 3] by (simp add: chart_facts under.refl)
    then show ?thesis by (simp add: settled_def chart_facts)
  qed
  from dispatch_innermost_first[OF sequential_h4 regular_h4 ranked_h4 reachable_test[OF r(1)] path(1),
      of 10 12 ?ev ?p, OF _ _ _ this]
  show ?thesis using r(1) sel by (intro exI[of _ r]) (simp add: chart_facts mbind_def)
qed

text \<open>
  Property C4.  What a transition does to the configuration: on a chart of the kind of the first property,
  executing a transition of an active state, when it answers false, changes nothing; when it
  answers true, its target and all ancestors of the target are active and each is the current one
  of its parent, and no state below the outermost state it leaves is active (history states apart),
  unless it leads back to its source.
\<close>

theorem transition_configuration:
  assumes "sequential ch" "regular ch" "reachable n ch r"
    and "isActive r s" "\<not> is_history (kind_of ch s)" "0 < s"
    and "t \<in> set (transitions (obj ch s))" "\<not> tr_internal (trans ch t)"
    and "execute ch (vcalls k ch) t ev p r = Ret b r'"
  shows "(\<not> b \<longrightarrow> r' = r) \<and>
    (b \<and> \<not> is_history (kind_of ch (last (tr_activate (trans ch t)))) \<longrightarrow>
      (\<forall>x. under ch x (last (tr_activate (trans ch t))) \<longrightarrow>
        isActive r' x \<and> (\<forall>y. parent_of ch x = Some y \<longrightarrow> current_of r' y = Some x)) \<and>
      (s \<noteq> last (tr_activate (trans ch t)) \<longrightarrow>
        (\<forall>x. under ch (last (tr_deactivate (trans ch t))) x \<and> \<not> is_history (kind_of ch x) \<longrightarrow> \<not> isActive r' x)))"
proof -
  have S: "assured True True ch (\<lambda>_. 0) 0" using assms(1,2) by (simp add: assured_def)
  have "steady True ch r" by (rule reachable_steady[OF S _ assms(3)]) simp
  then have I: "sound True ch r" using assms(4) by (auto simp: steady_def stopped_def isActive_def)
  have s: "s < n_states ch" by (rule tidy_active[OF sound_tidy[OF I] assms(4)])
  have on: "onpath ch s r" using config_onpath[OF sound_config[OF I] assms(4-6)] by simp
  have "wp True False (execute ch (vcalls k ch) t ev p)
      (\<lambda>b r'. if b then arrived True ch t r' else r' = r) (\<lambda>_ r'. sound True ch r') r"
    using wp_Transition_execute[OF S deact_spec_vcalls[OF S] act_spec_vcalls[OF S] look_spec_vcalls[OF S] assms(6) s
        assms(7,8) _ I on] assms(8) by (simp add: execute_def)
  then have "if b then arrived True ch t r' else r' = r" by (rule wp_conj_Ret) (rule assms(9))
  then show ?thesis
    using arrived_configuration[OF S assms(6) s assms(7,8)] by auto
qed

theorem transition_configuration_witness:
  "\<exists>r r'. start 24 chart_h4 test_rt = Ret True r \<and>
     execute chart_h4 (vcalls 24 chart_h4) 5 (Some (TestEvent 2)) (CallerParam 0) r = Ret True r' \<and>
     isActive r' 1 \<and> isActive r' 3 \<and> current_of r' 1 = Some 3 \<and> \<not> isActive r' 2"
proof -
  have "case start 24 chart_h4 test_rt of
      Ret b r \<Rightarrow> (case execute chart_h4 (vcalls 24 chart_h4) 5 (Some (TestEvent 2)) (CallerParam 0) r of
        Ret b' r' \<Rightarrow> b \<and> b' \<and> isActive r 2 | _ \<Rightarrow> False)
    | _ \<Rightarrow> False"
    by (simp add: test_rt_def run_defs chart_facts cong: stop_congs)
  then obtain r r' where r: "start 24 chart_h4 test_rt = Ret True r" "isActive r 2"
    "execute chart_h4 (vcalls 24 chart_h4) 5 (Some (TestEvent 2)) (CallerParam 0) r = Ret True r'"
    by (auto split: outcome.splits)
  from transition_configuration[OF sequential_h4 regular_h4 reachable_test[OF r(1)] r(2) _ _ _ _ r(3)]
  have c: "\<forall>x. under chart_h4 x 3 \<longrightarrow> isActive r' x \<and> (\<forall>y. parent_of chart_h4 x = Some y \<longrightarrow> current_of r' y = Some x)"
      "\<not> isActive r' 2"
    by (simp_all add: chart_facts under.refl)
  moreover have "under chart_h4 1 3" by (rule under.step[of _ _ 1]) (simp_all add: chart_facts under.refl)
  ultimately have "isActive r' 1" "isActive r' 3" "current_of r' 1 = Some 3" by (auto simp: chart_facts under.refl)
  then show ?thesis using r c(2) by blast
qed

text \<open>
  Property C5.  No dangling pointer: on a chart without concurrent states whose callbacks do not
  call back into the library, no sequence of calls of the client - \<open>start\<close>, \<open>dispatch\<close> and
  \<open>restoreState\<close>, returning or throwing - leads to a state in which a further call accesses freed
  runtime data or a freed timer, and every timer a state remembers is a live entry of that state.
\<close>

theorem reachable_no_dangling_pointer:
  assumes "sequential ch" "reachable n ch r"
  shows "run_input n ch i r \<noteq> Undef \<and>
    (\<forall>s d. getData r s = Some d \<longrightarrow>
       (\<forall>e \<in> set (timeoutEvents d). entry_alive (rt_sv r) e \<and> e_state (entries (rt_sv r) ! e) = s))"
proof -
  have S: "assured True False ch (\<lambda>_. 0) 0" using assms(1) by (simp add: assured_def)
  have I: "steady False ch r" by (rule reachable_steady[OF S _ assms(2)]) simp
  have "run_input n ch i r \<noteq> Undef" by (rule wp_safe[OF wp_run_input[OF S _ I]]) simp
  then show ?thesis
    using tidyD(4)[OF steady_tidy[OF I]] by (auto simp: timers_of_def entry_alive_def)
qed

theorem reachable_no_dangling_pointer_witness:
  "\<exists>r. start 12 chart_t3 test_rt = Ret True r \<and> dispatch_event 12 chart_t3 None r \<noteq> Undef \<and>
     entry_alive (rt_sv r) 0 \<and> e_state (entries (rt_sv r) ! 0) = 1"
proof -
  obtain r where r: "start 12 chart_t3 test_rt = Ret True r"
    and d: "getData r 1 = Some \<lparr>rd_addr = 2, currentTime = 0, rd_active = True, currentState = None,
      stateset = [], timeoutEvents = [0]\<rparr>"
    by (rule start_t3)
  from reachable_no_dangling_pointer[OF sequential_t3 reachable_test[OF r], of "Dispatch None"]
  show ?thesis using r d by (auto simp: run_input_def)
qed

text \<open>
  Property C6.  Every call returns or throws: on the charts of the first property, if the
  pseudo-states a lookup runs through do not form a cycle, calls nest at most \<open>depth ch R\<close> deep, for any number of states, events and
  callbacks; a larger bound on the nesting gives the same result.
\<close>

theorem calls_return:
  assumes "sequential ch" "regular ch" "ranked ch rk R" "reachable n ch r" "depth ch R \<le> n"
  shows "run_input n ch i r \<noteq> NoReturn \<and> (\<forall>m \<ge> n. run_input m ch i r = run_input n ch i r)"
proof -
  have S: "assured False True ch rk R" using assms(1-3) by (simp add: assured_def)
  have I: "steady True ch r" by (rule reachable_steady[OF S _ assms(4)]) (use assms(5) in simp)
  have "run_input n ch i r \<noteq> NoReturn"
    by (rule wp_returns[OF wp_run_input[OF S _ I]]) (use assms(5) in simp)
  then show ?thesis using run_input_mono by blast
qed

theorem calls_return_witness:
  "\<exists>r. start 24 chart_h4 test_rt = Ret True r \<and>
     dispatch_event 24 chart_h4 (Some (TestEvent 1)) r \<noteq> NoReturn \<and>
     dispatch_event 1000 chart_h4 (Some (TestEvent 1)) r = dispatch_event 24 chart_h4 (Some (TestEvent 1)) r"
proof -
  obtain r where r: "start 24 chart_h4 test_rt = Ret True r" by (rule start_h4)
  have "depth chart_h4 1 \<le> 24" by (simp add: depth_def chart_facts)
  note R = calls_return[OF sequential_h4 regular_h4 ranked_h4 reachable_test[OF r] this,
      of "Dispatch (Some (TestEvent 1))", unfolded run_input_def input.case]
  have "dispatch_event 1000 chart_h4 (Some (TestEvent 1)) r = dispatch_event 24 chart_h4 (Some (TestEvent 1)) r"
    by (rule R[THEN conjunct2, rule_format]) simp
  then show ?thesis using r R[THEN conjunct1] by blast
qed

text \<open>
  Property C7.  Run to completion: the loop of \<open>Statechart::dispatch\<close> returns exactly when fewer
  trigger-less transitions than the threshold fire one after the other and then none does; that is
  the state it leaves.
\<close>

theorem dispatch_runs_to_completion:
  "completion_loop ch V s p 0 r = Ret () r' \<longleftrightarrow>
    (\<exists>k < max 1 (loopThreshold ch). \<exists>r1. fires ch V s p k r r1 \<and> idle V s p r1 r')"
proof (cases "loopThreshold ch = 0")
  case True
  then have "completion_loop ch V s p 0 r = Ret () r' \<longleftrightarrow> idle V s p r r'"
    by (subst completion_loop_unfold) (auto simp: idle_def split: option.split outcome.split)
  then show ?thesis using True by simp
next
  case False
  then have "max 1 (loopThreshold ch) = loopThreshold ch" by simp
  then show ?thesis using completion_returns_iff[of 0 ch V s p r r'] False by simp
qed

text \<open>
  Property C8.  An infinite loop is found: when as many trigger-less transitions fire one after the other as
  the threshold allows, the dispatch throws \<open>InfiniteLoopException\<close>, in the state they left.
\<close>

theorem completion_limit:
  assumes "fires ch V s p (max 1 (loopThreshold ch)) r r'"
  shows "completion_loop ch V s p 0 r = Exn (InfiniteLoopException (infinite_loop_text ch s)) r'"
proof (cases "loopThreshold ch")
  case 0
  then show ?thesis using assms by (subst completion_loop_unfold) (auto simp: fires_Suc)
next
  case (Suc k)
  then show ?thesis using completion_throws[of ch V s p k r r' 0] assms by simp
qed

theorem completion_limit_witness:
  "completion_loop infinite_loop (vcalls 0 infinite_loop\<lparr>v_dispatch := \<lambda>_ _ _. mret True\<rparr>) 0 (CallerParam 0) 0
     (rest 2 () 0 1 0 2 0 3 [] (new_service 0)) =
   Exn (InfiniteLoopException (infinite_loop_text infinite_loop 0)) (rest 2 () 0 1 0 2 0 3 [] (new_service 0))"
proof -
  let ?V = "vcalls 0 infinite_loop\<lparr>v_dispatch := \<lambda>_ _ _. mret True\<rparr>" and ?r = "rest 2 () 0 1 0 2 0 3 [] (new_service 0)"
  have "current_of ?r 0 = Some 2" by (simp add: current_of_def getData_def rest_def)
  then have "fires infinite_loop ?V 0 (CallerParam 0) k ?r ?r" for k
    by (induction k) (auto simp: fires_Suc)
  then show ?thesis by (rule completion_limit)
qed





text \<open>
  Property C11.  \<open>restoreState\<close> on a stopped statechart of the kind of the first property, when it
  returns, answers true, and then the requested state and all its ancestors are active and each is the current one of its parent.
\<close>

theorem restoreState_configuration:
  assumes "sequential ch" "regular ch" "reachable n ch r" "\<not> isActive r 0" "s < n_states ch"
    and "\<not> is_history (kind_of ch s)" "restoreState n ch (Some s) p r = Ret b r'"
  shows "b \<and> (\<forall>x. under ch x s \<longrightarrow> isActive r' x) \<and>
    (\<forall>x y. under ch x s \<and> parent_of ch x = Some y \<longrightarrow> current_of r' y = Some x)"
proof -
  have S: "assured True True ch (\<lambda>_. 0) 0" using assms(1,2) by (simp add: assured_def)
  have I: "steady True ch r" by (rule reachable_steady[OF S _ assms(3)]) simp
  have b: "b" using assms(4,7) by (auto simp: restoreState_def mbind_def split: outcome.splits)
  have "steady True ch r' \<and> isActive r' s"
    using wp_conj_Ret[OF wp_restoreState[OF S _ I assms(5)] assms(7)] b by simp
  then have c: "config ch r'" and a: "isActive r' s" and t: "tidy ch r'"
    by (auto simp: steady_def stopped_def isActive_def sound_def)
  note up = config_ancestors[OF assuredD(1)[OF S] t c _ a assms(6)]
  show ?thesis using b up by blast
qed

theorem restoreState_configuration_witness:
  "\<exists>r. reachable 24 chart_h4 r \<and> restoreState 24 chart_h4 (Some 3) (CallerParam 0) test_rt = Ret True r \<and>
     isActive r 1 \<and> isActive r 3 \<and> current_of r 1 = Some 3"
proof -
  have step: "context_path (numeral k) chart_h4 s acc =
      (case s of None \<Rightarrow> acc | Some x \<Rightarrow> context_path (pred_numeral k) chart_h4 (parent_of chart_h4 x) (x # acc))"
    for k s acc by (simp add: numeral_eq_Suc)
  have "\<exists>r. restoreState 24 chart_h4 (Some 3) (CallerParam 0) test_rt = Ret True r"
    by (simp add: step test_rt_def run_defs chart_facts cong: stop_congs)
  then obtain r where r: "restoreState 24 chart_h4 (Some 3) (CallerParam 0) test_rt = Ret True r" by blast
  have f: "reachable 24 chart_h4 test_rt" unfolding test_rt_def by (rule reachable.fresh)
  have "\<not> isActive test_rt 0" by (simp add: test_rt_def new_rt_def isActive_def getData_def new_metadata_def)
  from restoreState_configuration[OF sequential_h4 regular_h4 f this _ _ r]
  have "\<forall>x. under chart_h4 x 3 \<longrightarrow> isActive r x"
    "\<forall>x y. under chart_h4 x 3 \<and> parent_of chart_h4 x = Some y \<longrightarrow> current_of r y = Some x"
    by (simp_all add: chart_facts)
  moreover have "under chart_h4 1 3" by (rule under.step[of _ _ 1]) (simp_all add: chart_facts)
  ultimately have "isActive r 1" "isActive r 3" "current_of r 1 = Some 3" by (auto simp: chart_facts)
  moreover have "reachable 24 chart_h4 r"
    using reachable.returned[OF f, of "Restore 3 (CallerParam 0)" True r] r by (simp add: run_input_def chart_facts)
  ultimately show ?thesis using r by blast
qed

text \<open>
  Property C12.  Well-typed data: in every reachable state, runtime data belongs to a state of the chart; the
  current state in it is a child of that state; what a history state has recorded is a path of nested
  states below its parent; and pseudo-states have no timers.
\<close>

theorem reachable_runtime_data:
  assumes "sequential ch" "reachable n ch r" "getData r s = Some d"
  shows "s < n_states ch \<and> (\<forall>c. currentState d = Some c \<longrightarrow> parent_of ch c = Some s) \<and>
    (is_history (kind_of ch s) \<longrightarrow> (\<exists>c. parent_of ch s = Some c \<and> linked ch c (stateset d))) \<and>
    (is_pseudo (kind_of ch s) \<longrightarrow> timeoutEvents d = [])"
proof -
  have S: "assured True False ch (\<lambda>_. 0) 0" using assms(1) by (simp add: assured_def)
  have "steady False ch r" by (rule reachable_steady[OF S _ assms(2)]) simp
  note t = tidyD[OF steady_tidy[OF this] assms(3)]
  have "\<exists>c. parent_of ch s = Some c" if "is_history (kind_of ch s)"
  proof (rule ccontr)
    assume "\<not> ?thesis"
    then have "s = 0" using assuredD(1)[OF S] t(1) by (auto simp: wf_tree_def)
    then show False using assuredD(1)[OF S] that by (simp add: wf_tree_def)
  qed
  then show ?thesis using t by (auto simp: history_ok_def)
qed

theorem reachable_runtime_data_witness:
  "\<exists>r. start 24 chart_h4 test_rt = Ret True r \<and> getData r 1 \<noteq> None \<and> parent_of chart_h4 2 = Some 1"
proof -
  obtain r where r: "start 24 chart_h4 test_rt = Ret True r" "current_of r 1 = Some 2" by (rule start_h4)
  then obtain d where d: "getData r 1 = Some d" "currentState d = Some 2"
    by (auto simp: current_of_def split: option.splits)
  from reachable_runtime_data[OF sequential_h4 reachable_test[OF r(1)] d(1)] show ?thesis using r d by blast
qed

text \<open>
  Property C13.  Leaving records the history: \<open>HierarchicalState::deactivate\<close> of an active state
  whose history state has runtime data and whose current state is neither the start state nor the
  history state nor a final one stores the current state in it, for a deep history the whole chain of
  current states below.
\<close>

theorem leaving_records_history:
  assumes "sequential ch" "reachable n ch r" "s < n_states ch" "kind_of ch s = Hierarchical" "isActive r s"
    and "history (obj ch s) = Some h" "getData r h = Some d"
    and "current_of r s = Some c" "Some c \<noteq> startState (obj ch s)" "c \<noteq> h" "kind_of ch c \<noteq> Final"
    and "deactivate k ch s p r = Ret u r1"
  shows "\<exists>d'. getData r1 h = Some d' \<and>
    (kind_of ch h = Pseudo History \<longrightarrow> stateset d' = [c]) \<and>
    (kind_of ch h = Pseudo DeepHistory \<longrightarrow> current_chain ch r c (stateset d'))"
proof -
  have S: "assured True False ch (\<lambda>_. 0) 0" using assms(1) by (simp add: assured_def)
  have "steady False ch r" by (rule reachable_steady[OF S _ assms(2)]) simp
  then have I: "sound False ch r" using assms(5) by (auto simp: steady_def stopped_def isActive_def)
  note wf = assuredD(1,2)[OF S]
  have "s \<noteq> 0" using wf_kind_Chart[OF wf(1) assms(3)] assms(4) by auto
  obtain j where "k = Suc j" using assms(12) by (cases k) (auto simp: deactivate_def mnoreturn_def)
  then have "HierarchicalState_deactivate ch (vcalls j ch) s p r = Ret u r1"
    using assms(4,12) by (simp add: deactivate_def vstep_def call_deactivate_def)
  from wp_conj_Ret[OF deactivate_records[OF S deact_spec_vcalls[OF S] _ assms(3) I assms(5,6,8-11)] this]
  have "getData r1 h = getData (storeHistory ch h r) h" using \<open>s \<noteq> 0\<close> by simp
  then show ?thesis using recorded_chain[OF sound_tidy[OF I] wf assms(3,6,7,8)] by simp
qed

theorem leaving_records_history_witness:
  "\<exists>r r1 d'. deactivate 24 chart_h4 1 (CallerParam 0) r = Ret () r1 \<and> isActive r 3 \<and>
     getData r1 8 = Some d' \<and> stateset d' = [3]"
proof -
  have "case run_inputs 24 chart_h4 [StartFresh, Dispatch (Some (TestEvent 2))] test_rt of
      Ret _ r \<Rightarrow> isActive r 1 \<and> isActive r 3 \<and> current_of r 1 = Some 3 \<and> getData r 8 \<noteq> None \<and>
        (case deactivate 24 chart_h4 1 (CallerParam 0) r of Ret _ _ \<Rightarrow> True | _ \<Rightarrow> False)
    | _ \<Rightarrow> False"
    by (simp add: run_inputs_def test_rt_def run_input_def run_defs chart_facts chain_numeral cong: stop_congs)
  then obtain r r1 d where r: "run_inputs 24 chart_h4 [StartFresh, Dispatch (Some (TestEvent 2))] test_rt = Ret () r"
    and v: "isActive r 1" "isActive r 3" "current_of r 1 = Some 3" "getData r 8 = Some d"
    and d: "deactivate 24 chart_h4 1 (CallerParam 0) r = Ret () r1"
    by (auto split: outcome.splits)
  have "reachable 24 chart_h4 r" unfolding test_rt_def
    by (rule reachable_inputs[OF reachable.fresh r[unfolded test_rt_def]])
  from leaving_records_history[OF sequential_h4 this _ _ v(1) _ v(4,3) _ _ _ d]
  show ?thesis using d v(2) by (auto simp: chart_facts)
qed

text \<open>
  Property C14.  Entering restores the history: on a chart of the kind of the first property, a transition to a history
  state that has recorded states makes the last recorded one active, and all its ancestors,
  each the current state of its parent.
\<close>

theorem entering_restores_history:
  assumes "sequential ch" "regular ch" "reachable n ch r"
    and "isActive r s" "\<not> is_history (kind_of ch s)" "0 < s"
    and "t \<in> set (transitions (obj ch s))" "\<not> tr_internal (trans ch t)"
    and "is_history (kind_of ch (last (tr_activate (trans ch t))))"
    and "getData r (last (tr_activate (trans ch t))) = Some d" "stateset d \<noteq> []"
    and "\<not> is_history (kind_of ch (last (stateset d)))"
    and "execute ch (vcalls k ch) t ev p r = Ret True r'"
  shows "\<forall>x. under ch x (last (stateset d)) \<longrightarrow>
    isActive r' x \<and> (\<forall>y. parent_of ch x = Some y \<longrightarrow> current_of r' y = Some x)"
proof -
  have S: "assured True True ch (\<lambda>_. 0) 0" using assms(1,2) by (simp add: assured_def)
  have "steady True ch r" by (rule reachable_steady[OF S _ assms(3)]) simp
  then have I: "sound True ch r" using assms(4) by (auto simp: steady_def stopped_def isActive_def)
  have s: "s < n_states ch" by (rule tidy_active[OF sound_tidy[OF I] assms(4)])
  have on: "onpath ch s r" using config_onpath[OF sound_config[OF I] assms(4-6)] by simp
  have "Transition_execute ch (vcalls k ch) (trans ch t) ev p r = Ret True r'"
    using assms(8,13) by (simp add: execute_def)
  from wp_conj_Ret[OF wp_history_transition[OF S assms(6) s assms(7,8) HOL.refl assms(9) _ I on assms(10,11)] this]
  have "sound True ch r'" "isActive r' (last (stateset d))" using assms(5,9) by auto
  then show ?thesis
    using config_ancestors[OF assuredD(1)[OF S] sound_tidy sound_config] assms(12) by blast
qed


theorem entering_restores_history_witness:
  "\<exists>r r'. reachable 24 unvisited_history r \<and> isActive r 7 \<and>
     execute unvisited_history (vcalls 24 unvisited_history) 5 (Some (Event ''back'')) (CallerParam 0) r = Ret True r' \<and>
     isActive r' 2 \<and> isActive r' 6 \<and> current_of r' 2 = Some 6"
proof -
  let ?is = "StartFresh # map (\<lambda>nm. Dispatch (Some (Event nm))) [''next'', ''leave'', ''back'', ''next'', ''leave'']"
  have "case run_inputs 24 unvisited_history ?is (console_rt ()) of
      Ret _ r \<Rightarrow> isActive r 7 \<and> map_option stateset (getData r 4) = Some [6] \<and>
        (case execute unvisited_history (vcalls 24 unvisited_history) 5 (Some (Event ''back'')) (CallerParam 0) r of
           Ret b _ \<Rightarrow> b | _ \<Rightarrow> False)
    | _ \<Rightarrow> False"
    by (simp add: run_inputs_def run_input_def console_rt_def run_of_eval chain_numeral cong: stop_congs)
  then obtain r r' d where r: "run_inputs 24 unvisited_history ?is (console_rt ()) = Ret () r"
    and v: "isActive r 7" "getData r 4 = Some d" "stateset d = [6]"
    and e: "execute unvisited_history (vcalls 24 unvisited_history) 5 (Some (Event ''back'')) (CallerParam 0) r = Ret True r'"
    by (auto split: outcome.splits)
  have reach: "reachable 24 unvisited_history r" unfolding console_rt_def
    by (rule reachable_inputs[OF reachable.fresh r[unfolded console_rt_def]])
  have "\<forall>x. under unvisited_history x 6 \<longrightarrow>
      isActive r' x \<and> (\<forall>y. parent_of unvisited_history x = Some y \<longrightarrow> current_of r' y = Some x)"
    using entering_restores_history[OF sequential_unvisited regular_unvisited reach v(1) _ _ _ _ _ _ _ _ e] v
    by (simp add: chart_facts)
  moreover have "under unvisited_history 2 6" by (rule under.step[of _ _ 2]) (simp_all add: chart_facts)
  ultimately have "isActive r' 2" "isActive r' 6" "current_of r' 2 = Some 6" by (auto simp: chart_facts)
  then show ?thesis using reach v e by blast
qed

text \<open>
  Property C15.  A join waits for all: on any chart a client can build, a transition into a join fires only
  if for every transition into that join its source state is active and its guard accepts.
\<close>

theorem join_waits_for_all:
  assumes "built ch" "t < length (ownedTransitions ch)" "tr_activate (trans ch t) \<noteq> []"
    and "last (tr_activate (trans ch t)) = j" "kind_of ch j = Pseudo pseudo_type.Join"
    and "execute ch (vcalls k ch) t ev p r = Ret True r'"
    and "u < length (ownedTransitions ch)" "tr_activate (trans ch u) \<noteq> []" "last (tr_activate (trans ch u)) = j"
  shows "isActive r (hd (tr_deactivate (trans ch u))) \<and> guard_accepts (trans ch u) p r"
proof -
  have "lists_ok ch (\<lambda>_. True) (trans ch t)"
    using built_wf[OF assms(1)] assms(2) by (simp add: wf_chart_def wf_core_def wf_transitions_def)
  then have "\<not> tr_internal (trans ch t)" using assms(3) by (auto simp: lists_ok_def)
  then have "list_all (join_ready ch p r) (incoming (obj ch j))"
    using execute_join[OF assms(6)] assms(3-5) by simp
  moreover have "u \<in> set (incoming (obj ch j))"
    using built_joins_known[OF assms(1)] assms(5,7-9) by (auto simp: joins_known_def)
  ultimately show ?thesis by (auto simp: list_all_iff join_ready_def split: if_splits)
qed

theorem join_waits_for_all_witness:
  "\<exists>r r'. execute two_into_join (vcalls 24 two_into_join) 3 (Some (Event ''go'')) (CallerParam 0) r = Ret True r' \<and>
     isActive r 5 \<and> isActive r 8"
proof -
  have "case run_of two_into_join [] of
      Ret _ r \<Rightarrow> (case execute two_into_join (vcalls 24 two_into_join) 3 (Some (Event ''go'')) (CallerParam 0) r of
        Ret b _ \<Rightarrow> b | _ \<Rightarrow> False)
    | _ \<Rightarrow> False"
    by (simp add: run_of_eval chart_facts cong: stop_congs)
  then obtain r r' where r: "execute two_into_join (vcalls 24 two_into_join) 3 (Some (Event ''go'')) (CallerParam 0) r = Ret True r'"
    by (auto split: outcome.splits)
  note J = join_waits_for_all[OF built_two_into_join _ _ HOL.refl _ r]
  show ?thesis using r J[of 3] J[of 4] by (auto simp: chart_facts)
qed



section \<open>Building a chart\<close>

text \<open>
  Property C17.  \<open>Transition::calculateStateSet\<close> splits the two paths from the root at the least
  common ancestor: for two different states of any chart a client can build, the ancestors of the
  source are a common part \<open>C\<close> followed by the deactivate list read backwards (so states are
  left innermost first), those of the target are \<open>C\<close> followed by the activate list, the two
  lists share no state, and one of them is empty exactly when one state contains the other.
\<close>

theorem calculateStateSet_lca:
  assumes "built ch" "s < n_states ch" "t < n_states ch" "s \<noteq> t"
    and "calculateStateSet ch (Some s) (Some t) = (D, A)"
  shows "\<exists>C. ancestry ch s (C @ rev D) \<and> ancestry ch t (C @ A) \<and> set D \<inter> set A = {} \<and>
    (D = [] \<longleftrightarrow> s \<in> set (C @ A)) \<and> (A = [] \<longleftrightarrow> t \<in> set (C @ rev D))"
proof -
  have wf: "wf_tree ch" using built_wf[OF assms(1)] by (simp add: wf_chart_def wf_core_def)
  let ?ps = "path_to ch (Some s)" and ?pt = "path_to ch (Some t)"
  let ?k = "common_prefix ?pt ?ps"
  have DA: "rev D = drop ?k ?ps" "A = drop ?k ?pt"
    using assms(4,5) by (auto simp: calculateStateSet_paths Let_def)
  have paths: "?ps = take ?k ?ps @ rev D" "?pt = take ?k ?ps @ A"
    unfolding DA by (simp, metis append_take_drop_id take_common_prefix)
  have "set (drop ?k ?ps) \<inter> set (drop ?k ?pt) = {}"
    by (rule path_tails_disjoint) (rule path_to_ancestry[OF wf assms(2)] path_to_ancestry[OF wf assms(3)])+
  then have "set D \<inter> set A = {}" using DA by (metis set_rev)
  moreover have "D = [] \<longleftrightarrow> s \<in> set ?pt" "A = [] \<longleftrightarrow> t \<in> set ?ps"
    using path_tail_empty_iff[OF wf assms(2,3)] DA by (metis rev_is_Nil_conv)+
  ultimately show ?thesis
    using path_to_ancestry(1)[OF wf assms(2)] path_to_ancestry(1)[OF wf assms(3)] paths by metis
qed


theorem calculateStateSet_lca_witness:
  "\<exists>C. ancestry chart_h4 2 (C @ rev [2, 1]) \<and> ancestry chart_h4 5 (C @ [5]) \<and>
     set [2, 1] \<inter> set [5::nat] = {} \<and>
     ([2, 1::nat] = [] \<longleftrightarrow> 2 \<in> set (C @ [5])) \<and> ([5::nat] = [] \<longleftrightarrow> 5 \<in> set (C @ rev [2, 1]))"
proof -
  have "calculateStateSet chart_h4 (Some 2) (Some 5) = ([2, 1], [5])"
    by (simp add: path_eval chart_facts)
  then show ?thesis
    by (intro calculateStateSet_lca[OF built_h4]) (simp_all add: chart_facts)
qed

text \<open>
  Property C18.  Every chart the factory methods can build is well-formed: each state was created
  below a context that already existed, the start-state, history and region slots name exactly the
  children of the right class, every transition pointer is valid and starts in the state that holds
  it, its two lists are those of \<open>calculateStateSet\<close>, and the name table is a bijection between the
  names used and the states.
\<close>

theorem built_charts_well_formed:
  assumes "built ch"
  shows "wf_chart ch"
  by (rule built_wf[OF assms])

theorem built_charts_well_formed_witness: "wf_chart chart_t3"
  by (rule built_charts_well_formed[OF built_t3])

text \<open>
  Property C19.  \<open>State::addTransition\<close> over a whole construction: a state tries its guarded
  transitions first, the last created one first, and after them the others in the order of their
  creation.
\<close>

theorem guarded_transitions_first:
  assumes "built ch" "s < n_states ch"
  shows "\<exists>gs us. transitions (obj ch s) = rev gs @ us \<and> sorted_wrt (<) gs \<and> sorted_wrt (<) us \<and>
    (\<forall>t \<in> set gs. tr_guard (trans ch t) \<noteq> None) \<and> (\<forall>t \<in> set us. tr_guard (trans ch t) = None)"
  using built_ordered[OF assms(1)] assms(2)
  by (auto simp: transitions_ordered_def guards_first_def guarded_def list_all_iff)

theorem guarded_transitions_first_witness:
  "\<exists>gs us. [1, 2] = rev gs @ us \<and> sorted_wrt (<) gs \<and> sorted_wrt (<) us \<and>
    (\<forall>t \<in> set gs. tr_guard (trans chart_t3 t) \<noteq> None) \<and>
    (\<forall>t \<in> set us. tr_guard (trans chart_t3 t) = None)"
  using guarded_transitions_first[OF built_t3, of 1] by (simp add: chart_facts)




section \<open>Events, timers and threads\<close>

text \<open>
  Property C22.  Asynchronous events are processed in the order in which they were handed to the
  worker thread, each once: in every execution the entries handed over are those processed, then the
  one that is running, then those in the queue.
\<close>

theorem events_processed_in_order:
  assumes "wf_chart ch" "benign_chart ch" "sys_log n ch s sub fin"
  shows "\<exists>now. length now \<le> 1 \<and> sub = fin @ now @ tasks (sys_sv s) \<and>
    (now = [] \<longleftrightarrow> sys_workers s = [Idle] \<or> sys_workers s = [Exited])"
proof -
  obtain w where w: "sys_workers s = [w]" using one_worker[OF assms(1,2) sys_log_reach[OF assms(3)]] by blast
  have "sub = fin @ running_entry s @ tasks (sys_sv s)" by (rule sys_log_fifo[OF assms])
  then show ?thesis
    using w by (intro exI[of _ "running_entry s"]) (cases w; simp add: running_entry_def worker_entries_def)
qed

theorem events_processed_in_order_witness:
  "\<exists>s now. sys_log 12 chart_t3 s [0, 2, 3] [0] \<and> [0::nat, 2, 3] = [0] @ now @ [3] \<and> now \<noteq> []"
proof -
  obtain s where s: "sys_log 12 chart_t3 s [0, 2, 3] [0]" "sys_workers s = [Busy (Checking 2)]" "tasks (sys_sv s) = [3]"
    by (rule exE[OF demo_posted], elim conjE, rule that; assumption)
  then show ?thesis using events_processed_in_order[OF runs_t3 s(1)] by auto
qed



text \<open>
  Property C24.  Nothing is early: an entry that waits for the worker thread, or that a thread has
  taken, has a deadline that is over.
\<close>

theorem no_early_timeout:
  assumes "wf_chart ch" "benign_chart ch" "sys_reach n ch s" "\<not> closed s"
    and "e \<in> set (tasks (sys_sv s)) \<union> set (running_entry s) \<union> set (timer_entries (sys_timer s))"
  shows "e_deadline (entries (sys_sv s) ! e) \<le> clock (sys_sv s)"
proof -
  have "held_ok s" using sys_reach_ok[OF assms(1-3)] by (simp add: sys_ok_def)
  then have "e \<in> set (tasks (sys_sv s)) \<union> set (held (sys_sv s))"
    using assms(5) held_members[of s] by auto
  then show ?thesis
    using deadlines.sys_reach_J[OF assms(1-4)] by (auto simp: timely_def deadline_def)
qed

theorem no_early_timeout_witness:
  "\<exists>s. sys_reach 12 chart_t3 s \<and> sys_timer s = Got 1 \<and> e_deadline (entries (sys_sv s) ! 1) \<le> clock (sys_sv s)"
proof -
  obtain s where s: "sys_log 12 chart_t3 s [0] [0]" "sys_timer s = Got 1" "\<not> closed s"
    by (rule exE[OF demo_timer], elim conjE, rule that; assumption)
  have "e_deadline (entries (sys_sv s) ! 1) \<le> clock (sys_sv s)"
    by (rule no_early_timeout[OF runs_t3 sys_log_reach[OF s(1)] s(3)]) (simp add: s(2) timer_entries_def)
  then show ?thesis using sys_log_reach[OF s(1)] s(2) by blast
qed





text \<open>
  Property C27.  As long as fewer than \<open>2 ^ 64\<close> entries were constructed, the 64-bit counter gives
  each its own number, in the order of construction.
\<close>

theorem entry_ids_unique:
  assumes "wf_chart ch" "benign_chart ch" "sys_reach n ch s" "\<not> closed s"
    and "length (entries (sys_sv s)) < 2 ^ 64" "e < e'" "e' < length (entries (sys_sv s))"
  shows "e_id (entries (sys_sv s) ! e) < e_id (entries (sys_sv s) ! e')"
proof -
  have "numbered (sys_sv s)" by (rule entry_numbers_threads.sys_reach_J[OF assms(1-4)])
  then show ?thesis using numbered_increasing assms(5-7) by blast
qed

theorem entry_ids_unique_witness:
  "\<exists>s. sys_reach 12 chart_t3 s \<and> e_id (entries (sys_sv s) ! 0) < e_id (entries (sys_sv s) ! 1)"
proof -
  obtain s where s: "sys_log 12 chart_t3 s [0] [0]" "\<not> closed s" "map e_deadline (entries (sys_sv s)) = [0, 1000]"
    by (rule exE[OF demo_timer], elim conjE, rule that; assumption)
  have "length (entries (sys_sv s)) = 2" using arg_cong[OF s(3), of length] by simp
  then have "e_id (entries (sys_sv s) ! 0) < e_id (entries (sys_sv s) ! 1)"
    by (intro entry_ids_unique[OF runs_t3 sys_log_reach[OF s(1)] s(2)]) simp_all
  then show ?thesis using sys_log_reach[OF s(1)] by blast
qed

section \<open>The thread pool\<close>



text \<open>
  Property C29.  A pool that is shut down accepts nothing any more, and each worker that has not
  returned has a next step; one such step after the other, at most \<open>work_left\<close> (two per queued task,
  two per busy worker, one per idle one) are possible, and then every worker has returned.
\<close>

theorem pool_shutdown_terminates:
  assumes "m_shutdown p" "turns p is q"
  shows "fst (pool_execute t q) = False \<and> length is \<le> work_left p \<and>
    ((\<nexists>i. enabled q i) = (set (m_workers q) \<subseteq> {Exited}))"
proof -
  have q: "m_shutdown q" using turns_shutdown[OF assms(2)] assms(1) by simp
  have "length is \<le> work_left p" using turns_bounded[OF assms(2)] by simp
  moreover have "fst (pool_execute t q) = False" using q by (simp add: pool_execute_def split: option.split)
  moreover have "set (m_workers q) \<subseteq> {Exited}" if "\<nexists>i. enabled q i"
    using turns_stuck[OF q] that by blast
  moreover have "\<not> enabled q i" if "set (m_workers q) \<subseteq> {Exited}" for i
  proof
    assume e: "enabled q i"
    then have "m_workers q ! i = Exited" using that by (auto simp: enabled_def dest!: nth_mem)
    then show False using e by (simp add: enabled_def)
  qed
  ultimately show ?thesis by blast
qed

theorem pool_shutdown_terminates_witness:
  "\<exists>q :: nat pool. fst (pool_execute (Some 8) q) = False \<and> length [0::nat, 0, 0] \<le> 3 \<and>
     (\<nexists>i. enabled q i) = (set (m_workers q) \<subseteq> {Exited}) \<and> m_workers q = [Exited]"
proof -
  let ?p = "\<lparr>m_tasks = [7::nat], m_shutdown = True, m_workers = [Idle], m_joinable = [True]\<rparr>"
  let ?p1 = "?p\<lparr>m_tasks := [], m_workers := [Busy 7]\<rparr>" and ?p2 = "?p\<lparr>m_tasks := [], m_workers := [Idle]\<rparr>"
  let ?q = "?p\<lparr>m_tasks := [], m_workers := [Exited]\<rparr>"
  have st: "worker_step 0 ?p = ?p1" "worker_step 0 ?p1 = ?p2" "worker_step 0 ?p2 = ?q"
    by (simp_all add: worker_step_def worker_turn_def set_worker_def)
  have "enabled ?p 0" "enabled ?p1 0" "enabled ?p2 0" by (simp_all add: enabled_def)
  then have "turns ?p [0, 0, 0] ?q" by (auto simp: st simp del: pool.update_convs intro!: turns.intros)
  from pool_shutdown_terminates[OF _ this, of "Some 8"] show ?thesis
    by (intro exI[of _ ?q]) (simp add: work_left_def worker_work_def)
qed

text \<open>
  Property C30.  When \<open>awaitTermination\<close> answers true, whatever the other threads did meanwhile, the
  pool is shut down, its queue is empty and every worker has returned.
\<close>

theorem awaitTermination_true:
  assumes "pool_run (new_pool n) as p0" "awaiting limit p0 t0 p now (Answer True)"
  shows "m_shutdown p \<and> m_tasks p = [] \<and> set (m_workers p) = {Exited}"
proof -
  note F = pool_run_fresh[OF assms(1)]
  have e: "set (m_workers p) \<subseteq> {Exited}" by (rule awaiting_answer_True[OF assms(2) F(1)])
  moreover have "m_workers p \<noteq> []" using awaiting_workers[OF assms(2)] F(3) by auto
  ultimately have "set (m_workers p) = {Exited}" by (cases "m_workers p") auto
  then show ?thesis using awaiting_drained[OF assms(2) F(2)] by (simp add: drained_def)
qed

theorem awaitTermination_true_witness:
  "\<exists>p :: nat pool. m_shutdown p \<and> m_tasks p = [] \<and> set (m_workers p) = {Exited}"
proof -
  let ?p0 = "\<lparr>m_tasks = [] :: nat list, m_shutdown = True, m_workers = [Exited], m_joinable = [True]\<rparr>"
  let ?p1 = "?p0\<lparr>m_joinable := [False]\<rparr>"
  let ?c = "\<lparr>m_tasks = [] :: nat list, m_shutdown = True, m_workers = [Idle], m_joinable = [True]\<rparr>"
  have "pool_step (new_pool 1) Close ?c"
    using pool_step.close[of "new_pool 1"] by (simp add: pool_close_def new_pool_def)
  moreover have "pool_step ?c (Turn 0) ?p0"
    using pool_step.turn[of 0 ?c] by (simp add: worker_step_def worker_turn_def set_worker_def)
  ultimately have r: "pool_run (new_pool 1) (([] @ [Close]) @ [Turn 0]) ?p0"
    by (blast intro: pool_run.intros)
  have "awaiting 60000 ?p0 0 ?p0 0 (Wait 0)"
    by (rule awaiting.own[OF awaiting.call]) (simp add: await_step_def)
  then have "awaiting 60000 ?p0 0 ?p0 0 (await.Join 0)"
    by (rule awaiting.own) (simp add: await_step_def)
  then have "awaiting 60000 ?p0 0 ?p1 0 (Check 1)"
    by (rule awaiting.own) (simp add: await_step_def)
  then have "awaiting 60000 ?p0 0 ?p1 0 (Answer True)"
    by (rule awaiting.own) (simp add: await_step_def)
  from awaitTermination_true[OF r this] show ?thesis by (rule exI)
qed

text \<open>
  Property C31.  The destructor of the pool returns only when every worker has returned and the
  queue is empty, also when the minute of \<open>awaitTermination\<close> was over.
\<close>

theorem pool_destructor:
  assumes "pool_run (new_pool n) as p0" "destroying limit p0 p now Gone"
  shows "m_tasks p = [] \<and> set (m_workers p) = {Exited}"
proof -
  have "m_workers p \<noteq> []"
    using destroying_workers[OF assms(2)] pool_run_fresh(3)[OF assms(1)] by (metis length_0_conv)
  then show ?thesis using destroying_gone[OF assms(2) pool_run_fresh(1,2)[OF assms(1)]] by blast
qed

theorem pool_destructor_witness:
  "\<exists>p :: nat pool. m_tasks p = [] \<and> set (m_workers p) = {Exited}"
proof -
  let ?p0 = "\<lparr>m_tasks = [] :: nat list, m_shutdown = False, m_workers = [Idle], m_joinable = [True]\<rparr>"
  let ?p1 = "?p0\<lparr>m_shutdown := True\<rparr>" and ?p2 = "?p0\<lparr>m_shutdown := True, m_workers := [Exited]\<rparr>"
  let ?p3 = "?p0\<lparr>m_shutdown := True, m_workers := [Exited], m_joinable := [False]\<rparr>"
  have p0: "new_pool 1 = ?p0" by (simp add: new_pool_def)
  have "destroying 60000 ?p0 ?p1 0 (AwaitAll (Check 0))"
    by (rule destroying.own[OF destroying.call]) (simp add: destroy_step_def pool_close_def)
  then have "destroying 60000 ?p0 ?p1 60000 (AwaitAll (Check 0))" by (rule destroying.tick) simp
  then have "destroying 60000 ?p0 ?p1 60000 (AwaitAll (Answer False))"
    by (rule destroying.own) (simp add: destroy_step_def await_step_def)
  then have "destroying 60000 ?p0 ?p1 60000 (JoinLeft 0)"
    by (rule destroying.own) (simp add: destroy_step_def)
  moreover have "pool_step ?p1 (Turn 0) ?p2"
    using pool_step.turn[of 0 ?p1] by (simp add: worker_step_def worker_turn_def set_worker_def)
  ultimately have "destroying 60000 ?p0 ?p2 60000 (JoinLeft 0)" by (rule destroying.other)
  then have "destroying 60000 ?p0 ?p3 60000 (JoinLeft 1)"
    by (rule destroying.own) (simp add: destroy_step_def)
  then have "destroying 60000 ?p0 ?p3 60000 Gone"
    by (rule destroying.own) (simp add: destroy_step_def)
  then have "destroying 60000 (new_pool 1) ?p3 60000 Gone" unfolding p0 .
  from pool_destructor[OF pool_run.empty this] show ?thesis by (rule exI)
qed

section \<open>The delay queue\<close>

text \<open>
  Property C32.  Insertion sort: filling an empty queue gives the stable sort, by deadline, of the elements in
  the reverse order of their arrival - of two with the same deadline, the later comes first.
\<close>

theorem delay_queue_sorts:
  "m_items (fold (dq_add key) xs dq_empty) = sort_key key (rev xs)"
  using dq_adds_insort[of key dq_empty xs] by (simp add: sort_key_def dq_empty_def dq_sorted_def)

text \<open>
  Property C33.  Round trip: removing an element that was just added gives back the queue.
\<close>

theorem delay_queue_remove_add:
  assumes "dq_sorted key q" "x \<notin> set (m_items q)"
  shows "dq_remove x (dq_add key x q) = q \<and> dq_sorted key (dq_add key x q)"
  using dq_remove_add[OF assms] dq_sorted_add[OF assms(1)] by simp

theorem delay_queue_remove_add_witness:
  "dq_remove 4 (dq_add id 4 \<lparr>m_items = [1, 3, 7 :: int], m_stop = False\<rparr>) = \<lparr>m_items = [1, 3, 7], m_stop = False\<rparr>"
  using delay_queue_remove_add[of id "\<lparr>m_items = [1, 3, 7], m_stop = False\<rparr>" 4] by (simp add: dq_sorted_def)

text \<open>
  Property C34.  Taking from a running queue, as long as something is due, gives exactly the elements that are
  due, in the order of their deadlines, and leaves the others.
\<close>

theorem delay_queue_drains:
  assumes "dq_sorted key q" "\<not> m_stop q" "drain (take_now key) (dq_size q) now q = (xs, q')"
  shows "sorted (map key xs) \<and> mset xs = filter_mset (\<lambda>y. key y \<le> now) (mset (m_items q)) \<and>
    mset (m_items q') = filter_mset (\<lambda>y. now < key y) (mset (m_items q)) \<and> dq_sorted key q'"
  using delay_queue.drain_spec[of key q "dq_size q" now xs q'] assms by (simp add: dq_size_def)

theorem delay_queue_drains_witness:
  "mset [1, 3 :: int] = filter_mset (\<lambda>y. y \<le> 5) (mset [1, 3, 7])"
  using delay_queue_drains[of id "\<lparr>m_items = [1, 3, 7], m_stop = False\<rparr>" 5 "[1, 3]" "\<lparr>m_items = [7], m_stop = False\<rparr>"]
  by (simp add: dq_sorted_def dq_size_def take_now_def numeral_eq_Suc id_def)



section \<open>Examples\<close>

text \<open>
  Property C36.  The lane keeping program implements the table in its header comment: after any sequence of
  events the state is the one the table leads to, and the lamps are those of that state.
\<close>

theorem lane_keeping_refines:
  "moves (events_sent lane_keeping (lks_flags 2) nms) (fold lks_next nms 2, lks_flags (fold lks_next nms 2))"
  using lks.runs(1)[of "lks_flags 2" nms] by (simp add: lks_ok_def lks_fold)

text \<open>
  Property C37.  The gumball distributor never sells what it does not have: after any sequence of events the
  number of gumballs has not become negative, it is positive while a quarter is in the machine, and
  it is zero exactly in the state \<open>OutOfGumballs\<close>.
\<close>

theorem gumball_never_negative:
  assumes "0 \<le> gumballs x"
  shows "\<exists>c r. events_sent gumball x nms = Ret c r \<and> 0 \<le> gumballs (parameter (rt_env r)) \<and>
    gumballs (parameter (rt_env r)) \<le> gumballs x \<and>
    (isActive r 3 \<longrightarrow> 0 < gumballs (parameter (rt_env r))) \<and>
    (gumballs (parameter (rt_env r)) = 0 \<longleftrightarrow> isActive r 5)"
proof -
  let ?sx = "fold gumball_delta nms (gumball_shelf x, x)"
  have s: "gumball_stocked ?sx"
    by (rule gumball_stocked_fold) (use assms in \<open>auto simp: gumball_stocked_def gumball_shelf_def\<close>)
  have "moves (events_sent gumball x nms) ?sx"
    by (rule gumball_machine.runs(1)) (simp add: gumball_ok_def gumball_shelf_def)
  then obtain c r where "events_sent gumball x nms = Ret c r" "parameter (rt_env r) = snd ?sx"
      "\<And>y. isActive r y \<longleftrightarrow> y = 0 \<or> y = fst ?sx"
    by (rule moves_views) (use s in \<open>auto simp: gumball_stocked_def\<close>)
  then show ?thesis using s gumball_fold[of nms "(gumball_shelf x, x)"] by (auto simp: gumball_stocked_def)
qed

theorem gumball_never_negative_witness:
  "\<exists>c r. events_sent gumball \<lparr>gumballs = 1\<rparr> [''insertQuarter'', ''turnCrank'', ''turnCrank''] = Ret c r \<and>
     0 \<le> gumballs (parameter (rt_env r)) \<and> gumballs (parameter (rt_env r)) \<le> 1"
  using gumball_never_negative[of "\<lparr>gumballs = 1\<rparr>" "[''insertQuarter'', ''turnCrank'', ''turnCrank'']"] by auto

text \<open>
  Property C38.  The rich man: after any sequence of events he has found one quarter per event \<open>getQuarter\<close>, ten
  at most, and looks for the next.
\<close>

theorem richman_ten_quarters:
  "\<exists>c r. events_sent richman x nms = Ret c r \<and> isActive r 2 \<and>
    quarters (parameter (rt_env r)) = min 10 (int (count_list nms ''getQuarter''))"
proof -
  let ?sx = "fold richman_delta nms (2, x\<lparr>quarters := 0\<rparr>)"
  have f: "fst ?sx = 2" "quarters (snd ?sx) = min 10 (int (count_list nms ''getQuarter''))"
    using richman_fold[of "x\<lparr>quarters := 0\<rparr>" nms 2] by simp_all
  have "moves (events_sent richman x nms) ?sx"
    by (rule richman_machine.runs(1)) (simp add: richman_ok_def)
  then obtain c r where "events_sent richman x nms = Ret c r" "parameter (rt_env r) = snd ?sx"
      "\<And>y. isActive r y \<longleftrightarrow> y = 0 \<or> y = fst ?sx"
    by (rule moves_views) (use f in auto)
  then show ?thesis using f by auto
qed

text \<open>
  Property C39.  The digital watch shows a time of day, after any sequence of events.
\<close>

theorem watch_in_range:
  assumes "hours x \<in> {0..<24}" "minutes x \<in> {0..<60}"
  shows "\<exists>c r. events_sent digital_watch x nms = Ret c r \<and>
    hours (parameter (rt_env r)) \<in> {0..<24} \<and> minutes (parameter (rt_env r)) \<in> {0..<60}"
proof -
  have "moves (events_sent digital_watch x nms) (fold watch_delta nms (watch_first x))"
    by (rule watch.runs(1)) (simp add: watch_ok_def watch_first_def)
  then obtain c r where "events_sent digital_watch x nms = Ret c r"
      "resting (fold watch_delta nms (watch_first x)) r"
    by (rule movesE)
  then show ?thesis
    using watch_fold[of "watch_first x" nms] assms by (auto simp: resting_parameter watch_first_def)
qed

theorem watch_in_range_witness:
  "\<exists>c r. events_sent digital_watch \<lparr>hours = 23, minutes = 59\<rparr> [''set'', ''incr''] = Ret c r \<and>
     hours (parameter (rt_env r)) \<in> {0..<24}"
  using watch_in_range[of "\<lparr>hours = 23, minutes = 59\<rparr>" "[''set'', ''incr'']"] by auto

end
